(* ===== verification/Prelude.thy ===== *)
theory Prelude
  imports Main "HOL-Library.AList"
begin

text \<open>
  Shared vocabulary of the development: the names of the model's basic types, the
  collections of rewrite rules the component theories feed, and the string
  primitives of JavaScript that \<^verbatim>\<open>edit.js\<close> calls
  (\<^verbatim>\<open>String.prototype.includes\<close> and \<^verbatim>\<open>String.prototype.replace\<close> with a
  string pattern), with the lemmas that connect them to the list library.
  JavaScript strings are modelled as \<^typ>\<open>string\<close>: one \<^typ>\<open>char\<close> per byte of
  the UTF-8 encoding.
\<close>

named_theorems page_simps "equations that evaluate the page model on concrete states"
named_theorems text_simps "equations about the string encodings of the model"

type_synonym node = nat

subsection \<open>JavaScript string primitives\<close>

text \<open>
  \<^verbatim>\<open>s.includes(pat)\<close>: whether \<open>pat\<close> occurs in \<open>s\<close> at some position. The
  empty pattern occurs everywhere.
\<close>

fun js_includes :: "string \<Rightarrow> string \<Rightarrow> bool" where
  "js_includes pat [] = (pat = [])"
| "js_includes pat (c # cs) = (take (length pat) (c # cs) = pat \<or> js_includes pat cs)"

text \<open>
  \<^verbatim>\<open>s.replace(pat, rep)\<close> with a string (not a regular expression) pattern:
  only the first occurrence of \<open>pat\<close> is replaced; with no occurrence the string is
  returned unchanged; the empty pattern matches at position 0.
\<close>

fun js_replace_first :: "string \<Rightarrow> string \<Rightarrow> string \<Rightarrow> string" where
  "js_replace_first pat rep [] = (if pat = [] then rep else [])"
| "js_replace_first pat rep (c # cs) =
     (if take (length pat) (c # cs) = pat then rep @ drop (length pat) (c # cs)
      else c # js_replace_first pat rep cs)"

text \<open>ASCII classes used by the HTML and URL encoders.\<close>

definition is_ascii_digit :: "char \<Rightarrow> bool" where
  "is_ascii_digit c \<longleftrightarrow> (48::nat) \<le> of_char c \<and> (of_char c::nat) \<le> 57"

definition is_ascii_alpha :: "char \<Rightarrow> bool" where
  "is_ascii_alpha c \<longleftrightarrow>
     ((65::nat) \<le> of_char c \<and> (of_char c::nat) \<le> 90) \<or> ((97::nat) \<le> of_char c \<and> (of_char c::nat) \<le> 122)"

definition is_ascii_alnum :: "char \<Rightarrow> bool" where
  "is_ascii_alnum c \<longleftrightarrow> is_ascii_digit c \<or> is_ascii_alpha c"

abbreviation newline :: char where
  "newline \<equiv> CHR 0x0A"

subsection \<open>Exceptions as values\<close>

text \<open>
  A JavaScript statement that throws is a value \<open>Inl e\<close> of a sum; the statements after
  it do not run. \<open>sum_bind\<close> sequences two such computations.
\<close>

definition sum_bind :: "'e + 'a \<Rightarrow> ('a \<Rightarrow> 'e + 'b) \<Rightarrow> 'e + 'b" where
  "sum_bind r f = (case r of Inl e \<Rightarrow> Inl e | Inr a \<Rightarrow> f a)"

lemma sum_bind_simps [simp]:
  "sum_bind (Inl e) f = Inl e"
  "sum_bind (Inr a) f = f a"
  by (simp_all add: sum_bind_def)

subsection \<open>Shared lemmas\<close>

lemma js_includes_single [simp, text_simps]: "js_includes [c] s \<longleftrightarrow> c \<in> set s"
  by (induction s) auto

text \<open>
  Removing a one-character pattern with \<^verbatim>\<open>replace\<close> is the library's
  \<^const>\<open>remove1\<close>: the JavaScript routine and the reference definition agree.
\<close>

lemma js_replace_first_single [simp, text_simps]: "js_replace_first [c] [] s = remove1 c s"
  by (induction s) auto

lemma count_list_remove1 [simp]:
  "count_list (remove1 x xs) y = (if x = y \<and> x \<in> set xs then count_list xs y - 1 else count_list xs y)"
  by (induction xs) auto

lemma concat_map_remove1:
  assumes "\<And>y. y \<in> set xs \<Longrightarrow> f y = [x] \<longleftrightarrow> y = x"
    and "\<And>y. y \<in> set xs \<Longrightarrow> y \<noteq> x \<Longrightarrow> x \<notin> set (f y)"
  shows "remove1 x (concat (map f xs)) = concat (map f (remove1 x xs))"
  using assms
proof (induction xs)
  case Nil
  then show ?case by simp
next
  case (Cons a xs)
  show ?case
  proof (cases "a = x")
    case True
    with Cons.prems(1) have "f a = [x]" by simp
    with True show ?thesis by simp
  next
    case False
    with Cons.prems(2) have "x \<notin> set (f a)" by simp
    moreover have "remove1 x (concat (map f xs)) = concat (map f (remove1 x xs))"
      using Cons.prems by (intro Cons.IH) auto
    ultimately show ?thesis using False by (simp add: remove1_append)
  qed
qed

lemma count_list_concat_replicate [simp]:
  "count_list (concat (replicate k xs)) x = k * count_list xs x"
  by (induction k) simp_all

lemma funpow_view_cong:
  assumes "\<And>x y. E x = E y \<Longrightarrow> E (g x) = E (g y)" and "E x = E y"
  shows "E ((g ^^ n) x) = E ((g ^^ n) y)"
  using assms(2) by (induction n) (auto intro: assms(1))

lemma funpow_inv: "(\<And>q. P q \<Longrightarrow> P (g q)) \<Longrightarrow> P p \<Longrightarrow> P ((g ^^ n) p)"
  by (induction n) auto

end
