(* ===== verification/Url_Params.thy ===== *)
theory Url_Params
  imports Prelude
begin

text \<open>
  \<^verbatim>\<open>URLSearchParams\<close>, as \<^verbatim>\<open>doneEditing\<close> in \<^verbatim>\<open>edit.js\<close> uses it: built from
  \<^verbatim>\<open>window.location.search\<close>, updated with \<^verbatim>\<open>set\<close>, turned back into a query
  string with \<^verbatim>\<open>toString\<close>. It is browser library code, modelled from the WHATWG URL
  standard: the list of name-value pairs, the \<^verbatim>\<open>application/x-www-form-urlencoded\<close>
  parser and serializer (with their percent-encoding and \<open>+\<close> for space), and the
  \<^verbatim>\<open>set\<close> and \<^verbatim>\<open>get\<close> methods. Strings are byte sequences (their UTF-8
  encoding), so UTF-8 encoding and decoding are the identity here.
\<close>

type_synonym url_params = "(string \<times> string) list"

subsection \<open>Percent-encoding\<close>

definition hex_digit :: "nat \<Rightarrow> char" where
  "hex_digit d = (if d < 10 then char_of (48 + d) else char_of (55 + d))"

definition is_hex_digit :: "char \<Rightarrow> bool" where
  "is_hex_digit c \<longleftrightarrow> is_ascii_digit c \<or> ((65::nat) \<le> of_char c \<and> (of_char c::nat) \<le> 70)
     \<or> ((97::nat) \<le> of_char c \<and> (of_char c::nat) \<le> 102)"

definition hex_value :: "char \<Rightarrow> nat" where
  "hex_value c =
     (if is_ascii_digit c then of_char c - 48
      else if (65::nat) \<le> of_char c \<and> (of_char c::nat) \<le> 70 then of_char c - 55
      else of_char c - 87)"

text \<open>The complement of the \<^verbatim>\<open>application/x-www-form-urlencoded\<close> percent-encode set.\<close>

definition form_unreserved :: "char \<Rightarrow> bool" where
  "form_unreserved c \<longleftrightarrow>
     is_ascii_alnum c \<or> c = CHR ''*'' \<or> c = CHR ''-'' \<or> c = CHR ''.'' \<or> c = CHR ''_''"

definition form_encode_byte :: "char \<Rightarrow> string" where
  "form_encode_byte c =
     (if c = CHR '' '' then ''+''
      else if form_unreserved c then [c]
      else [CHR ''%'', hex_digit (of_char c div 16), hex_digit (of_char c mod 16)])"

definition form_encode :: "string \<Rightarrow> string" where
  "form_encode s = concat (map form_encode_byte s)"

text \<open>Percent-decoding: \<open>%\<close> followed by two hex digits is one byte; any other byte
  (a lone \<open>%\<close> included) is kept.\<close>

fun percent_decode :: "string \<Rightarrow> string" where
  "percent_decode (c # a # b # s) =
     (if c = CHR ''%'' \<and> is_hex_digit a \<and> is_hex_digit b
      then char_of (16 * hex_value a + hex_value b) # percent_decode s
      else c # percent_decode (a # b # s))"
| "percent_decode s = s"

definition plus_to_space :: "char \<Rightarrow> char" where
  "plus_to_space c = (if c = CHR ''+'' then CHR '' '' else c)"

definition form_decode :: "string \<Rightarrow> string" where
  "form_decode s = percent_decode (map plus_to_space s)"

subsection \<open>The urlencoded parser and serializer\<close>

fun split_on :: "char \<Rightarrow> string \<Rightarrow> string list" where
  "split_on d [] = [[]]"
| "split_on d (c # s) =
     (if c = d then [] # split_on d s
      else (case split_on d s of [] \<Rightarrow> [[c]] | w # ws \<Rightarrow> (c # w) # ws))"

definition parse_pair :: "string \<Rightarrow> string \<times> string" where
  "parse_pair b =
     (form_decode (takeWhile (\<lambda>c. c \<noteq> CHR ''='') b),
      form_decode (drop 1 (dropWhile (\<lambda>c. c \<noteq> CHR ''='') b)))"

definition urlencoded_parse :: "string \<Rightarrow> url_params" where
  "urlencoded_parse s = map parse_pair (filter (\<lambda>b. b \<noteq> []) (split_on CHR ''&'' s))"

definition encode_pair :: "string \<times> string \<Rightarrow> string" where
  "encode_pair p = form_encode (fst p) @ CHR ''='' # form_encode (snd p)"

fun urlencoded_serialize :: "url_params \<Rightarrow> string" where
  "urlencoded_serialize [] = []"
| "urlencoded_serialize [p] = encode_pair p"
| "urlencoded_serialize (p # ps) = encode_pair p @ CHR ''&'' # urlencoded_serialize ps"

subsection \<open>The URLSearchParams object\<close>

text \<open>\<^verbatim>\<open>new URLSearchParams(init)\<close> with a string: a leading \<open>?\<close> is dropped.\<close>

definition usp_of_string :: "string \<Rightarrow> url_params" where
  "usp_of_string init =
     urlencoded_parse (case init of c # s \<Rightarrow> if c = CHR ''?'' then s else init | [] \<Rightarrow> [])"

definition usp_to_string :: "url_params \<Rightarrow> string" where
  "usp_to_string ps = urlencoded_serialize ps"

text \<open>\<^verbatim>\<open>get(name)\<close>: the value of the first pair with that name.\<close>

definition usp_get :: "url_params \<Rightarrow> string \<Rightarrow> string option" where
  "usp_get ps k = map_of ps k"

text \<open>\<^verbatim>\<open>set(name, value)\<close>: if a pair has the name, the first such pair gets the value
  and every later pair with the name is removed; otherwise the pair is appended.\<close>

fun usp_set_first :: "string \<Rightarrow> string \<Rightarrow> url_params \<Rightarrow> url_params" where
  "usp_set_first k v [] = []"
| "usp_set_first k v (p # ps) =
     (if fst p = k then (k, v) # filter (\<lambda>q. fst q \<noteq> k) ps else p # usp_set_first k v ps)"

definition usp_set :: "url_params \<Rightarrow> string \<Rightarrow> string \<Rightarrow> url_params" where
  "usp_set ps k v = (if k \<in> set (map fst ps) then usp_set_first k v ps else ps @ [(k, v)])"

subsection \<open>Percent-encoding round trip\<close>

lemma hex_digit_props:
  assumes "d < 16"
  shows "is_hex_digit (hex_digit d)" and "hex_value (hex_digit d) = d"
    and "hex_digit d \<noteq> CHR ''%''" and "hex_digit d \<noteq> CHR ''=''" and "hex_digit d \<noteq> CHR ''&''"
    and "hex_digit d \<noteq> CHR ''+''"
  using assms
  by (auto simp: hex_digit_def is_hex_digit_def hex_value_def is_ascii_digit_def char_of_eq_iff take_bit_eq_mod)

lemma percent_decode_Cons_other:
  "c \<noteq> CHR ''%'' \<Longrightarrow> percent_decode (c # s) = c # percent_decode s"
proof (cases s)
  case (Cons a t)
  assume "c \<noteq> CHR ''%''"
  then show ?thesis using Cons by (cases t) simp_all
qed simp

lemma form_unreserved_not:
  "form_unreserved c \<Longrightarrow> c \<noteq> CHR ''%'' \<and> c \<noteq> CHR ''+'' \<and> c \<noteq> CHR ''='' \<and> c \<noteq> CHR ''&''"
  by (auto simp: form_unreserved_def is_ascii_alnum_def is_ascii_digit_def is_ascii_alpha_def)

lemma percent_decode_encode_byte:
  "percent_decode (map plus_to_space (form_encode_byte c) @ s) = c # percent_decode s"
proof -
  consider (sp) "c = CHR '' ''" | (un) "c \<noteq> CHR '' ''" "form_unreserved c"
    | (pct) "c \<noteq> CHR '' ''" "\<not> form_unreserved c" by blast
  then show ?thesis
  proof cases
    case sp
    then show ?thesis by (simp add: form_encode_byte_def plus_to_space_def percent_decode_Cons_other)
  next
    case un
    then show ?thesis using form_unreserved_not [of c]
      by (simp add: form_encode_byte_def plus_to_space_def percent_decode_Cons_other)
  next
    case pct
    let ?hi = "hex_digit (of_char c div 16)" and ?lo = "hex_digit (of_char c mod 16)"
    have hi: "of_char c div 16 < (16::nat)" using nat_of_char_less_256 [of c] by presburger
    have lo: "of_char c mod 16 < (16::nat)" by simp
    have "16 * (of_char c div 16) + of_char c mod 16 = (of_char c :: nat)" by simp
    then have "char_of (16 * hex_value ?hi + hex_value ?lo) = c"
      using hex_digit_props(2) [OF hi] hex_digit_props(2) [OF lo] by simp
    moreover have "plus_to_space ?hi = ?hi" "plus_to_space ?lo = ?lo"
      using hex_digit_props(6) [OF hi] hex_digit_props(6) [OF lo] by (simp_all add: plus_to_space_def)
    ultimately show ?thesis using pct hex_digit_props(1) [OF hi] hex_digit_props(1) [OF lo]
      by (simp add: form_encode_byte_def plus_to_space_def)
  qed
qed

lemma form_decode_encode_append:
  "percent_decode (map plus_to_space (form_encode s) @ t) = s @ percent_decode t"
  by (induction s) (simp_all add: form_encode_def percent_decode_encode_byte )

lemma form_decode_encode: "form_decode (form_encode s) = s"
  using form_decode_encode_append [of s "[]"] by (simp add: form_decode_def)

subsection \<open>Parser and serializer round trip, set and get\<close>

lemma form_encode_byte_chars:
  "x \<in> set (form_encode_byte c) \<Longrightarrow> x \<noteq> CHR ''='' \<and> x \<noteq> CHR ''&''"
proof -
  assume x: "x \<in> set (form_encode_byte c)"
  have hi: "of_char c div 16 < (16::nat)" using nat_of_char_less_256 [of c] by presburger
  have lo: "of_char c mod 16 < (16::nat)" by simp
  show ?thesis
    using x form_unreserved_not [of c] hex_digit_props(4,5) [OF hi] hex_digit_props(4,5) [OF lo]
    by (auto simp: form_encode_byte_def split: if_splits)
qed

lemma form_encode_no_sep [simp]:
  "CHR ''='' \<notin> set (form_encode s)" "CHR ''&'' \<notin> set (form_encode s)"
  using form_encode_byte_chars by (fastforce simp: form_encode_def)+

lemma split_on_no_sep: "d \<notin> set s \<Longrightarrow> split_on d s = [s]"
  by (induction s) auto

lemma split_on_append: "d \<notin> set s \<Longrightarrow> split_on d (s @ d # t) = s # split_on d t"
  by (induction s) auto

lemma encode_pair_no_amp: "CHR ''&'' \<notin> set (encode_pair p)"
  by (simp add: encode_pair_def)

lemma split_on_serialize:
  "ps \<noteq> [] \<Longrightarrow> split_on CHR ''&'' (urlencoded_serialize ps) = map encode_pair ps"
  by (induction ps rule: urlencoded_serialize.induct)
     (simp_all add: split_on_no_sep split_on_append encode_pair_no_amp)

lemma takeWhile_sep: "d \<notin> set s \<Longrightarrow> takeWhile (\<lambda>c. c \<noteq> d) (s @ d # t) = s"
  by (induction s) auto

lemma dropWhile_sep: "d \<notin> set s \<Longrightarrow> dropWhile (\<lambda>c. c \<noteq> d) (s @ d # t) = d # t"
  by (induction s) auto

lemma parse_pair_encode_pair: "parse_pair (encode_pair p) = p"
  by (simp add: parse_pair_def encode_pair_def takeWhile_sep dropWhile_sep form_decode_encode)

lemma urlencoded_parse_serialize: "urlencoded_parse (urlencoded_serialize ps) = ps"
proof (cases "ps = []")
  case True
  then show ?thesis by (simp add: urlencoded_parse_def)
next
  case False
  have "filter (\<lambda>b. b \<noteq> []) (map encode_pair ps) = map encode_pair ps"
    by (simp add: encode_pair_def)
  with False show ?thesis
    by (simp add: urlencoded_parse_def split_on_serialize parse_pair_encode_pair comp_def)
qed

lemma map_of_usp_set_first_other:
  "k' \<noteq> k \<Longrightarrow> map_of (usp_set_first k v ps) k' = map_of ps k'"
proof (induction ps)
  case (Cons p ps)
  have "map_of (filter (\<lambda>q. fst q \<noteq> k) qs) k' = map_of qs k'" for qs
    using Cons.prems by (induction qs) auto
  with Cons show ?case by auto
qed simp

lemma map_of_usp_set_first_same:
  "k \<in> set (map fst ps) \<Longrightarrow> map_of (usp_set_first k v ps) k = Some v"
  by (induction ps) auto

lemma usp_get_set_same: "usp_get (usp_set ps k v) k = Some v"
proof (cases "k \<in> set (map fst ps)")
  case True
  then show ?thesis by (simp add: usp_get_def usp_set_def map_of_usp_set_first_same)
next
  case False
  then have "map_of ps k = None" by (simp add: map_of_eq_None_iff)
  with False show ?thesis by (simp add: usp_get_def usp_set_def map_add_def)
qed

lemma usp_get_set_other: "k' \<noteq> k \<Longrightarrow> usp_get (usp_set ps k v) k' = usp_get ps k'"
  by (simp add: usp_get_def usp_set_def map_of_usp_set_first_other map_add_def split: option.split)

lemma urlencoded_serialize_Nil_iff: "urlencoded_serialize ps = [] \<longleftrightarrow> ps = []"
  by (induction ps rule: urlencoded_serialize.induct) (simp_all add: encode_pair_def)

text \<open>The query string of \<^verbatim>\<open>"?" + searchParams.toString()\<close>, read back through
  \<^verbatim>\<open>location.search\<close> (empty for an empty query) and \<^verbatim>\<open>new URLSearchParams\<close>.\<close>

lemma usp_of_string_navigate:
  "usp_of_string (if usp_to_string sp = [] then [] else ''?'' @ usp_to_string sp) = sp"
proof (cases "usp_to_string sp = []")
  case True
  then have "sp = []" by (simp add: usp_to_string_def urlencoded_serialize_Nil_iff)
  with True show ?thesis by (simp add: usp_of_string_def urlencoded_parse_def)
next
  case False
  then show ?thesis
    by (simp add: usp_of_string_def usp_to_string_def urlencoded_parse_serialize)
qed

lemma usp_set_first_count:
  "k \<in> set (map fst ps) \<Longrightarrow> length (filter (\<lambda>q. fst q = k) (usp_set_first k v ps)) = 1"
proof (induction ps)
  case (Cons p ps)
  have "filter (\<lambda>q. fst q = k) (filter (\<lambda>q. fst q \<noteq> k) ps) = []" by (induction ps) auto
  with Cons show ?case by auto
qed simp

text \<open>
  The query string round trip. Serializing search parameters with
  \<^verbatim>\<open>toString\<close>, prefixing \<open>?\<close> and parsing the result with
  \<^verbatim>\<open>new URLSearchParams\<close> gives back the same list of pairs, for all names and values.
\<close>

theorem usp_string_roundtrip: "usp_of_string (''?'' @ usp_to_string ps) = ps"
  by (simp add: usp_of_string_def usp_to_string_def urlencoded_parse_serialize)

text \<open>
  \<^verbatim>\<open>set\<close> then \<^verbatim>\<open>get\<close>. After \<^verbatim>\<open>set(k, v)\<close>, \<^verbatim>\<open>get(k)\<close> is \<open>v\<close>,
  \<^verbatim>\<open>get\<close> of every other name is unchanged, and exactly one pair has the name \<open>k\<close>.
\<close>

theorem usp_set_get:
  "usp_get (usp_set ps k v) k' = (if k' = k then Some v else usp_get ps k') \<and>
   length (filter (\<lambda>q. fst q = k) (usp_set ps k v)) = 1"
proof -
  have "length (filter (\<lambda>q. fst q = k) (usp_set ps k v)) = 1"
  proof (cases "k \<in> set (map fst ps)")
    case True
    then show ?thesis by (simp add: usp_set_def usp_set_first_count)
  next
    case False
    then have "filter (\<lambda>q. fst q = k) ps = []" by (auto simp: filter_empty_conv)
    with False show ?thesis by (simp add: usp_set_def)
  qed
  then show ?thesis by (simp add: usp_get_set_same usp_get_set_other)
qed

end
