(* ===== verification/Xhr.thy ===== *)
theory Xhr
  imports Url_Params
begin

text \<open>
  The request collaborator \<^verbatim>\<open>neo.xhttpreq(url, data, method, callback, json)\<close>
  that \<^verbatim>\<open>edit.js\<close> calls (it is defined in \<^verbatim>\<open>neo.js\<close>, outside \<^verbatim>\<open>src/\<close>, and
  modelled from the spec's contract): it starts an asynchronous request and calls
  \<open>callback\<close> when the request completes. The model keeps the requests issued, in
  order, and the ones still pending; completion is a separate event of the page
  (see \<open>Page\<close>). Payloads are JSON values; the two callbacks the script passes
  are a datatype: \<^verbatim>\<open>()=>null\<close> and \<^verbatim>\<open>()=>window.location = "?" +
  searchParams.toString()\<close>, the latter closing over the search parameters.
\<close>

datatype jval =
    JNull
  | JBool bool
  | JNum int
  | JStr string
  | JObj "(string \<times> jval) list"
  | JUndefined

datatype callback = CbNull | CbNavigate url_params

record request =
  req_url :: "string option"
  req_data :: jval
  req_method :: string
  req_callback :: callback
  req_json :: bool

record net =
  issued :: "request list"
  pending :: "request list"

definition empty_net :: net where
  "empty_net = \<lparr>issued = [], pending = []\<rparr>"

definition mk_request :: "string option \<Rightarrow> jval \<Rightarrow> string \<Rightarrow> callback \<Rightarrow> bool \<Rightarrow> request" where
  "mk_request url data meth cb json =
     \<lparr>req_url = url, req_data = data, req_method = meth, req_callback = cb, req_json = json\<rparr>"

definition add_requests :: "net \<Rightarrow> request list \<Rightarrow> net" where
  "add_requests n rs = n\<lparr>issued := issued n @ rs, pending := pending n @ rs\<rparr>"

definition xhttpreq :: "string option \<Rightarrow> jval \<Rightarrow> string \<Rightarrow> callback \<Rightarrow> bool \<Rightarrow> net \<Rightarrow> net" where
  "xhttpreq url data meth cb json n =
     (let r = mk_request url data meth cb json in add_requests n [r])"

text \<open>Completion of the \<open>i\<close>-th pending request: it leaves the pending list and its
  callback is returned to the caller, which runs it.\<close>

definition complete_request :: "nat \<Rightarrow> net \<Rightarrow> (callback \<times> net) option" where
  "complete_request i n =
     (if i < length (pending n)
      then Some (req_callback (pending n ! i), n\<lparr>pending := take i (pending n) @ drop (Suc i) (pending n)\<rparr>)
      else None)"

lemma add_requests_simps [simp]:
  "issued (add_requests n rs) = issued n @ rs"
  "pending (add_requests n rs) = pending n @ rs"
  "add_requests n [] = n"
  "add_requests (add_requests n rs) rs' = add_requests n (rs @ rs')"
  by (simp_all add: add_requests_def)

lemma xhttpreq_eq: "xhttpreq url data meth cb json n = add_requests n [mk_request url data meth cb json]"
  by (simp add: xhttpreq_def)

lemma mk_request_sel [simp]:
  "req_url (mk_request url data meth cb json) = url"
  "req_data (mk_request url data meth cb json) = data"
  "req_method (mk_request url data meth cb json) = meth"
  "req_callback (mk_request url data meth cb json) = cb"
  "req_json (mk_request url data meth cb json) = json"
  by (simp_all add: mk_request_def)

lemma xhttpreq_issued [simp]:
  "issued (xhttpreq url data meth cb json n) = issued n @ [mk_request url data meth cb json]"
  by (simp add: xhttpreq_eq)

lemma xhttpreq_pending [simp]:
  "pending (xhttpreq url data meth cb json n) = pending n @ [mk_request url data meth cb json]"
  by (simp add: xhttpreq_eq)

lemma complete_request_issued:
  "complete_request i n = Some (cb, n') \<Longrightarrow> issued n' = issued n"
  by (auto simp: complete_request_def split: if_splits)

lemma complete_request_pending_subset:
  "complete_request i n = Some (cb, n') \<Longrightarrow> set (pending n') \<subseteq> set (pending n)"
  by (auto simp: complete_request_def split: if_splits dest: in_set_takeD in_set_dropD)

end
