(* ===== verification/Json.thy ===== *)
theory Json
  imports Xhr
begin

text \<open>
  The JSON body of a request. With \<^verbatim>\<open>json=true\<close>, \<^verbatim>\<open>neo.xhttpreq\<close> sends
  \<^verbatim>\<open>JSON.stringify(data)\<close>; the server decodes it with a JSON parser. This theory
  models \<^verbatim>\<open>JSON.stringify\<close> on the values the script builds (ECMAScript
  \<^verbatim>\<open>SerializeJSONProperty\<close>, \<^verbatim>\<open>QuoteJSONString\<close>: no whitespace, members in
  insertion order, members whose value is \<^verbatim>\<open>undefined\<close> left out, \<^verbatim>\<open>undefined\<close>
  itself not serialized), a decoder for RFC 8259 texts whose numbers are integers,
  and proves that decoding the body gives back the payload.
  Numbers are modelled as integers: the ids and timestamps the script sends are
  integers below \<open>2^53\<close>, which \<^verbatim>\<open>JSON.stringify\<close> prints in decimal.
\<close>

abbreviation dquote :: char where "dquote \<equiv> CHR 0x22"
abbreviation bslash :: char where "bslash \<equiv> CHR 0x5C"

subsection \<open>Serialization\<close>

definition json_hex :: "nat \<Rightarrow> char" where
  "json_hex d = (if d < 10 then char_of (48 + d) else char_of (87 + d))"

text \<open>\<^verbatim>\<open>QuoteJSONString\<close> on one character: the two-character escapes of its table,
  \<^verbatim>\<open>\u00XX\<close> with lower-case hex digits for the other control characters, the
  character itself otherwise.\<close>

definition json_escape_char :: "char \<Rightarrow> string" where
  "json_escape_char c =
     (if c = CHR 0x08 then [bslash, CHR ''b'']
      else if c = CHR 0x09 then [bslash, CHR ''t'']
      else if c = CHR 0x0A then [bslash, CHR ''n'']
      else if c = CHR 0x0C then [bslash, CHR ''f'']
      else if c = CHR 0x0D then [bslash, CHR ''r'']
      else if c = dquote then [bslash, dquote]
      else if c = bslash then [bslash, bslash]
      else if (of_char c::nat) < 32
        then [bslash, CHR ''u'', CHR ''0'', CHR ''0'', json_hex (of_char c div 16), json_hex (of_char c mod 16)]
      else [c])"

definition json_quote :: "string \<Rightarrow> string" where
  "json_quote s = dquote # concat (map json_escape_char s) @ [dquote]"

fun dec_digits :: "nat \<Rightarrow> string" where
  "dec_digits n = (if n < 10 then [char_of (48 + n)] else dec_digits (n div 10) @ [char_of (48 + n mod 10)])"

definition json_int :: "int \<Rightarrow> string" where
  "json_int i = (if i < 0 then CHR ''-'' # dec_digits (nat (- i)) else dec_digits (nat i))"

fun comma_join :: "string list \<Rightarrow> string" where
  "comma_join [] = []"
| "comma_join [x] = x"
| "comma_join (x # xs) = x @ CHR '','' # comma_join xs"

fun json_stringify :: "jval \<Rightarrow> string option"
and json_members :: "(string \<times> jval) list \<Rightarrow> string list" where
  "json_stringify JNull = Some ''null''"
| "json_stringify (JBool b) = Some (if b then ''true'' else ''false'')"
| "json_stringify (JNum i) = Some (json_int i)"
| "json_stringify (JStr s) = Some (json_quote s)"
| "json_stringify (JObj kvs) = Some (CHR ''{'' # comma_join (json_members kvs) @ ''}'')"
| "json_stringify JUndefined = None"
| "json_members [] = []"
| "json_members (kv # kvs) =
     (case json_stringify (snd kv) of None \<Rightarrow> json_members kvs
      | Some s \<Rightarrow> (json_quote (fst kv) @ CHR '':'' # s) # json_members kvs)"

subsection \<open>Decoding\<close>

text \<open>A JSON decoder (RFC 8259) for texts whose numbers are integers. Escapes
  \<^verbatim>\<open>\uXXXX\<close> are decoded for code points below 128, the range of one byte of
  the string model; others, and numbers with a fraction or an exponent, are outside
  the model and rejected. Objects keep their members in order.\<close>

definition is_json_ws :: "char \<Rightarrow> bool" where
  "is_json_ws c \<longleftrightarrow> c = CHR 0x20 \<or> c = CHR 0x09 \<or> c = CHR 0x0A \<or> c = CHR 0x0D"

definition skip_ws :: "string \<Rightarrow> string" where
  "skip_ws s = dropWhile is_json_ws s"

definition json_hex_value :: "char \<Rightarrow> nat option" where
  "json_hex_value c =
     (let n = (of_char c::nat) in
      if 48 \<le> n \<and> n \<le> 57 then Some (n - 48)
      else if 97 \<le> n \<and> n \<le> 102 then Some (n - 87)
      else if 65 \<le> n \<and> n \<le> 70 then Some (n - 55)
      else None)"

definition unescape_char :: "char \<Rightarrow> char option" where
  "unescape_char e =
     (if e = CHR ''b'' then Some (CHR 0x08)
      else if e = CHR ''t'' then Some (CHR 0x09)
      else if e = CHR ''n'' then Some (CHR 0x0A)
      else if e = CHR ''f'' then Some (CHR 0x0C)
      else if e = CHR ''r'' then Some (CHR 0x0D)
      else if e = dquote then Some dquote
      else if e = bslash then Some bslash
      else if e = CHR ''/'' then Some (CHR ''/'')
      else None)"

definition hex4_value :: "char \<Rightarrow> char \<Rightarrow> char \<Rightarrow> char \<Rightarrow> nat option" where
  "hex4_value a b c d =
     (case (json_hex_value a, json_hex_value b, json_hex_value c, json_hex_value d) of
        (Some w, Some x, Some y, Some z) \<Rightarrow> Some (((w * 16 + x) * 16 + y) * 16 + z)
      | _ \<Rightarrow> None)"

definition cons_fst :: "char \<Rightarrow> (string \<times> string) option \<Rightarrow> (string \<times> string) option" where
  "cons_fst c r = map_option (\<lambda>(s, rest). (c # s, rest)) r"

text \<open>The body of a string literal, after its opening quote: the decoded text and the
  input after the closing quote.\<close>

fun parse_str :: "string \<Rightarrow> (string \<times> string) option"
and parse_esc :: "string \<Rightarrow> (string \<times> string) option"
and parse_uesc :: "string \<Rightarrow> (string \<times> string) option" where
  "parse_str [] = None"
| "parse_str (c # cs) =
     (if c = dquote then Some ([], cs)
      else if c = bslash then parse_esc cs
      else if (of_char c::nat) < 32 then None
      else cons_fst c (parse_str cs))"
| "parse_esc [] = None"
| "parse_esc (e # cs) =
     (if e = CHR ''u'' then parse_uesc cs
      else case unescape_char e of None \<Rightarrow> None | Some c \<Rightarrow> cons_fst c (parse_str cs))"
| "parse_uesc (a # b # c # d # cs) =
     (case hex4_value a b c d of
        Some v \<Rightarrow> if v < 128 then cons_fst (char_of v) (parse_str cs) else None
      | None \<Rightarrow> None)"
| "parse_uesc _ = None"

definition dec_value :: "string \<Rightarrow> nat" where
  "dec_value ds = foldl (\<lambda>n c. 10 * n + (of_char c - 48)) 0 ds"

definition parse_int :: "string \<Rightarrow> (int \<times> string) option" where
  "parse_int s =
     (let neg = (s \<noteq> [] \<and> hd s = CHR ''-'');
          s1 = (if neg then tl s else s);
          ds = takeWhile is_ascii_digit s1;
          rest = dropWhile is_ascii_digit s1
      in if ds = [] \<or> (hd ds = CHR ''0'' \<and> 1 < length ds) then None
         else if rest \<noteq> [] \<and> hd rest \<in> {CHR ''.'', CHR ''e'', CHR ''E''} then None
         else Some ((if neg then - int (dec_value ds) else int (dec_value ds)), rest))"

text \<open>Values and objects, with fuel: every nested value and every further member
  spends one unit; \<open>json_parse\<close> gives a text one unit per character, which is
  enough (each unit consumes at least one character).\<close>

fun parse_value :: "nat \<Rightarrow> string \<Rightarrow> (jval \<times> string) option"
and parse_member_list :: "nat \<Rightarrow> string \<Rightarrow> ((string \<times> jval) list \<times> string) option" where
  "parse_value 0 s = None"
| "parse_value (Suc n) s =
     (case skip_ws s of
        [] \<Rightarrow> None
      | c # r \<Rightarrow>
          if c = CHR ''{'' then
            (if skip_ws r \<noteq> [] \<and> hd (skip_ws r) = CHR ''}'' then Some (JObj [], tl (skip_ws r))
             else map_option (\<lambda>(kvs, r'). (JObj kvs, r')) (parse_member_list n r))
          else if c = dquote then map_option (\<lambda>(x, r'). (JStr x, r')) (parse_str r)
          else if take 4 (c # r) = ''null'' then Some (JNull, drop 4 (c # r))
          else if take 4 (c # r) = ''true'' then Some (JBool True, drop 4 (c # r))
          else if take 5 (c # r) = ''false'' then Some (JBool False, drop 5 (c # r))
          else map_option (\<lambda>(i, r'). (JNum i, r')) (parse_int (c # r)))"
| "parse_member_list 0 s = None"
| "parse_member_list (Suc n) s =
     (case skip_ws s of
        c # r \<Rightarrow>
          if c \<noteq> dquote then None
          else (case parse_str r of
                  None \<Rightarrow> None
                | Some (k, r1) \<Rightarrow>
                    (case skip_ws r1 of
                       c1 # r2 \<Rightarrow>
                         if c1 \<noteq> CHR '':'' then None
                         else (case parse_value n r2 of
                                 None \<Rightarrow> None
                               | Some (v, r3) \<Rightarrow>
                                   (case skip_ws r3 of
                                      c3 # r4 \<Rightarrow>
                                        if c3 = CHR ''}'' then Some ([(k, v)], r4)
                                        else if c3 = CHR '','' then
                                          map_option (\<lambda>(kvs, r5). ((k, v) # kvs, r5)) (parse_member_list n r4)
                                        else None
                                    | [] \<Rightarrow> None))
                     | [] \<Rightarrow> None))
      | [] \<Rightarrow> None)"

definition json_parse :: "string \<Rightarrow> jval option" where
  "json_parse s =
     (case parse_value (length s) s of
        Some (v, rest) \<Rightarrow> if skip_ws rest = [] then Some v else None
      | None \<Rightarrow> None)"

text \<open>What \<^verbatim>\<open>JSON.stringify\<close> keeps of a value: object members whose value is
  \<^verbatim>\<open>undefined\<close> are dropped, at every depth.\<close>

fun drop_undef :: "jval \<Rightarrow> jval"
and drop_undef_members :: "(string \<times> jval) list \<Rightarrow> (string \<times> jval) list" where
  "drop_undef (JObj kvs) = JObj (drop_undef_members kvs)"
| "drop_undef v = v"
| "drop_undef_members [] = []"
| "drop_undef_members (kv # kvs) =
     (if snd kv = JUndefined then drop_undef_members kvs
      else (fst kv, drop_undef (snd kv)) # drop_undef_members kvs)"

text \<open>The fuel a value needs, and the inputs after which a number literal ends.\<close>

fun need_value :: "jval \<Rightarrow> nat"
and need_members :: "(string \<times> jval) list \<Rightarrow> nat" where
  "need_value (JObj kvs) = Suc (need_members kvs)"
| "need_value _ = 1"
| "need_members [] = 0"
| "need_members (kv # kvs) =
     (if snd kv = JUndefined then need_members kvs else Suc (max (need_value (snd kv)) (need_members kvs)))"

definition json_stop :: "string \<Rightarrow> bool" where
  "json_stop rest \<longleftrightarrow> rest = [] \<or> (\<not> is_ascii_digit (hd rest) \<and> hd rest \<notin> {CHR ''.'', CHR ''e'', CHR ''E''})"

subsection \<open>Numbers\<close>

lemma of_char_digit [simp]: "d < 10 \<Longrightarrow> (of_char (char_of (48 + d)) :: nat) = 48 + d"
  by simp

declare dec_digits.simps [simp del]

lemma dec_digits_digits: "list_all is_ascii_digit (dec_digits n)"
  unfolding is_ascii_digit_def by (induction n rule: dec_digits.induct) (subst dec_digits.simps, auto simp: is_ascii_digit_def)

lemma dec_digits_ne [simp]: "dec_digits n \<noteq> []"
  by (subst dec_digits.simps) simp

lemma dec_value_snoc: "dec_value (xs @ [c]) = 10 * dec_value xs + (of_char c - 48)"
  by (simp add: dec_value_def)

lemma dec_value_dec_digits: "dec_value (dec_digits n) = n"
proof (induction n rule: dec_digits.induct)
  case (1 n)
  show ?case
  proof (cases "n < 10")
    case True
    then show ?thesis by (simp add: dec_digits.simps dec_value_def)
  next
    case False
    then have "dec_value (dec_digits n) = 10 * (n div 10) + n mod 10"
      using "1" by (simp add: dec_digits.simps [of n] dec_value_snoc)
    then show ?thesis by simp
  qed
qed

lemma dec_digits_no_leading_zero:
  "hd (dec_digits n) = CHR ''0'' \<Longrightarrow> length (dec_digits n) = 1"
proof (induction n rule: dec_digits.induct)
  case (1 n)
  show ?case
  proof (cases "n < 10")
    case True
    then show ?thesis by (simp add: dec_digits.simps)
  next
    case False
    then have "hd (dec_digits (n div 10)) = CHR ''0''"
      using "1.prems" by (simp add: dec_digits.simps [of n])
    then have "length (dec_digits (n div 10)) = 1" using "1.IH" False by blast
    then have "dec_digits (n div 10) = [CHR ''0'']"
      using \<open>hd (dec_digits (n div 10)) = CHR ''0''\<close> by (cases "dec_digits (n div 10)") auto
    then have "dec_value (dec_digits (n div 10)) = 0" by (simp add: dec_value_def)
    with False show ?thesis by (simp add: dec_value_dec_digits)
  qed
qed

lemma takeWhile_digits:
  "list_all P xs \<Longrightarrow> (rest = [] \<or> \<not> P (hd rest)) \<Longrightarrow> takeWhile P (xs @ rest) = xs"
proof (induction xs)
  case Nil
  then show ?case by (cases rest) auto
qed simp

lemma dropWhile_digits:
  "list_all P xs \<Longrightarrow> (rest = [] \<or> \<not> P (hd rest)) \<Longrightarrow> dropWhile P (xs @ rest) = rest"
proof (induction xs)
  case Nil
  then show ?case by (cases rest) auto
qed simp

lemma parse_int_json_int:
  assumes "json_stop rest"
  shows "parse_int (json_int i @ rest) = Some (i, rest)"
proof -
  let ?ds = "dec_digits (nat \<bar>i\<bar>)"
  have stop: "rest = [] \<or> \<not> is_ascii_digit (hd rest)" using assms by (auto simp: json_stop_def)
  have tw: "takeWhile is_ascii_digit (?ds @ rest) = ?ds"
    by (rule takeWhile_digits [OF dec_digits_digits stop])
  have dw: "dropWhile is_ascii_digit (?ds @ rest) = rest"
    by (rule dropWhile_digits [OF dec_digits_digits stop])
  have lz: "\<not> (hd ?ds = CHR ''0'' \<and> 1 < length ?ds)" using dec_digits_no_leading_zero by fastforce
  have hd_ds: "hd ?ds \<noteq> CHR ''-''"
    using dec_digits_digits [of "nat \<bar>i\<bar>"] by (cases ?ds) (auto simp: is_ascii_digit_def)
  have "rest = [] \<or> hd rest \<notin> {CHR ''.'', CHR ''e'', CHR ''E''}" using assms by (auto simp: json_stop_def)
  then show ?thesis
    using tw dw lz hd_ds
    by (cases "i < 0") (auto simp: parse_int_def json_int_def Let_def dec_value_dec_digits)
qed

subsection \<open>Strings\<close>

lemma json_hex_value_hex: "d < 16 \<Longrightarrow> json_hex_value (json_hex d) = Some d"
  by (auto simp: json_hex_value_def json_hex_def Let_def)

lemma cons_fst_Some [simp]: "cons_fst c (Some (s, r)) = Some (c # s, r)"
  by (simp add: cons_fst_def)

lemma hex4_control:
  assumes "(of_char c::nat) < 32"
  shows "hex4_value (CHR ''0'') (CHR ''0'') (json_hex (of_char c div 16)) (json_hex (of_char c mod 16)) =
           Some (of_char c)"
proof -
  have "json_hex_value (CHR ''0'') = Some 0" by (simp add: json_hex_value_def)
  moreover have "(of_char c::nat) div 16 < 16" using assms by simp
  ultimately show ?thesis by (simp add: hex4_value_def json_hex_value_hex)
qed

lemma parse_str_escape_char: "parse_str (json_escape_char c @ X) = cons_fst c (parse_str X)"
  by (auto simp: json_escape_char_def unescape_char_def hex4_control)

lemma parse_str_quote_body: "parse_str (concat (map json_escape_char s) @ dquote # rest) = Some (s, rest)"
  by (induction s) (simp_all add: parse_str_escape_char)

subsection \<open>Values\<close>

lemma skip_ws_Cons [simp]: "\<not> is_json_ws c \<Longrightarrow> skip_ws (c # r) = c # r"
  by (simp add: skip_ws_def)

lemma json_stringify_None_iff: "json_stringify v = None \<longleftrightarrow> v = JUndefined"
  by (cases v) simp_all

lemma json_members_Nil_iff: "json_members kvs = [] \<longleftrightarrow> drop_undef_members kvs = []"
  by (induction kvs) (auto simp: json_stringify_None_iff split: option.split)

lemma comma_join_Cons: "xs \<noteq> [] \<Longrightarrow> comma_join (x # xs) = x @ CHR '','' # comma_join xs"
  by (cases xs) simp_all

lemma json_members_dquote: "json_members kvs \<noteq> [] \<Longrightarrow> \<exists>t. comma_join (json_members kvs) = dquote # t"
proof (induction kvs)
  case (Cons kv kvs)
  then show ?case
    by (cases "json_stringify (snd kv)"; cases "json_members kvs = []")
       (auto simp: json_quote_def comma_join_Cons)
qed simp

lemma json_int_Cons: "\<exists>c r. json_int i = c # r \<and> (c = CHR ''-'' \<or> is_ascii_digit c)"
proof -
  obtain c r where "dec_digits (nat \<bar>i\<bar>) = c # r" by (cases "dec_digits (nat \<bar>i\<bar>)") auto
  moreover have "list_all is_ascii_digit (dec_digits (nat \<bar>i\<bar>))" by (rule dec_digits_digits)
  ultimately show ?thesis by (auto simp: json_int_def)
qed

lemma parse_value_other:
  assumes "\<not> is_json_ws c" "c \<noteq> CHR ''{''" "c \<noteq> dquote" "c \<noteq> CHR ''n''" "c \<noteq> CHR ''t''" "c \<noteq> CHR ''f''"
  shows "parse_value (Suc n) (c # r) = map_option (\<lambda>(i, r'). (JNum i, r')) (parse_int (c # r))"
  using assms by simp

lemma parse_value_num:
  assumes "json_stop rest"
  shows "parse_value (Suc n) (json_int i @ rest) = Some (JNum i, rest)"
proof -
  obtain c r where cr: "json_int i = c # r" "c = CHR ''-'' \<or> is_ascii_digit c"
    using json_int_Cons by blast
  have c: "\<not> is_json_ws c" "c \<noteq> CHR ''{''" "c \<noteq> dquote" "c \<noteq> CHR ''n''" "c \<noteq> CHR ''t''" "c \<noteq> CHR ''f''"
    using cr(2) by (auto simp: is_json_ws_def is_ascii_digit_def)
  have p: "parse_int (c # r @ rest) = Some (i, rest)" using parse_int_json_int [OF assms, of i] cr(1) by simp
  show ?thesis using parse_value_other [OF c, of n "r @ rest"] p cr(1) by simp
qed

lemma parse_value_str: "parse_value (Suc n) (json_quote s @ rest) = Some (JStr s, rest)"
  by (simp add: json_quote_def is_json_ws_def parse_str_quote_body)

lemma parse_value_obj:
  assumes members: "json_members kvs \<noteq> [] \<Longrightarrow> need_members kvs \<le> n \<Longrightarrow>
      parse_member_list n (comma_join (json_members kvs) @ CHR ''}'' # rest) = Some (drop_undef_members kvs, rest)"
    and fuel: "need_members kvs \<le> n"
  shows "parse_value (Suc n) ((CHR ''{'' # comma_join (json_members kvs) @ ''}'') @ rest) =
           Some (drop_undef (JObj kvs), rest)"
proof (cases "json_members kvs = []")
  case True
  moreover have "drop_undef_members kvs = []" using True by (simp add: json_members_Nil_iff)
  ultimately show ?thesis by (simp add: is_json_ws_def)
next
  case False
  then obtain t where t: "comma_join (json_members kvs) = dquote # t" using json_members_dquote by blast
  show ?thesis using members [OF False fuel] t by (simp add: is_json_ws_def)
qed

lemma parse_member_cons:
  assumes val: "\<And>s n rest. json_stringify (snd kv) = Some s \<Longrightarrow> json_stop rest \<Longrightarrow> need_value (snd kv) \<le> n \<Longrightarrow>
      parse_value n (s @ rest) = Some (drop_undef (snd kv), rest)"
    and members: "\<And>n rest. json_members kvs \<noteq> [] \<Longrightarrow> need_members kvs \<le> n \<Longrightarrow>
      parse_member_list n (comma_join (json_members kvs) @ CHR ''}'' # rest) = Some (drop_undef_members kvs, rest)"
    and sv: "json_stringify (snd kv) = Some sv"
    and fuel: "need_members (kv # kvs) \<le> Suc n"
  shows "parse_member_list (Suc n) (comma_join (json_members (kv # kvs)) @ CHR ''}'' # rest) =
           Some (drop_undef_members (kv # kvs), rest)"
proof -
  have def: "snd kv \<noteq> JUndefined" using sv by auto
  have fv: "need_value (snd kv) \<le> n" and fm: "need_members kvs \<le> n" using fuel def by simp_all
  have key: "parse_str (concat (map json_escape_char (fst kv)) @ dquote # X) = Some (fst kv, X)" for X
    by (rule parse_str_quote_body)
  show ?thesis
  proof (cases "json_members kvs = []")
    case True
    have "parse_value n (sv @ CHR ''}'' # rest) = Some (drop_undef (snd kv), CHR ''}'' # rest)"
      by (rule val [OF sv _ fv]) (simp add: json_stop_def is_ascii_digit_def)
    moreover have "drop_undef_members kvs = []" using True by (simp add: json_members_Nil_iff)
    ultimately show ?thesis using True sv def key
      by (simp add: json_quote_def is_json_ws_def)
  next
    case False
    have "parse_value n (sv @ CHR '','' # comma_join (json_members kvs) @ CHR ''}'' # rest) =
            Some (drop_undef (snd kv), CHR '','' # comma_join (json_members kvs) @ CHR ''}'' # rest)"
      by (rule val [OF sv _ fv]) (simp add: json_stop_def is_ascii_digit_def)
    then show ?thesis using False sv def key members [OF False fm]
      by (simp add: json_quote_def is_json_ws_def comma_join_Cons)
  qed
qed

lemma fuel_Suc: "Suc 0 \<le> n \<Longrightarrow> \<exists>m. n = Suc m"
  by (cases n) simp_all

lemma parse_roundtrip:
  shows "\<And>s n rest. json_stringify v = Some s \<Longrightarrow> json_stop rest \<Longrightarrow> need_value v \<le> n \<Longrightarrow>
           parse_value n (s @ rest) = Some (drop_undef v, rest)"
    and "\<And>n rest. json_members kvs \<noteq> [] \<Longrightarrow> need_members kvs \<le> n \<Longrightarrow>
           parse_member_list n (comma_join (json_members kvs) @ CHR ''}'' # rest) = Some (drop_undef_members kvs, rest)"
proof (induction v and kvs rule: json_stringify_json_members.induct)
  case (4 str)
  then obtain m where "n = Suc m" using fuel_Suc by fastforce
  with 4 show ?case using parse_value_str [of m str rest] by (simp del: parse_value.simps)
next
  case (3 i)
  then obtain m where "n = Suc m" using fuel_Suc by fastforce
  with 3 show ?case using parse_value_num [of rest m i] by (simp del: parse_value.simps)
next
  case (5 kvs)
  then obtain m where m: "n = Suc m" "need_members kvs \<le> m" by (cases n) auto
  with 5 show ?case using parse_value_obj [of kvs m rest] by simp
next
  case (8 kv kvs)
  show ?case
  proof (cases "json_stringify (snd kv)")
    case None
    then show ?thesis using 8 by (simp add: json_stringify_None_iff)
  next
    case (Some sv)
    then have "snd kv \<noteq> JUndefined" by auto
    then obtain m where "n = Suc m" using "8.prems" by (cases n) auto
    then show ?thesis using parse_member_cons [OF "8.IH"(1) "8.IH"(3) [OF Some] Some] Some "8.prems" by simp
  qed
qed (auto simp: is_json_ws_def dest!: fuel_Suc)

lemma length_comma_join_Cons:
  "length (comma_join (x # xs)) = length x + (if xs = [] then 0 else Suc (length (comma_join xs)))"
  by (cases xs) simp_all

lemma need_le_length:
  shows "\<And>s. json_stringify v = Some s \<Longrightarrow> need_value v \<le> length s"
    and "need_members kvs \<le> length (comma_join (json_members kvs))"
proof (induction v and kvs rule: json_stringify_json_members.induct)
  case (8 kv kvs)
  then show ?case
    by (cases "json_stringify (snd kv)")
       (auto simp: json_stringify_None_iff length_comma_join_Cons json_quote_def)
qed (auto simp: json_int_def json_quote_def Suc_le_eq)

lemma json_parse_stringify: "json_stringify v = Some s \<Longrightarrow> json_parse s = Some (drop_undef v)"
  using parse_roundtrip(1) [where v = v and s = s and n = "length s" and rest = "[]"] need_le_length(1) [of v s]
  by (simp add: json_parse_def json_stop_def skip_ws_def)

lemma stringify_drop_undef:
  shows "v \<noteq> JUndefined \<Longrightarrow> json_stringify (drop_undef v) = json_stringify v"
    and "json_members (drop_undef_members kvs) = json_members kvs"
proof (induction v and kvs rule: json_stringify_json_members.induct)
  case (8 kv kvs)
  then show ?case
    by (cases "json_stringify (snd kv)") (auto simp: json_stringify_None_iff)
qed simp_all

lemma json_hex_printable: "d < 16 \<Longrightarrow> 48 \<le> (of_char (json_hex d) :: nat)"
  by (simp add: json_hex_def)

lemma json_escape_char_printable: "list_all (\<lambda>c. 32 \<le> (of_char c::nat)) (json_escape_char c)"
proof -
  have "(of_char c::nat) div 16 < 16" using nat_of_char_less_256 [of c] by presburger
  then show ?thesis
    by (auto simp: json_escape_char_def json_hex_printable intro: order.trans [OF _ json_hex_printable])
qed

lemma json_quote_printable: "list_all (\<lambda>c. 32 \<le> (of_char c::nat)) (json_quote s)"
  using json_escape_char_printable by (simp add: json_quote_def list_all_iff)

lemma json_int_printable: "list_all (\<lambda>c. 32 \<le> (of_char c::nat)) (json_int i)"
  using dec_digits_digits [of "nat (- i)"] dec_digits_digits [of "nat i"]
  by (fastforce simp: json_int_def list_all_iff is_ascii_digit_def)

lemma json_body_printable:
  shows "json_stringify v = Some s \<Longrightarrow> list_all (\<lambda>c. 32 \<le> (of_char c::nat)) s"
    and "list_all (\<lambda>c. 32 \<le> (of_char c::nat)) (comma_join (json_members kvs))"
proof (induction v and kvs arbitrary: s and rule: json_stringify_json_members.induct)
  case (8 kv kvs)
  then show ?case
    by (cases "json_stringify (snd kv)"; cases "json_members kvs = []")
       (auto simp: comma_join_Cons json_quote_printable)
qed (auto simp: json_quote_printable json_int_printable)

text \<open>
  The JSON body round trip. Whenever \<^verbatim>\<open>JSON.stringify\<close> produces a text for a
  payload, decoding that text gives the payload without its \<^verbatim>\<open>undefined\<close>
  members, and that value serializes to the same text: the body is a faithful and
  canonical encoding of what the script passed to \<^verbatim>\<open>neo.xhttpreq\<close>.
\<close>

theorem json_body_roundtrip:
  assumes "json_stringify v = Some s"
  shows "json_parse s = Some (drop_undef v) \<and> json_stringify (drop_undef v) = Some s"
proof -
  have "v \<noteq> JUndefined" using assms by auto
  then show ?thesis using assms by (simp add: json_parse_stringify stringify_drop_undef(1))
qed

end
