(* ===== verification/Json_Fuel.thy ===== *)
theory Json_Fuel
  imports Json
begin

text \<open>
  The decoder's fuel. Every call of \<open>parse_value\<close> and \<open>parse_member_list\<close>
  consumes at least one character (\<open>parse_shorter\<close>), so one more unit of fuel
  than the length of the text never changes the result (\<open>fuel_step\<close>), and the
  fuel \<open>json_parse\<close> gives is enough for every text.
\<close>

lemma length_skip_ws: "length (skip_ws s) \<le> length s"
  by (simp add: skip_ws_def length_dropWhile_le)

lemma cons_fst_SomeD: "cons_fst c p = Some (x, r) \<Longrightarrow> \<exists>x'. p = Some (x', r)"
  by (auto simp: cons_fst_def)

lemma parse_str_shorter:
  shows "\<And>x r. parse_str s = Some (x, r) \<Longrightarrow> length r < length s"
    and "\<And>x r. parse_esc s = Some (x, r) \<Longrightarrow> length r < length s"
    and "\<And>x r. parse_uesc s = Some (x, r) \<Longrightarrow> length r < length s"
proof (induction s and s and s rule: parse_str_parse_esc_parse_uesc.induct)
  case (2 c cs)
  then show ?case
    by (auto split: if_splits dest!: cons_fst_SomeD intro: less_SucI)
next
  case (4 e cs)
  then show ?case
    by (auto split: if_splits option.splits dest!: cons_fst_SomeD intro: less_SucI)
next
  case (5 a b c d cs)
  then show ?case
    by (fastforce split: if_splits option.splits dest!: cons_fst_SomeD)
qed simp_all

lemma dropWhile_shorter: "takeWhile P xs \<noteq> [] \<Longrightarrow> length (dropWhile P xs) < length xs"
  by (cases xs) (auto simp: length_dropWhile_le le_imp_less_Suc split: if_splits)

lemma parse_int_shorter: "parse_int s = Some (i, r) \<Longrightarrow> length r < length s"
proof (cases "s \<noteq> [] \<and> hd s = CHR ''-''")
  case True
  assume "parse_int s = Some (i, r)"
  with True have "takeWhile is_ascii_digit (tl s) \<noteq> []" "r = dropWhile is_ascii_digit (tl s)"
    by (auto simp: parse_int_def Let_def split: if_splits)
  then show ?thesis using dropWhile_shorter [of is_ascii_digit "tl s"] True by simp
next
  case False
  assume "parse_int s = Some (i, r)"
  with False have "takeWhile is_ascii_digit s \<noteq> []" "r = dropWhile is_ascii_digit s"
    by (auto simp: parse_int_def Let_def split: if_splits)
  then show ?thesis using dropWhile_shorter [of is_ascii_digit s] by simp
qed

lemma take_eq_length: "take k xs = ys \<Longrightarrow> length ys = k \<Longrightarrow> k \<le> length xs"
  by auto

lemma parse_value_shorter_step:
  assumes members: "\<And>s kvs r. parse_member_list n s = Some (kvs, r) \<Longrightarrow> length r < length s"
    and a: "parse_value (Suc n) s = Some (v, r)"
  shows "length r < length s"
proof -
  obtain c t where st: "skip_ws s = c # t" using a by (cases "skip_ws s") auto
  have "length (c # t) \<le> length s" using length_skip_ws [of s] st by simp
  moreover have "length r < length (c # t)"
    using a st members [of t] parse_str_shorter(1) [of t] parse_int_shorter [of "c # t"] length_skip_ws [of t]
    by (auto split: if_splits dest: take_eq_length)
  ultimately show ?thesis by simp
qed

lemma skip_ws_Cons_shorter: "skip_ws s = c # t \<Longrightarrow> length t < length s"
  using length_skip_ws [of s] by simp

lemma parse_member_shorter_step:
  assumes val: "\<And>s v r. parse_value n s = Some (v, r) \<Longrightarrow> length r < length s"
    and members: "\<And>s kvs r. parse_member_list n s = Some (kvs, r) \<Longrightarrow> length r < length s"
    and a: "parse_member_list (Suc n) s = Some (kvs, r)"
  shows "length r < length s"
proof -
  obtain t where st: "skip_ws s = dquote # t" using a by (cases "skip_ws s") (auto split: if_splits)
  obtain k r1 where k: "parse_str t = Some (k, r1)" using a st by (cases "parse_str t") auto
  obtain r2 where r2: "skip_ws r1 = CHR '':'' # r2"
    using a st k by (cases "skip_ws r1") (auto split: if_splits)
  obtain v r3 where v: "parse_value n r2 = Some (v, r3)"
    using a st k r2 by (cases "parse_value n r2") auto
  obtain c3 r4 where r4: "skip_ws r3 = c3 # r4"
    using a st k r2 v by (cases "skip_ws r3") auto
  have "length r4 < length s"
    using skip_ws_Cons_shorter [OF st] parse_str_shorter(1) [OF k] skip_ws_Cons_shorter [OF r2]
      val [OF v] skip_ws_Cons_shorter [OF r4] by simp
  moreover have "r = r4 \<or> (\<exists>kvs'. parse_member_list n r4 = Some (kvs', r))"
    using a st k r2 v r4 by (auto split: if_splits)
  ultimately show ?thesis using members by (metis order.strict_trans)
qed

lemma parse_shorter:
  "(\<forall>s v r. parse_value n s = Some (v, r) \<longrightarrow> length r < length s) \<and>
   (\<forall>s kvs r. parse_member_list n s = Some (kvs, r) \<longrightarrow> length r < length s)"
proof (induction n)
  case (Suc n)
  then show ?case
    using parse_value_shorter_step [of n] parse_member_shorter_step [of n] by blast
qed simp

lemma value_fuel_step:
  assumes members: "\<And>x. length x \<le> n \<Longrightarrow> parse_member_list (Suc n) x = parse_member_list n x"
    and len: "length s \<le> Suc n"
  shows "parse_value (Suc (Suc n)) s = parse_value (Suc n) s"
proof (cases "skip_ws s")
  case (Cons c t)
  then have "parse_member_list (Suc n) t = parse_member_list n t"
    using members skip_ws_Cons_shorter [OF Cons] len by simp
  with Cons show ?thesis
    unfolding parse_value.simps(2) [of "Suc n" s] parse_value.simps(2) [of n s]
    by (simp del: parse_member_list.simps)
qed simp

lemma members_fuel_step:
  assumes val: "\<And>x. length x \<le> n \<Longrightarrow> parse_value (Suc n) x = parse_value n x"
    and members: "\<And>x. length x \<le> n \<Longrightarrow> parse_member_list (Suc n) x = parse_member_list n x"
    and len: "length s \<le> Suc n"
  shows "parse_member_list (Suc (Suc n)) s = parse_member_list (Suc n) s"
proof -
  have shorter: "parse_value n x = Some (v, r) \<Longrightarrow> length r < length x" for x v r
    using parse_shorter [of n] by blast
  note simps = parse_member_list.simps(2) [of "Suc n" s] parse_member_list.simps(2) [of n s]
  show ?thesis
  proof (cases "skip_ws s")
    case (Cons c t)
    note st = Cons
    show ?thesis
    proof (cases "c = dquote")
      case False
      then show ?thesis using st by (simp add: simps del: parse_member_list.simps)
    next
      case True
      show ?thesis
      proof (cases "parse_str t")
        case None
        then show ?thesis using st True by (simp add: simps del: parse_member_list.simps)
      next
        case (Some kr)
        then obtain k r1 where k: "parse_str t = Some (k, r1)" by (cases kr) auto
        show ?thesis
        proof (cases "skip_ws r1")
          case (Cons c1 r2)
          have l2: "length r2 \<le> n"
            using skip_ws_Cons_shorter [OF st] parse_str_shorter(1) [OF k] skip_ws_Cons_shorter [OF Cons] len
            by simp
          have "\<And>v r3 c3 r4. parse_value n r2 = Some (v, r3) \<Longrightarrow> skip_ws r3 = c3 # r4 \<Longrightarrow>
                  parse_member_list (Suc n) r4 = parse_member_list n r4"
            using l2 shorter skip_ws_Cons_shorter members by (metis less_imp_le_nat order.strict_trans2)
          then show ?thesis using st True k Cons val [OF l2] unfolding simps
            by (auto simp del: parse_member_list.simps parse_value.simps split: option.split list.split)
        qed (use st True k in \<open>simp add: simps del: parse_member_list.simps\<close>)
      qed
    qed
  qed (simp add: simps)
qed

lemma fuel_step:
  "(\<forall>s. length s \<le> n \<longrightarrow> parse_value (Suc n) s = parse_value n s) \<and>
   (\<forall>s. length s \<le> n \<longrightarrow> parse_member_list (Suc n) s = parse_member_list n s)"
proof (induction n)
  case 0
  then show ?case by (simp add: skip_ws_def)
next
  case (Suc n)
  then show ?case using value_fuel_step [of n] members_fuel_step [of n] by blast
qed

text \<open>
  The decoder's fuel is always enough. Any fuel at least the length of the text
  gives the result that \<open>json_parse\<close> computes with fuel equal to the length: no
  text is rejected for want of fuel, and \<open>json_parse\<close> is the decoder with
  unbounded fuel.
\<close>

theorem json_parse_fuel_adequate:
  assumes "length s \<le> n"
  shows "parse_value n s = parse_value (length s) s"
  using assms
proof (induction n)
  case (Suc n)
  show ?case
  proof (cases "length s = Suc n")
    case False
    with Suc.prems have "length s \<le> n" by simp
    with Suc.IH fuel_step [of n] show ?thesis by simp
  qed simp
qed simp

end
