(* ===== verification/Html_Text.thy ===== *)
theory Html_Text
  imports Prelude
begin

text \<open>
  The text of the name field as the page script sees it. \<^verbatim>\<open>edit.js\<close> never reads
  or writes the field's text directly: it reads \<^verbatim>\<open>namefield.innerHTML\<close> (the HTML
  serialization of the field's children) and assigns \<^verbatim>\<open>namefield.innerHTML = s\<close>
  (which parses \<open>s\<close> as HTML). For a field that holds one text node (what a
  \<^verbatim>\<open>plaintext-only\<close> editing host produces) the getter is the serializer's
  "escaping a string" step in text mode, \<open>html_escape\<close>, and the setter
  decodes character references, \<open>html_unescape\<close>. Both are library code of the
  browser, modelled from the HTML standard; the setter is exact on strings without
  markup (\<open>html_plain\<close>) and on everything the getter produces.
\<close>

definition html_special :: "char \<Rightarrow> bool" where
  "html_special c \<longleftrightarrow> c = CHR ''&'' \<or> c = CHR ''<'' \<or> c = CHR ''>''"

definition html_escape_char :: "char \<Rightarrow> string" where
  "html_escape_char c =
     (if c = CHR ''&'' then ''&amp;''
      else if c = CHR ''<'' then ''&lt;''
      else if c = CHR ''>'' then ''&gt;''
      else [c])"

definition html_escape :: "string \<Rightarrow> string" where
  "html_escape s = concat (map html_escape_char s)"

fun html_unescape :: "string \<Rightarrow> string" where
  "html_unescape [] = []"
| "html_unescape (c # s) =
     (if c = CHR ''&'' then
        (if take 4 s = ''amp;'' then CHR ''&'' # html_unescape (drop 4 s)
         else if take 3 s = ''lt;'' then CHR ''<'' # html_unescape (drop 3 s)
         else if take 3 s = ''gt;'' then CHR ''>'' # html_unescape (drop 3 s)
         else if take 5 s = ''quot;'' then CHR 0x22 # html_unescape (drop 5 s)
         else c # html_unescape s)
      else c # html_unescape s)"

text \<open>
  A string without markup and without character references: no \<open><\<close>, and no
  \<open>&\<close> followed by a letter, a digit or \<open>#\<close>. The parser keeps such a string as it is.
\<close>

fun html_plain :: "string \<Rightarrow> bool" where
  "html_plain [] = True"
| "html_plain (c # s) =
     (c \<noteq> CHR ''<'' \<and>
      (if c = CHR ''&'' then (case s of [] \<Rightarrow> True | d # _ \<Rightarrow> \<not> is_ascii_alnum d \<and> d \<noteq> CHR ''#'')
       else True) \<and>
      html_plain s)"

lemma html_escape_simps [simp, text_simps]:
  "html_escape [] = []"
  "html_escape (c # s) = html_escape_char c @ html_escape s"
  "html_escape (s @ t) = html_escape s @ html_escape t"
  by (simp_all add: html_escape_def)

lemma html_unescape_plain_char [simp]:
  "c \<noteq> CHR ''&'' \<Longrightarrow> html_unescape (c # s) = c # html_unescape s"
  by simp

lemma html_unescape_escape_char [simp]:
  "html_unescape (html_escape_char c @ s) = c # html_unescape s"
  by (simp add: html_escape_char_def)

lemma html_unescape_escape [simp]: "html_unescape (html_escape s) = s"
  by (induction s) simp_all

lemma length_html_escape: "length s \<le> length (html_escape s)"
  by (induction s) (auto simp: html_escape_char_def)

lemma newline_in_html_escape [simp]: "newline \<in> set (html_escape s) \<longleftrightarrow> newline \<in> set s"
  by (induction s) (auto simp: html_escape_char_def)

lemma html_escape_remove1_newline:
  "remove1 newline (html_escape s) = html_escape (remove1 newline s)"
  unfolding html_escape_def
  by (rule concat_map_remove1) (auto simp: html_escape_char_def)

lemma html_escape_char_id: "html_escape_char c = [c] \<longleftrightarrow> \<not> html_special c"
  by (auto simp: html_escape_char_def html_special_def)

lemma html_escape_id_iff: "html_escape s = s \<longleftrightarrow> \<not> list_ex html_special s"
proof (induction s)
  case (Cons c s)
  show ?case
  proof (cases "html_special c")
    case True
    then have "length (html_escape_char c) \<ge> 4"
      by (auto simp: html_escape_char_def html_special_def)
    then have "length (html_escape (c # s)) > length (c # s)"
      using length_html_escape [of s] by simp
    then have "html_escape (c # s) \<noteq> c # s" by (metis less_irrefl)
    with True show ?thesis by simp
  next
    case False
    with Cons.IH show ?thesis by (simp add: html_escape_char_id [THEN iffD2])
  qed
qed simp

lemma html_unescape_no_amp: "CHR ''&'' \<notin> set s \<Longrightarrow> html_unescape s = s"
  by (induction s) auto

text \<open>
  Reading the field's HTML and assigning it back keeps the text. Decoding the
  serialization of a text gives the text back, also when more input follows it.
\<close>

theorem html_text_roundtrip: "html_unescape (html_escape s @ t) = s @ html_unescape t"
  by (induction s) simp_all

end
