(* ===== verification/Dom.thy ===== *)
theory Dom
  imports Prelude
begin

text \<open>
  The part of the document that \<^verbatim>\<open>toggleDeleteConfirm\<close> and \<^verbatim>\<open>deleteScrobble\<close>
  touch: elements with a parent pointer (\<^verbatim>\<open>parentElement\<close>, \<open>None\<close> for null) and
  a class list (\<^verbatim>\<open>classList\<close>, a DOMTokenList: an ordered set of tokens). The
  store is an association list from node identifiers to elements, so that its
  well-formedness is a computable predicate. Reading a property of \<^verbatim>\<open>null\<close>
  throws a TypeError; the DOMTokenList methods validate their token first.
\<close>

datatype dom_exception = SyntaxError | InvalidCharacterError

datatype js_error = TypeError | DOMException dom_exception

record element =
  parent_node :: "node option"
  class_list :: "string list"

type_synonym dom = "(node \<times> element) list"

subsection \<open>Property access along parent chains\<close>

definition parent_element :: "dom \<Rightarrow> node \<Rightarrow> node option" where
  "parent_element d n = (case map_of d n of None \<Rightarrow> None | Some e \<Rightarrow> parent_node e)"

text \<open>\<^verbatim>\<open>r.parentElement\<close> where \<open>r\<close> may be null.\<close>

definition get_parent :: "dom \<Rightarrow> node option \<Rightarrow> js_error + node option" where
  "get_parent d r = (case r of None \<Rightarrow> Inl TypeError | Some n \<Rightarrow> Inr (parent_element d n))"

text \<open>\<^verbatim>\<open>r.classList\<close> where \<open>r\<close> may be null: the element whose list is used.\<close>

definition get_class_list :: "node option \<Rightarrow> js_error + node" where
  "get_class_list r = (case r of None \<Rightarrow> Inl TypeError | Some n \<Rightarrow> Inr n)"

text \<open>\<open>k\<close> times \<^verbatim>\<open>.parentElement\<close> starting from an element, then \<^verbatim>\<open>.classList\<close>.\<close>

fun ancestor :: "dom \<Rightarrow> nat \<Rightarrow> node option \<Rightarrow> js_error + node option" where
  "ancestor d 0 r = Inr r"
| "ancestor d (Suc k) r = sum_bind (ancestor d k r) (get_parent d)"

definition ancestor_class_list :: "dom \<Rightarrow> nat \<Rightarrow> node \<Rightarrow> js_error + node" where
  "ancestor_class_list d k n = sum_bind (ancestor d k (Some n)) get_class_list"

subsection \<open>DOMTokenList\<close>

definition ascii_whitespace :: "char \<Rightarrow> bool" where
  "ascii_whitespace c \<longleftrightarrow> c \<in> {CHR 0x09, CHR 0x0A, CHR 0x0C, CHR 0x0D, CHR 0x20}"

text \<open>The validation step of \<^verbatim>\<open>add\<close>, \<^verbatim>\<open>remove\<close> and \<^verbatim>\<open>toggle\<close>.\<close>

definition validate_token :: "string \<Rightarrow> js_error + unit" where
  "validate_token t =
     (if t = [] then Inl (DOMException SyntaxError)
      else if list_ex ascii_whitespace t then Inl (DOMException InvalidCharacterError)
      else Inr ())"

definition token_toggle :: "string list \<Rightarrow> string \<Rightarrow> string list" where
  "token_toggle ts t = (if t \<in> set ts then removeAll t ts else ts @ [t])"

definition token_add :: "string list \<Rightarrow> string \<Rightarrow> string list" where
  "token_add ts t = (if t \<in> set ts then ts else ts @ [t])"

definition update_class_list :: "dom \<Rightarrow> node \<Rightarrow> (string list \<Rightarrow> string list) \<Rightarrow> dom" where
  "update_class_list d n f =
     (case map_of d n of None \<Rightarrow> d
      | Some e \<Rightarrow> AList.update n (e\<lparr>class_list := f (class_list e)\<rparr>) d)"

text \<open>\<^verbatim>\<open>el.classList.toggle(t)\<close> and \<^verbatim>\<open>el.classList.add(t)\<close>.\<close>

definition class_toggle :: "dom \<Rightarrow> node \<Rightarrow> string \<Rightarrow> js_error + dom" where
  "class_toggle d n t = sum_bind (validate_token t) (\<lambda>_. Inr (update_class_list d n (\<lambda>ts. token_toggle ts t)))"

definition class_add :: "dom \<Rightarrow> node \<Rightarrow> string \<Rightarrow> js_error + dom" where
  "class_add d n t = sum_bind (validate_token t) (\<lambda>_. Inr (update_class_list d n (\<lambda>ts. token_add ts t)))"

definition has_class :: "dom \<Rightarrow> node \<Rightarrow> string \<Rightarrow> bool" where
  "has_class d n t = (case map_of d n of None \<Rightarrow> False | Some e \<Rightarrow> t \<in> set (class_list e))"

text \<open>The ancestor \<open>k\<close> levels up, as a value (\<open>None\<close> when the chain meets null).\<close>

fun nth_ancestor :: "dom \<Rightarrow> nat \<Rightarrow> node \<Rightarrow> node option" where
  "nth_ancestor d 0 n = Some n"
| "nth_ancestor d (Suc k) n = (case nth_ancestor d k n of None \<Rightarrow> None | Some m \<Rightarrow> parent_element d m)"

definition parent_in :: "node list \<Rightarrow> element \<Rightarrow> bool" where
  "parent_in ks e = (case parent_node e of None \<Rightarrow> True | Some q \<Rightarrow> q \<in> set ks)"

text \<open>A well-formed store: one entry per node, every class list duplicate-free, every
  parent pointer to a node of the store.\<close>

definition dom_wf :: "dom \<Rightarrow> bool" where
  "dom_wf d \<longleftrightarrow> distinct (map fst d) \<and>
     list_all (\<lambda>(n, e). distinct (class_list e) \<and> parent_in (map fst d) e) d"

subsection \<open>Lemmas on the store and the token lists\<close>

lemma distinct_token_toggle: "distinct ts \<Longrightarrow> distinct (token_toggle ts t)"
  by (simp add: token_toggle_def distinct_removeAll)

lemma distinct_token_add: "distinct ts \<Longrightarrow> distinct (token_add ts t)"
  by (simp add: token_add_def)

lemma set_token_toggle: "set (token_toggle ts t) = (if t \<in> set ts then set ts - {t} else insert t (set ts))"
  by (auto simp: token_toggle_def)

lemma token_toggle_toggle_absent: "t \<notin> set ts \<Longrightarrow> token_toggle (token_toggle ts t) t = ts"
  by (simp add: token_toggle_def removeAll_id)

lemma map_of_update_class_list:
  "map_of (update_class_list d n f) =
     (case map_of d n of None \<Rightarrow> map_of d
      | Some e \<Rightarrow> (map_of d)(n \<mapsto> e\<lparr>class_list := f (class_list e)\<rparr>))"
  by (simp add: update_class_list_def update_conv' split: option.split)

lemma map_fst_update_class_list: "map fst (update_class_list d n f) = map fst d"
  by (auto simp: update_class_list_def AList.update_keys map_of_eq_None_iff dest: map_of_SomeD split: option.split)

lemma list_all_map_of_iff:
  "distinct (map fst d) \<Longrightarrow> list_all (\<lambda>(n, e). P e) d \<longleftrightarrow> (\<forall>n e. map_of d n = Some e \<longrightarrow> P e)"
  by (auto simp: list_all_iff)

lemma dom_wf_update_class_list:
  assumes "dom_wf d" and "\<And>ts. distinct ts \<Longrightarrow> distinct (f ts)"
  shows "dom_wf (update_class_list d n f)"
proof -
  let ?d' = "update_class_list d n f" and ?P = "\<lambda>e. distinct (class_list e) \<and> parent_in (map fst d) e"
  have keys: "distinct (map fst ?d')"
    using assms(1) by (simp add: dom_wf_def map_fst_update_class_list)
  from assms(1) have "\<forall>m e. map_of d m = Some e \<longrightarrow> ?P e"
    by (auto simp: dom_wf_def list_all_iff dest: map_of_SomeD)
  then have "\<forall>m e. map_of ?d' m = Some e \<longrightarrow> ?P e"
    using assms(2) by (auto simp: map_of_update_class_list parent_in_def split: option.splits if_splits)
  with keys show ?thesis
    by (simp add: dom_wf_def list_all_map_of_iff map_fst_update_class_list)
qed

lemma has_class_update_class_list:
  "has_class (update_class_list d n f) m t =
     (if m = n then (case map_of d n of None \<Rightarrow> False | Some e \<Rightarrow> t \<in> set (f (class_list e)))
      else has_class d m t)"
  by (simp add: has_class_def map_of_update_class_list split: option.split)

lemma ancestor_Some:
  "nth_ancestor d k n = Some m \<Longrightarrow> ancestor d k (Some n) = Inr (Some m)"
proof (induction k arbitrary: m)
  case (Suc k)
  then obtain m' where "nth_ancestor d k n = Some m'" and "parent_element d m' = Some m"
    by (auto split: option.splits)
  with Suc.IH show ?case by (simp add: get_parent_def)
qed simp

lemma ancestor_None:
  "nth_ancestor d k n = None \<Longrightarrow> ancestor d k (Some n) = Inr None \<or> ancestor d k (Some n) = Inl TypeError"
proof (induction k)
  case (Suc k)
  show ?case
  proof (cases "nth_ancestor d k n")
    case None
    with Suc.IH show ?thesis by (auto simp: get_parent_def)
  next
    case (Some m')
    with Suc.prems show ?thesis by (simp add: ancestor_Some get_parent_def)
  qed
qed simp

text \<open>The chain of \<^verbatim>\<open>.parentElement\<close> accesses followed by \<^verbatim>\<open>.classList\<close> throws
  exactly when the ancestor does not exist.\<close>

lemma ancestor_class_list_eq:
  "ancestor_class_list d k n = (case nth_ancestor d k n of None \<Rightarrow> Inl TypeError | Some m \<Rightarrow> Inr m)"
proof (cases "nth_ancestor d k n")
  case None
  then show ?thesis
    using ancestor_None [OF None] by (auto simp: ancestor_class_list_def get_class_list_def)
next
  case (Some m)
  then show ?thesis by (simp add: ancestor_class_list_def ancestor_Some get_class_list_def)
qed

lemma nth_ancestor_in_dom:
  "dom_wf d \<Longrightarrow> nth_ancestor d (Suc k) n = Some m \<Longrightarrow> m \<in> set (map fst d)"
proof -
  assume wf: "dom_wf d" and anc: "nth_ancestor d (Suc k) n = Some m"
  then obtain m' e where "map_of d m' = Some e" and "parent_node e = Some m"
    by (auto simp: parent_element_def split: option.splits)
  then have "(m', e) \<in> set d" by (simp add: map_of_SomeD)
  with wf have "parent_in (map fst d) e" by (auto simp: dom_wf_def list_all_iff)
  with \<open>parent_node e = Some m\<close> show ?thesis by (simp add: parent_in_def)
qed

lemma nth_ancestor_update_class_list [simp]:
  "nth_ancestor (update_class_list d n f) k m = nth_ancestor d k m"
  by (induction k) (simp_all add: parent_element_def map_of_update_class_list split: option.split)

end
