(* ===== verification/Page.thy ===== *)
theory Page
  imports Html_Text Dom Xhr
begin

text \<open>
  The state of one page that has \<^verbatim>\<open>edit.js\<close> loaded: the three globals the hosting
  page defines (\<^verbatim>\<open>entity_type\<close>, \<^verbatim>\<open>entity_id\<close>, \<^verbatim>\<open>entity_name\<close>), the name
  field \<^verbatim>\<open>#main_entity_name\<close> (its text, its \<^verbatim>\<open>contentEditable\<close> state, whether it
  has focus, the event listeners installed on it), the document selection, the rest of
  the document (row containers with their class lists), the requests of
  \<^verbatim>\<open>neo.xhttpreq\<close>, \<^verbatim>\<open>window.location.search\<close>, the URL the page navigated to
  (after which the page is gone), and the exceptions reported to the console.
  This theory also holds the browser operations on the field that the handlers use:
  \<^verbatim>\<open>innerHTML\<close>, \<^verbatim>\<open>focus()\<close>, event dispatch, and the selection update of
  \<^verbatim>\<open>selectAll\<close>.
\<close>

datatype content_editable = CEInherit | CEFalse | CEPlaintextOnly

text \<open>The three listeners \<^verbatim>\<open>editEntity\<close> installs, by event type. Each call creates new
  function objects, so \<^verbatim>\<open>addEventListener\<close> never merges them with earlier ones.\<close>

datatype listener = OnKeydown | OnInput | OnBlur

datatype sel_range = NodeContents string

record name_field =
  nf_text :: string
  nf_editable :: content_editable
  nf_focused :: bool
  nf_listeners :: "listener list"

record page =
  entity_type :: string
  entity_id :: int
  entity_name :: string
  namefield :: "name_field option"
  selection :: "sel_range list"
  doc :: dom
  net :: net
  location_search :: string
  navigated :: "string option"
  errors :: "js_error list"

definition name_field_id :: string where
  "name_field_id = ''main_entity_name''"

text \<open>The page as the server renders it: the field shows the entity's name, is not
  editable and has no listeners.\<close>

definition init_page :: "string \<Rightarrow> int \<Rightarrow> string \<Rightarrow> string \<Rightarrow> dom \<Rightarrow> page" where
  "init_page ty eid name search d =
     \<lparr>entity_type = ty, entity_id = eid, entity_name = name,
      namefield = Some \<lparr>nf_text = name, nf_editable = CEInherit, nf_focused = False, nf_listeners = []\<rparr>,
      selection = [], doc = d, net = empty_net, location_search = search, navigated = None,
      errors = []\<rparr>"

subsection \<open>Browser operations on the name field\<close>

definition inner_html :: "name_field \<Rightarrow> string" where
  "inner_html f = html_escape (nf_text f)"

definition set_inner_html :: "string \<Rightarrow> name_field \<Rightarrow> name_field" where
  "set_inner_html s f = f\<lparr>nf_text := html_unescape s\<rparr>"

definition update_field :: "(name_field \<Rightarrow> name_field) \<Rightarrow> page \<Rightarrow> page" where
  "update_field g p = p\<lparr>namefield := map_option g (namefield p)\<rparr>"

definition field_focused :: "page \<Rightarrow> bool" where
  "field_focused p = (case namefield p of None \<Rightarrow> False | Some f \<Rightarrow> nf_focused f)"

definition field_editable :: "page \<Rightarrow> bool" where
  "field_editable p = (case namefield p of None \<Rightarrow> False | Some f \<Rightarrow> nf_editable f = CEPlaintextOnly)"

text \<open>\<^verbatim>\<open>focus()\<close>: only an editing host can take focus; focusing the focused element
  does nothing.\<close>

definition focus_field :: "page \<Rightarrow> page" where
  "focus_field p =
     (if field_editable p \<and> \<not> field_focused p then update_field (\<lambda>f. f\<lparr>nf_focused := True\<rparr>) p else p)"

text \<open>\<^verbatim>\<open>selectAll(e)\<close> (\<^verbatim>\<open>edit.js\<close> lines 17--24): a new range over the contents of
  \<open>e\<close>, every previous range removed, the new one added.\<close>

definition selectAll :: "string \<Rightarrow> page \<Rightarrow> page" where
  "selectAll e p =
     (let range = NodeContents e; sel = [] in p\<lparr>selection := sel @ [range]\<rparr>)"

text \<open>A listener that throws has its exception reported; the dispatch goes on.\<close>

definition run_listener :: "(page \<Rightarrow> js_error + page) \<Rightarrow> page \<Rightarrow> page" where
  "run_listener h p = (case h p of Inl e \<Rightarrow> p\<lparr>errors := errors p @ [e]\<rparr> | Inr p' \<Rightarrow> p')"

definition listener_count :: "listener \<Rightarrow> page \<Rightarrow> nat" where
  "listener_count l p = (case namefield p of None \<Rightarrow> 0 | Some f \<Rightarrow> count_list (nf_listeners f) l)"

text \<open>Dispatching an event runs every listener of its type registered when the dispatch
  starts, in order.\<close>

definition dispatch :: "listener \<Rightarrow> (page \<Rightarrow> js_error + page) \<Rightarrow> page \<Rightarrow> page" where
  "dispatch l h p = (run_listener h ^^ listener_count l p) p"

subsection \<open>Basic lemmas\<close>

lemma update_field_simps [simp, page_simps]:
  "namefield (update_field g p) = map_option g (namefield p)"
  "entity_type (update_field g p) = entity_type p"
  "entity_id (update_field g p) = entity_id p"
  "entity_name (update_field g p) = entity_name p"
  "selection (update_field g p) = selection p"
  "doc (update_field g p) = doc p"
  "net (update_field g p) = net p"
  "location_search (update_field g p) = location_search p"
  "navigated (update_field g p) = navigated p"
  "errors (update_field g p) = errors p"
  by (simp_all add: update_field_def)

lemma dispatch_zero [simp]: "listener_count l p = 0 \<Longrightarrow> dispatch l h p = p"
  by (simp add: dispatch_def)

end
