(* ===== verification/Edit.thy ===== *)
theory Edit
  imports Page
begin

text \<open>
  Inline renaming of the entity (\<^verbatim>\<open>edit.js\<close> lines 26--92). \<^verbatim>\<open>editEntity\<close> makes
  the name field editable, installs a keydown, an input and a blur listener, focuses
  the field and selects its contents. The keydown listener ends editing on Enter and
  reverts the text then ends editing on Escape; the input listener strips the first
  newline of the field's HTML; the blur listener calls \<^verbatim>\<open>doneEditing\<close>, which
  locks the field and, when the field's HTML differs from \<^verbatim>\<open>entity_name\<close>, posts the
  rename and asks to navigate to the updated query string once the request completes.
\<close>

definition artist_endpoint :: string where
  "artist_endpoint = ''/apis/mlj_1/edit_artist''"

definition track_endpoint :: string where
  "track_endpoint = ''/apis/mlj_1/edit_track''"

text \<open>The branch on \<^verbatim>\<open>entity_type\<close> (lines 71--80): endpoint, payload and the updated
  search parameters. For any other type the three variables stay \<^verbatim>\<open>undefined\<close>
  (\<open>None\<close>, \<open>JUndefined\<close>) and the parameters unchanged.\<close>

definition rename_target :: "string \<Rightarrow> int \<Rightarrow> string \<Rightarrow> url_params \<Rightarrow> string option \<times> jval \<times> url_params" where
  "rename_target ty eid newname searchParams =
     (if ty = ''artist'' then
        (Some artist_endpoint, JObj [(''id'', JNum eid), (''name'', JStr newname)],
         usp_set searchParams ''artist'' newname)
      else if ty = ''track'' then
        (Some track_endpoint, JObj [(''id'', JNum eid), (''title'', JStr newname)],
         usp_set searchParams ''title'' newname)
      else (None, JUndefined, searchParams))"

definition doneEditing :: "page \<Rightarrow> js_error + page" where
  "doneEditing p =
     (case namefield p of None \<Rightarrow> Inl TypeError
      | Some f \<Rightarrow>
          let f' = f\<lparr>nf_editable := CEFalse\<rparr>;
              newname = inner_html f';
              p1 = p\<lparr>namefield := Some f'\<rparr>
          in if newname \<noteq> entity_name p then
               (case rename_target (entity_type p) (entity_id p) newname (usp_of_string (location_search p)) of
                  (endpoint, payload, searchParams) \<Rightarrow>
                    Inr (p1\<lparr>net := xhttpreq endpoint payload ''POST'' (CbNavigate searchParams) True (net p1)\<rparr>))
             else Inr p1)"

text \<open>\<^verbatim>\<open>namefield.blur()\<close>: if the field has focus it loses it and the blur listeners
  run; otherwise nothing happens.\<close>

definition blur_field :: "page \<Rightarrow> page" where
  "blur_field p =
     (if field_focused p then dispatch OnBlur doneEditing (update_field (\<lambda>f. f\<lparr>nf_focused := False\<rparr>) p)
      else p)"

definition keydown_listener :: "string \<Rightarrow> page \<Rightarrow> js_error + page" where
  "keydown_listener key p =
     (case namefield p of None \<Rightarrow> Inl TypeError
      | Some f \<Rightarrow>
          if key = ''Enter'' then Inr (blur_field p)
          else if key = ''Escape'' \<or> key = ''Esc'' then
            Inr (blur_field (update_field (set_inner_html (entity_name p)) p))
          else Inr p)"

definition input_listener :: "page \<Rightarrow> js_error + page" where
  "input_listener p =
     (case namefield p of None \<Rightarrow> Inl TypeError
      | Some f \<Rightarrow>
          if js_includes [newline] (inner_html f)
          then Inr (update_field (set_inner_html (js_replace_first [newline] [] (inner_html f))) p)
          else Inr p)"

definition editEntity :: "page \<Rightarrow> js_error + page" where
  "editEntity p =
     (case namefield p of None \<Rightarrow> Inl TypeError
      | Some f \<Rightarrow>
          let p1 = update_field (\<lambda>f. f\<lparr>nf_editable := CEPlaintextOnly\<rparr>) p;
              p2 = update_field (\<lambda>f. f\<lparr>nf_listeners := nf_listeners f @ [OnKeydown, OnInput, OnBlur]\<rparr>) p1;
              p3 = focus_field p2
          in Inr (selectAll name_field_id p3))"

subsection \<open>The requests one commit issues\<close>

text \<open>What a single run of \<^verbatim>\<open>doneEditing\<close> posts on a page: nothing when the field's
  HTML equals \<^verbatim>\<open>entity_name\<close>, otherwise the one request of lines 82--88.\<close>

definition commit_requests :: "page \<Rightarrow> request list" where
  "commit_requests p =
     (case namefield p of None \<Rightarrow> []
      | Some f \<Rightarrow>
          if html_escape (nf_text f) \<noteq> entity_name p then
            (case rename_target (entity_type p) (entity_id p) (html_escape (nf_text f))
                    (usp_of_string (location_search p)) of
               (endpoint, payload, sp) \<Rightarrow> [mk_request endpoint payload ''POST'' (CbNavigate sp) True])
          else [])"

subsection \<open>Behaviour of the handlers\<close>

lemma editEntity_eq:
  "namefield p = Some f \<Longrightarrow>
   editEntity p = Inr (p\<lparr>namefield := Some (f\<lparr>nf_editable := CEPlaintextOnly, nf_focused := True,
                          nf_listeners := nf_listeners f @ [OnKeydown, OnInput, OnBlur]\<rparr>),
                        selection := [NodeContents name_field_id]\<rparr>)"
  by (cases "nf_focused f")
     (simp_all add: editEntity_def focus_field_def field_editable_def field_focused_def
       update_field_def selectAll_def)

lemma input_listener_eq:
  "namefield p = Some f \<Longrightarrow>
   input_listener p = Inr (p\<lparr>namefield := Some (f\<lparr>nf_text := remove1 newline (nf_text f)\<rparr>)\<rparr>)"
  by (cases "newline \<in> set (nf_text f)")
     (simp_all add: input_listener_def inner_html_def set_inner_html_def update_field_def
       html_escape_remove1_newline remove1_idem)

lemma input_dispatch_funpow:
  "namefield p = Some f \<Longrightarrow>
   (run_listener input_listener ^^ k) p =
     p\<lparr>namefield := Some (f\<lparr>nf_text := (remove1 newline ^^ k) (nf_text f)\<rparr>)\<rparr>"
  by (induction k) (simp_all add: run_listener_def input_listener_eq)

lemma doneEditing_eq:
  "namefield p = Some f \<Longrightarrow>
   doneEditing p = Inr (p\<lparr>namefield := Some (f\<lparr>nf_editable := CEFalse\<rparr>),
                         net := add_requests (net p) (commit_requests p)\<rparr>)"
  by (simp add: doneEditing_def commit_requests_def inner_html_def xhttpreq_eq Let_def
      split: prod.split)

lemma commit_requests_cong:
  "namefield p = Some f \<Longrightarrow> namefield q = Some g \<Longrightarrow> nf_text g = nf_text f \<Longrightarrow>
   entity_name q = entity_name p \<Longrightarrow> entity_type q = entity_type p \<Longrightarrow> entity_id q = entity_id p \<Longrightarrow>
   location_search q = location_search p \<Longrightarrow> commit_requests q = commit_requests p"
  by (simp add: commit_requests_def)

lemma commit_requests_update [simp]:
  "namefield p = Some f \<Longrightarrow>
   commit_requests (p\<lparr>namefield := Some (f\<lparr>nf_editable := e\<rparr>), net := n\<rparr>) = commit_requests p"
  by (simp add: commit_requests_def)

lemma concat_replicate_snoc: "concat (replicate k xs) @ xs = concat (replicate (Suc k) xs)"
  by (induction k) simp_all

lemma run_listener_doneEditing:
  "namefield p = Some f \<Longrightarrow>
   run_listener doneEditing p = p\<lparr>namefield := Some (f\<lparr>nf_editable := CEFalse\<rparr>),
                                   net := add_requests (net p) (commit_requests p)\<rparr>"
  by (simp add: run_listener_def doneEditing_eq)

lemma done_dispatch_funpow:
  "namefield p = Some f \<Longrightarrow>
   (run_listener doneEditing ^^ Suc k) p =
     p\<lparr>namefield := Some (f\<lparr>nf_editable := CEFalse\<rparr>),
       net := add_requests (net p) (concat (replicate (Suc k) (commit_requests p)))\<rparr>"
proof (induction k)
  case 0
  then show ?case by (simp add: run_listener_doneEditing)
next
  case (Suc k)
  then show ?case
    by (simp only: funpow.simps o_apply Suc.IH)
       (simp add: run_listener_doneEditing concat_replicate_snoc del: replicate.simps)
qed

lemma commit_requests_focus [simp]:
  "namefield p = Some f \<Longrightarrow>
   commit_requests (p\<lparr>namefield := Some (f\<lparr>nf_focused := b\<rparr>)\<rparr>) = commit_requests p"
  by (simp add: commit_requests_def)

lemma blur_field_eq:
  assumes "namefield p = Some f" and "nf_focused f" and "count_list (nf_listeners f) OnBlur = Suc k"
  shows "blur_field p =
           p\<lparr>namefield := Some (f\<lparr>nf_focused := False, nf_editable := CEFalse\<rparr>),
             net := add_requests (net p) (concat (replicate (Suc k) (commit_requests p)))\<rparr>"
proof -
  let ?q = "p\<lparr>namefield := Some (f\<lparr>nf_focused := False\<rparr>)\<rparr>"
  have "blur_field p = (run_listener doneEditing ^^ Suc k) ?q"
    using assms by (simp add: blur_field_def field_focused_def dispatch_def listener_count_def update_field_def)
  also have "\<dots> = ?q\<lparr>namefield := Some (f\<lparr>nf_focused := False, nf_editable := CEFalse\<rparr>),
       net := add_requests (net ?q) (concat (replicate (Suc k) (commit_requests ?q)))\<rparr>"
    by (rule done_dispatch_funpow) simp
  finally show ?thesis using assms(1) by simp
qed

lemma blur_field_unfocused:
  assumes "namefield p = Some f"
  shows "\<exists>g. namefield (blur_field p) = Some g \<and> \<not> nf_focused g"
proof (cases "nf_focused f")
  case True
  let ?P = "\<lambda>q. \<exists>g. namefield q = Some g \<and> \<not> nf_focused g"
  have step: "?P (run_listener doneEditing q)" if "?P q" for q
    using that by (auto simp: run_listener_doneEditing)
  have base: "?P (update_field (\<lambda>f. f\<lparr>nf_focused := False\<rparr>) p)"
    using assms by simp
  have "?P ((run_listener doneEditing ^^ n) (update_field (\<lambda>f. f\<lparr>nf_focused := False\<rparr>) p))" for n
    by (induction n) (use base step in auto)
  with assms True show ?thesis by (simp add: blur_field_def field_focused_def dispatch_def)
next
  case False
  with assms show ?thesis by (simp add: blur_field_def field_focused_def)
qed

end
