(* ===== verification/Delete.thy ===== *)
theory Delete
  imports Page
begin

text \<open>
  The delete affordance of a scrobble row (\<^verbatim>\<open>edit.js\<close> lines 5--14):
  \<^verbatim>\<open>toggleDeleteConfirm(element)\<close> flips the class \<^verbatim>\<open>active\<close> on the element's
  grandparent; \<^verbatim>\<open>deleteScrobble(id, element)\<close> adds the class \<^verbatim>\<open>removed\<close> to the
  great-grandparent and then posts \<^verbatim>\<open>{timestamp: id}\<close> to the delete endpoint with a
  callback that does nothing. A missing ancestor is a TypeError thrown before any
  change.
\<close>

definition delete_endpoint :: string where
  "delete_endpoint = ''/apis/mlj_1/delete_scrobble''"

definition toggleDeleteConfirm :: "node \<Rightarrow> page \<Rightarrow> js_error + page" where
  "toggleDeleteConfirm element p =
     sum_bind (ancestor_class_list (doc p) 2 element) (\<lambda>n.
     sum_bind (class_toggle (doc p) n ''active'') (\<lambda>d.
     Inr (p\<lparr>doc := d\<rparr>)))"

definition deleteScrobble :: "int \<Rightarrow> node \<Rightarrow> page \<Rightarrow> js_error + page" where
  "deleteScrobble scrobble_id element p =
     sum_bind (ancestor_class_list (doc p) 3 element) (\<lambda>n.
     sum_bind (class_add (doc p) n ''removed'') (\<lambda>d.
     Inr (p\<lparr>doc := d,
            net := xhttpreq (Some delete_endpoint) (JObj [(''timestamp'', JNum scrobble_id)]) ''POST''
                     CbNull True (net p)\<rparr>)))"

text \<open>A scrobble row used by the witnesses: a button (node 0) inside a cell (1) inside a
  row (2) inside a list (3).\<close>

definition row_doc :: dom where
  "row_doc =
     [(0, \<lparr>parent_node = Some 1, class_list = []\<rparr>), (1, \<lparr>parent_node = Some 2, class_list = []\<rparr>),
      (2, \<lparr>parent_node = Some 3, class_list = [''row'']\<rparr>), (3, \<lparr>parent_node = None, class_list = []\<rparr>)]"

definition row_page :: page where
  "row_page = init_page ''artist'' 7 ''Radiohead'' [] row_doc"

subsection \<open>Behaviour of the two handlers\<close>

lemma valid_tokens [simp]:
  "validate_token ''active'' = Inr ()" "validate_token ''removed'' = Inr ()"
  by (simp_all add: validate_token_def ascii_whitespace_def)

lemma toggleDeleteConfirm_eq:
  "toggleDeleteConfirm n p =
     (case nth_ancestor (doc p) 2 n of None \<Rightarrow> Inl TypeError
      | Some g \<Rightarrow> Inr (p\<lparr>doc := update_class_list (doc p) g (\<lambda>ts. token_toggle ts ''active'')\<rparr>))"
  by (simp add: toggleDeleteConfirm_def ancestor_class_list_eq class_toggle_def split: option.split)

lemma deleteScrobble_eq:
  "deleteScrobble sid n p =
     (case nth_ancestor (doc p) 3 n of None \<Rightarrow> Inl TypeError
      | Some r \<Rightarrow> Inr (p\<lparr>doc := update_class_list (doc p) r (\<lambda>ts. token_add ts ''removed''),
                        net := xhttpreq (Some delete_endpoint) (JObj [(''timestamp'', JNum sid)]) ''POST''
                                 CbNull True (net p)\<rparr>))"
  by (simp add: deleteScrobble_def ancestor_class_list_eq class_add_def split: option.split)

lemma set_token_toggle_twice [simp]: "set (token_toggle (token_toggle ts t) t) = set ts"
  by (auto simp: set_token_toggle)

text \<open>
  C8: toggling twice restores the row. When \<^verbatim>\<open>toggleDeleteConfirm\<close> succeeds on an
  element, a second call on the same element succeeds too, changes nothing but the
  document, and leaves every element with exactly the classes it had before.
\<close>

lemma toggleDeleteConfirm_twice:
  assumes "toggleDeleteConfirm n p = Inr p1"
  shows "\<exists>p2. toggleDeleteConfirm n p1 = Inr p2 \<and> p2\<lparr>doc := doc p\<rparr> = p \<and>
           (\<forall>m t. has_class (doc p2) m t = has_class (doc p) m t)"
proof -
  from assms obtain g where g: "nth_ancestor (doc p) 2 n = Some g"
    and p1: "p1 = p\<lparr>doc := update_class_list (doc p) g (\<lambda>ts. token_toggle ts ''active'')\<rparr>"
    by (auto simp: toggleDeleteConfirm_eq split: option.splits)
  let ?d2 = "update_class_list (doc p1) g (\<lambda>ts. token_toggle ts ''active'')"
  have "toggleDeleteConfirm n p1 = Inr (p1\<lparr>doc := ?d2\<rparr>)"
    using g p1 by (simp add: toggleDeleteConfirm_eq)
  moreover have "has_class ?d2 m t = has_class (doc p) m t" for m t
    using p1 by (auto simp: has_class_update_class_list map_of_update_class_list has_class_def
        split: option.split)
  moreover have "(p1\<lparr>doc := ?d2\<rparr>)\<lparr>doc := doc p\<rparr> = p"
    using p1 by simp
  ultimately show ?thesis by auto
qed

text \<open>
  C9: deleting marks the row, then posts. On a well-formed document where the element
  has a great-grandparent, \<^verbatim>\<open>deleteScrobble(id, element)\<close> adds the class
  \<^verbatim>\<open>removed\<close> to it and issues exactly one POST of \<open>{timestamp: id}\<close> to the
  delete endpoint, with a callback that does nothing.
\<close>

lemma deleteScrobble_marks_and_posts:
  assumes "dom_wf (doc p)" and "nth_ancestor (doc p) 3 n = Some r"
  shows "\<exists>p'. deleteScrobble sid n p = Inr p' \<and> has_class (doc p') r ''removed'' \<and>
           issued (net p') = issued (net p) @
             [mk_request (Some delete_endpoint) (JObj [(''timestamp'', JNum sid)]) ''POST'' CbNull True]"
proof -
  have "r \<in> set (map fst (doc p))"
    using nth_ancestor_in_dom [of "doc p" 2 n r] assms by (simp add: numeral_3_eq_3)
  then obtain e where "map_of (doc p) r = Some e"
    by (metis map_of_eq_None_iff not_None_eq set_map)
  with assms(2) show ?thesis
    by (simp add: deleteScrobble_eq has_class_update_class_list token_add_def)
qed

lemma toggleDeleteConfirm_dom_wf:
  "dom_wf (doc p) \<Longrightarrow> toggleDeleteConfirm n p = Inr p' \<Longrightarrow> dom_wf (doc p')"
  by (auto simp: toggleDeleteConfirm_eq distinct_token_toggle
      intro!: dom_wf_update_class_list split: option.splits)

lemma deleteScrobble_dom_wf:
  "dom_wf (doc p) \<Longrightarrow> deleteScrobble sid n p = Inr p' \<Longrightarrow> dom_wf (doc p')"
  by (auto simp: deleteScrobble_eq distinct_token_add
      intro!: dom_wf_update_class_list split: option.splits)

subsection \<open>Witnesses\<close>

lemma toggleDeleteConfirm_twice_witness:
  "toggleDeleteConfirm 0 row_page =
     Inr (row_page\<lparr>doc := update_class_list row_doc 2 (\<lambda>ts. token_toggle ts ''active'')\<rparr>) \<and>
   (\<exists>p2. toggleDeleteConfirm 0 (row_page\<lparr>doc := update_class_list row_doc 2 (\<lambda>ts. token_toggle ts ''active'')\<rparr>) = Inr p2 \<and>
      p2\<lparr>doc := doc row_page\<rparr> = row_page \<and> (\<forall>m t. has_class (doc p2) m t = has_class (doc row_page) m t))"
proof -
  have h: "toggleDeleteConfirm 0 row_page =
     Inr (row_page\<lparr>doc := update_class_list row_doc 2 (\<lambda>ts. token_toggle ts ''active'')\<rparr>)"
    by (simp add: toggleDeleteConfirm_eq row_page_def init_page_def row_doc_def parent_element_def
        numeral_2_eq_2)
  show ?thesis using h toggleDeleteConfirm_twice [OF h] by blast
qed

lemma deleteScrobble_marks_and_posts_witness:
  "dom_wf (doc row_page) \<and> nth_ancestor (doc row_page) 3 0 = Some 3 \<and>
   (\<exists>p'. deleteScrobble 1700000000 0 row_page = Inr p' \<and> has_class (doc p') 3 ''removed'' \<and>
      issued (net p') = issued (net row_page) @
        [mk_request (Some delete_endpoint) (JObj [(''timestamp'', JNum 1700000000)]) ''POST'' CbNull True])"
proof -
  have h1: "dom_wf (doc row_page)"
    by (simp add: row_page_def init_page_def row_doc_def dom_wf_def parent_in_def)
  have h2: "nth_ancestor (doc row_page) 3 0 = Some 3"
    by (simp add: row_page_def init_page_def row_doc_def parent_element_def numeral_3_eq_3)
  show ?thesis using h1 h2 deleteScrobble_marks_and_posts [OF h1 h2] by blast
qed

end
