(* ===== verification/Events.thy ===== *)
theory Events
  imports Edit Delete
begin

text \<open>
  The page as an event-driven machine. Each user action or network completion is an
  event; \<open>page_step\<close> runs the handlers the browser runs for it: the inline
  \<^verbatim>\<open>onclick\<close> handlers of the page (\<^verbatim>\<open>editEntity()\<close>,
  \<^verbatim>\<open>toggleDeleteConfirm(this)\<close>, \<^verbatim>\<open>deleteScrobble(id, this)\<close>), the listeners
  of the name field for key presses, typing and loss of focus, and the callback of a
  completed request. A request may also fail (spec sections 5 and 7): it leaves the
  pending list and its callback never runs. Once the page has navigated away no
  further event reaches it. A click is the event of its handler alone: the blur a
  browser dispatches first when the field has focus is the separate event
  \<open>ClickAway\<close>, so clicking a row's button while editing is the trace
  \<open>[ClickAway, ClickDelete sid n]\<close>.
\<close>

datatype event =
    ClickEdit
  | KeyDown string
  | TypeText string
  | ClickAway
  | ClickField
  | ClickToggle node
  | ClickDelete int node
  | RequestDone nat
  | RequestFail nat

text \<open>Running a request's callback: \<^verbatim>\<open>()=>null\<close> does nothing;
  \<^verbatim>\<open>window.location = "?" + searchParams.toString()\<close> navigates to the same path with
  that query; the new page's \<^verbatim>\<open>location.search\<close> is empty for an empty query.\<close>

definition run_callback :: "callback \<Rightarrow> page \<Rightarrow> page" where
  "run_callback cb p =
     (case cb of CbNull \<Rightarrow> p
      | CbNavigate searchParams \<Rightarrow>
          let qs = usp_to_string searchParams
          in p\<lparr>navigated := Some (''?'' @ qs), location_search := (if qs = [] then [] else ''?'' @ qs)\<rparr>)"

definition page_step :: "page \<Rightarrow> event \<Rightarrow> page" where
  "page_step p ev =
     (if navigated p \<noteq> None then p
      else case ev of
        ClickEdit \<Rightarrow> run_listener editEntity p
      | KeyDown k \<Rightarrow> (if field_focused p then dispatch OnKeydown (keydown_listener k) p else p)
      | TypeText s \<Rightarrow>
          (if field_focused p \<and> field_editable p
           then dispatch OnInput input_listener (update_field (\<lambda>f. f\<lparr>nf_text := s\<rparr>) p) else p)
      | ClickAway \<Rightarrow> blur_field p
      | ClickField \<Rightarrow> focus_field p
      | ClickToggle n \<Rightarrow> run_listener (toggleDeleteConfirm n) p
      | ClickDelete sid n \<Rightarrow> run_listener (deleteScrobble sid n) p
      | RequestDone i \<Rightarrow>
          (case complete_request i (net p) of None \<Rightarrow> p
           | Some (cb, n') \<Rightarrow> run_callback cb (p\<lparr>net := n'\<rparr>))
      | RequestFail i \<Rightarrow>
          (case complete_request i (net p) of None \<Rightarrow> p
           | Some (cb, n') \<Rightarrow> p\<lparr>net := n'\<rparr>))"

fun page_run :: "page \<Rightarrow> event list \<Rightarrow> page" where
  "page_run p [] = p"
| "page_run p (ev # evs) = page_run (page_step p ev) evs"

text \<open>The page after \<open>k\<close> edit sessions that changed nothing: the name is shown,
  the field is locked, and \<open>3 k\<close> listeners are installed.\<close>

definition after_sessions :: "string \<Rightarrow> int \<Rightarrow> string \<Rightarrow> string \<Rightarrow> dom \<Rightarrow> nat \<Rightarrow> page" where
  "after_sessions ty eid name search d k =
     (init_page ty eid name search d)\<lparr>
        namefield := Some \<lparr>nf_text = name, nf_editable = (if k = 0 then CEInherit else CEFalse),
                           nf_focused = False, nf_listeners = concat (replicate k [OnKeydown, OnInput, OnBlur])\<rparr>,
        selection := (if k = 0 then [] else [NodeContents name_field_id])\<rparr>"

subsection \<open>One step from a given state\<close>

lemma page_step_ClickEdit:
  "navigated p = None \<Longrightarrow> namefield p = Some f \<Longrightarrow>
   page_step p ClickEdit =
     p\<lparr>namefield := Some (f\<lparr>nf_editable := CEPlaintextOnly, nf_focused := True,
                          nf_listeners := nf_listeners f @ [OnKeydown, OnInput, OnBlur]\<rparr>),
       selection := [NodeContents name_field_id]\<rparr>"
  by (simp add: page_step_def run_listener_def editEntity_eq)

lemma page_step_TypeText:
  "navigated p = None \<Longrightarrow> namefield p = Some f \<Longrightarrow> nf_focused f \<Longrightarrow> nf_editable f = CEPlaintextOnly \<Longrightarrow>
   page_step p (TypeText t) =
     p\<lparr>namefield := Some (f\<lparr>nf_text := (remove1 newline ^^ count_list (nf_listeners f) OnInput) t\<rparr>)\<rparr>"
  using input_dispatch_funpow [of "p\<lparr>namefield := Some (f\<lparr>nf_text := t\<rparr>)\<rparr>" _ "count_list (nf_listeners f) OnInput"]
  by (simp add: page_step_def field_focused_def field_editable_def dispatch_def listener_count_def
      update_field_def)

lemma page_step_ClickAway:
  "navigated p = None \<Longrightarrow> namefield p = Some f \<Longrightarrow> nf_focused f \<Longrightarrow>
   count_list (nf_listeners f) OnBlur = Suc k \<Longrightarrow>
   page_step p ClickAway =
     p\<lparr>namefield := Some (f\<lparr>nf_focused := False, nf_editable := CEFalse\<rparr>),
       net := add_requests (net p) (concat (replicate (Suc k) (commit_requests p)))\<rparr>"
  by (simp add: page_step_def blur_field_eq)

lemma page_step_Escape:
  assumes "navigated p = None" "namefield p = Some f" "nf_focused f"
    and "count_list (nf_listeners f) OnKeydown = Suc j" "count_list (nf_listeners f) OnBlur = Suc k"
  shows "page_step p (KeyDown ''Escape'') =
     p\<lparr>namefield := Some (f\<lparr>nf_text := html_unescape (entity_name p), nf_focused := False,
                             nf_editable := CEFalse\<rparr>),
       net := add_requests (net p) (concat (replicate (Suc k)
                (commit_requests (p\<lparr>namefield := Some (f\<lparr>nf_text := html_unescape (entity_name p)\<rparr>)\<rparr>))))\<rparr>"
proof -
  let ?f1 = "f\<lparr>nf_text := html_unescape (entity_name p)\<rparr>"
  let ?q = "p\<lparr>namefield := Some (?f1\<lparr>nf_focused := False, nf_editable := CEFalse\<rparr>),
       net := add_requests (net p) (concat (replicate (Suc k) (commit_requests (p\<lparr>namefield := Some ?f1\<rparr>))))\<rparr>"
  have first: "run_listener (keydown_listener ''Escape'') p = ?q"
    using assms blur_field_eq [of "p\<lparr>namefield := Some ?f1\<rparr>" ?f1 k]
    by (simp add: run_listener_def keydown_listener_def update_field_def set_inner_html_def)
  have later: "(run_listener (keydown_listener ''Escape'') ^^ i) ?q = ?q" for i
  proof (induction i)
    case (Suc i)
    then show ?case
      by (simp add: run_listener_def keydown_listener_def update_field_def set_inner_html_def
          blur_field_def field_focused_def)
  qed simp
  show ?thesis
    using assms first later [of j]
    by (simp add: page_step_def field_focused_def dispatch_def listener_count_def funpow_Suc_right
        del: funpow.simps)
qed

subsection \<open>Runs from the rendered page\<close>

lemma run_edit_type_blur:
  "page_run (init_page ty eid name search d) [ClickEdit, TypeText t, ClickAway] =
     (init_page ty eid name search d)\<lparr>
        namefield := Some \<lparr>nf_text = remove1 newline t, nf_editable = CEFalse, nf_focused = False,
                           nf_listeners = [OnKeydown, OnInput, OnBlur]\<rparr>,
        selection := [NodeContents name_field_id],
        net := add_requests empty_net
                 (if html_escape (remove1 newline t) \<noteq> name then
                    (case rename_target ty eid (html_escape (remove1 newline t)) (usp_of_string search) of
                       (endpoint, payload, sp) \<Rightarrow> [mk_request endpoint payload ''POST'' (CbNavigate sp) True])
                  else [])\<rparr>"
proof -
  let ?p0 = "init_page ty eid name search d"
  let ?f1 = "\<lparr>nf_text = name, nf_editable = CEPlaintextOnly, nf_focused = True,
              nf_listeners = [OnKeydown, OnInput, OnBlur]\<rparr>"
  let ?p1 = "?p0\<lparr>namefield := Some ?f1, selection := [NodeContents name_field_id]\<rparr>"
  let ?p2 = "?p1\<lparr>namefield := Some (?f1\<lparr>nf_text := remove1 newline t\<rparr>)\<rparr>"
  have s1: "page_step ?p0 ClickEdit = ?p1"
    by (simp add: page_step_def init_page_def run_listener_def editEntity_eq)
  have s2: "page_step ?p1 (TypeText t) = ?p2"
    using input_dispatch_funpow [of "?p1\<lparr>namefield := Some (?f1\<lparr>nf_text := t\<rparr>)\<rparr>" _ 1]
    by (simp add: page_step_def init_page_def field_focused_def field_editable_def dispatch_def
        listener_count_def update_field_def)
  have s3: "page_step ?p2 ClickAway = ?p2\<lparr>namefield := Some (?f1\<lparr>nf_text := remove1 newline t,
              nf_focused := False, nf_editable := CEFalse\<rparr>),
              net := add_requests (net ?p2) (concat (replicate 1 (commit_requests ?p2)))\<rparr>"
    using blur_field_eq [of ?p2 "?f1\<lparr>nf_text := remove1 newline t\<rparr>" 0]
    by (simp add: page_step_def init_page_def)
  show ?thesis
    using s1 s2 s3 by (simp add: commit_requests_def init_page_def split: prod.split)
qed

lemma run_edit_blur:
  "page_run (init_page ty eid name search d) [ClickEdit, ClickAway] =
     (init_page ty eid name search d)\<lparr>
        namefield := Some \<lparr>nf_text = name, nf_editable = CEFalse, nf_focused = False,
                           nf_listeners = [OnKeydown, OnInput, OnBlur]\<rparr>,
        selection := [NodeContents name_field_id],
        net := add_requests empty_net
                 (if html_escape name \<noteq> name then
                    (case rename_target ty eid (html_escape name) (usp_of_string search) of
                       (endpoint, payload, sp) \<Rightarrow> [mk_request endpoint payload ''POST'' (CbNavigate sp) True])
                  else [])\<rparr>"
proof -
  let ?p0 = "init_page ty eid name search d"
  let ?f1 = "\<lparr>nf_text = name, nf_editable = CEPlaintextOnly, nf_focused = True,
              nf_listeners = [OnKeydown, OnInput, OnBlur]\<rparr>"
  let ?p1 = "?p0\<lparr>namefield := Some ?f1, selection := [NodeContents name_field_id]\<rparr>"
  have s1: "page_step ?p0 ClickEdit = ?p1"
    by (simp add: page_step_def init_page_def run_listener_def editEntity_eq)
  have s2: "page_step ?p1 ClickAway = ?p1\<lparr>namefield := Some (?f1\<lparr>nf_focused := False, nf_editable := CEFalse\<rparr>),
              net := add_requests (net ?p1) (concat (replicate 1 (commit_requests ?p1)))\<rparr>"
    using blur_field_eq [of ?p1 ?f1 0] by (simp add: page_step_def init_page_def)
  show ?thesis
    using s1 s2 by (simp add: commit_requests_def init_page_def split: prod.split)
qed

lemma page_run_append: "page_run p (xs @ ys) = page_run (page_run p xs) ys"
  by (induction xs arbitrary: p) simp_all

lemma run_noop_sessions:
  assumes "\<not> list_ex html_special name"
  shows "page_run (init_page ty eid name search d) (concat (replicate k [ClickEdit, ClickAway])) =
           after_sessions ty eid name search d k"
proof (induction k)
  case 0
  then show ?case by (simp add: after_sessions_def init_page_def)
next
  case (Suc k)
  let ?L = "concat (replicate k [OnKeydown, OnInput, OnBlur])"
  let ?pk = "after_sessions ty eid name search d k"
  let ?f = "\<lparr>nf_text = name, nf_editable = (if k = 0 then CEInherit else CEFalse), nf_focused = False,
             nf_listeners = ?L\<rparr>"
  let ?f1 = "\<lparr>nf_text = name, nf_editable = CEPlaintextOnly, nf_focused = True,
              nf_listeners = ?L @ [OnKeydown, OnInput, OnBlur]\<rparr>"
  let ?p1 = "?pk\<lparr>namefield := Some ?f1, selection := [NodeContents name_field_id]\<rparr>"
  have pk: "navigated ?pk = None" "namefield ?pk = Some ?f"
    by (simp_all add: after_sessions_def init_page_def)
  have p1: "page_step ?pk ClickEdit = ?p1"
    using page_step_ClickEdit [OF pk] by simp
  have nc: "commit_requests ?p1 = []"
    using assms by (simp add: commit_requests_def after_sessions_def init_page_def html_escape_id_iff)
  have "page_step ?p1 ClickAway =
          ?p1\<lparr>namefield := Some (?f1\<lparr>nf_focused := False, nf_editable := CEFalse\<rparr>),
               net := add_requests (net ?p1) (concat (replicate (Suc k) (commit_requests ?p1)))\<rparr>"
    by (rule page_step_ClickAway) (simp_all add: after_sessions_def init_page_def)
  also have "\<dots> = after_sessions ty eid name search d (Suc k)"
    using nc by (simp add: after_sessions_def init_page_def concat_replicate_snoc del: replicate.simps)
  finally have "page_step (page_step ?pk ClickEdit) ClickAway = after_sessions ty eid name search d (Suc k)"
    using p1 by simp
  moreover have "concat (replicate (Suc k) [ClickEdit, ClickAway]) =
      concat (replicate k [ClickEdit, ClickAway]) @ [ClickEdit, ClickAway]"
    by (simp only: concat_replicate_snoc)
  ultimately show ?case
    using Suc by (simp add: page_run_append)
qed

lemma page_step_Enter:
  assumes "navigated p = None" "namefield p = Some f" "nf_focused f"
    and "count_list (nf_listeners f) OnKeydown = Suc j"
  shows "page_step p (KeyDown ''Enter'') = blur_field p"
proof -
  have later: "(run_listener (keydown_listener ''Enter'') ^^ i) q = q" if "\<not> field_focused q" "namefield q \<noteq> None" for i q
  proof (induction i)
    case (Suc i)
    then show ?case using that
      by (auto simp: run_listener_def keydown_listener_def blur_field_def)
  qed simp
  have nf: "\<not> field_focused (blur_field p)" "namefield (blur_field p) \<noteq> None"
    using blur_field_unfocused [OF assms(2)] by (auto simp: field_focused_def)
  show ?thesis
    using assms later [OF nf, of j]
    by (simp add: page_step_def field_focused_def dispatch_def listener_count_def funpow_Suc_right
        run_listener_def keydown_listener_def del: funpow.simps)
qed

end
