(* ===== verification/Schema.thy ===== *)
theory Schema
  imports Json Edit Delete
begin

text \<open>
  The request schemas of the server (spec section 6): the delete endpoint takes
  \<open>{"timestamp": number}\<close>, the artist endpoint \<open>{"id": number, "name": string}\<close>, the
  track endpoint \<open>{"id": number, "title": string}\<close>. A small type system for JSON
  values (\<open>jtype\<close>, \<open>has_jtype\<close>) states them; \<open>request_typed\<close> says that a request
  goes to an endpoint that fits the page's entity type, with a payload of that
  endpoint's schema, or, on a page of another type, to no URL with no payload. Values
  of a type are exactly what survives the wire: they serialize, and decode to
  themselves.
\<close>

datatype jtype = TNull | TBool | TNum | TStr | TObj "(string \<times> jtype) list"

fun has_jtype :: "jval \<Rightarrow> jtype \<Rightarrow> bool"
and members_jtype :: "(string \<times> jval) list \<Rightarrow> (string \<times> jtype) list \<Rightarrow> bool" where
  "has_jtype JNull t = (t = TNull)"
| "has_jtype (JBool b) t = (t = TBool)"
| "has_jtype (JNum i) t = (t = TNum)"
| "has_jtype (JStr s) t = (t = TStr)"
| "has_jtype (JObj kvs) t = (case t of TObj ts \<Rightarrow> members_jtype kvs ts | _ \<Rightarrow> False)"
| "has_jtype JUndefined t = False"
| "members_jtype [] ts = (ts = [])"
| "members_jtype (kv # kvs) ts =
     (case ts of [] \<Rightarrow> False
      | kt # kts \<Rightarrow> fst kv = fst kt \<and> has_jtype (snd kv) (snd kt) \<and> members_jtype kvs kts)"

definition endpoint_schema :: "string \<Rightarrow> jtype option" where
  "endpoint_schema u =
     (if u = delete_endpoint then Some (TObj [(''timestamp'', TNum)])
      else if u = artist_endpoint then Some (TObj [(''id'', TNum), (''name'', TStr)])
      else if u = track_endpoint then Some (TObj [(''id'', TNum), (''title'', TStr)])
      else None)"

definition request_typed :: "string \<Rightarrow> request \<Rightarrow> bool" where
  "request_typed ty r =
     (case req_url r of
        None \<Rightarrow> ty \<noteq> ''artist'' \<and> ty \<noteq> ''track'' \<and> req_data r = JUndefined
      | Some u \<Rightarrow>
          (u = artist_endpoint \<longrightarrow> ty = ''artist'') \<and> (u = track_endpoint \<longrightarrow> ty = ''track'') \<and>
          (case endpoint_schema u of None \<Rightarrow> False | Some t \<Rightarrow> has_jtype (req_data r) t))"

lemma endpoints_distinct [simp]:
  "delete_endpoint \<noteq> artist_endpoint" "delete_endpoint \<noteq> track_endpoint" "artist_endpoint \<noteq> track_endpoint"
  "artist_endpoint \<noteq> delete_endpoint" "track_endpoint \<noteq> delete_endpoint" "track_endpoint \<noteq> artist_endpoint"
  by (simp_all add: delete_endpoint_def artist_endpoint_def track_endpoint_def)

lemma endpoint_schema_simps [simp]:
  "endpoint_schema delete_endpoint = Some (TObj [(''timestamp'', TNum)])"
  "endpoint_schema artist_endpoint = Some (TObj [(''id'', TNum), (''name'', TStr)])"
  "endpoint_schema track_endpoint = Some (TObj [(''id'', TNum), (''title'', TStr)])"
  by (simp_all add: endpoint_schema_def)

lemma rename_target_typed:
  "rename_target ty eid n sp = (u, d, sp') \<Longrightarrow> request_typed ty (mk_request u d m cb j)"
  by (auto simp: rename_target_def request_typed_def split: if_splits)

lemma commit_requests_typed: "list_all (request_typed (entity_type p)) (commit_requests p)"
  by (auto simp: commit_requests_def rename_target_typed split: option.split prod.split)

lemma delete_request_typed:
  "request_typed ty (mk_request (Some delete_endpoint) (JObj [(''timestamp'', JNum sid)]) m cb j)"
  by (simp add: request_typed_def)

subsection \<open>Typed values survive the wire\<close>

lemma has_jtype_defined:
  shows "has_jtype v t \<Longrightarrow> drop_undef v = v \<and> v \<noteq> JUndefined"
    and "members_jtype kvs ts \<Longrightarrow> drop_undef_members kvs = kvs"
proof (induction v t and kvs ts rule: has_jtype_members_jtype.induct)
  case (5 kvs t)
  then show ?case by (cases t) auto
next
  case (8 kv kvs ts)
  then show ?case by (cases ts) (auto simp: prod_eq_iff)
qed auto

text \<open>
  Typed payloads cross the wire unchanged. A JSON value of any schema
  serializes, and the server's decoder reads back exactly that value: for the
  payloads of the three endpoints nothing is dropped or altered on the way.
\<close>

theorem typed_payload_roundtrip:
  assumes "has_jtype v t"
  shows "\<exists>s. json_stringify v = Some s \<and> json_parse s = Some v"
proof -
  have v: "drop_undef v = v" "v \<noteq> JUndefined" using has_jtype_defined(1) [OF assms] by simp_all
  then obtain s where s: "json_stringify v = Some s" by (cases "json_stringify v") (simp_all add: json_stringify_None_iff)
  then show ?thesis using json_parse_stringify [OF s] v(1) by simp
qed

end
