(* ===== verification/Invariant.thy ===== *)
theory Invariant
  imports Events Delete Schema
begin

text \<open>
  What every reachable state of the page satisfies. The reachable pages are the
  rendered pages over a well-formed document and everything the events lead to
  (\<open>reachable\<close>, an inductive set); \<open>page_inv\<close> collects what stays true: the three
  listener kinds are installed in equal numbers, the field is editable exactly when
  it has focus, an editable field has a blur listener (so its edit always ends in a commit), every
  pending request was issued, the document stays well-formed, and every request is a
  JSON POST whose endpoint and payload fit the schemas of \<open>Schema\<close>.
\<close>

inductive reachable :: "page \<Rightarrow> bool" where
  rendered: "dom_wf d \<Longrightarrow> reachable (init_page ty eid name search d)"
| step: "reachable p \<Longrightarrow> reachable (page_step p ev)"

definition field_inv :: "name_field \<Rightarrow> bool" where
  "field_inv f \<longleftrightarrow>
     count_list (nf_listeners f) OnKeydown = count_list (nf_listeners f) OnBlur \<and>
     count_list (nf_listeners f) OnInput = count_list (nf_listeners f) OnBlur \<and>
     (nf_focused f \<longleftrightarrow> nf_editable f = CEPlaintextOnly) \<and>
     (if nf_editable f = CEPlaintextOnly then 0 < count_list (nf_listeners f) OnBlur else True)"

definition request_ok :: "string \<Rightarrow> request \<Rightarrow> bool" where
  "request_ok ty r \<longleftrightarrow> req_method r = ''POST'' \<and> req_json r \<and> request_typed ty r"

definition page_inv :: "page \<Rightarrow> bool" where
  "page_inv p \<longleftrightarrow>
     (case namefield p of None \<Rightarrow> False | Some f \<Rightarrow> field_inv f) \<and>
     set (pending (net p)) \<subseteq> set (issued (net p)) \<and>
     dom_wf (doc p) \<and>
     list_all (request_ok (entity_type p)) (issued (net p))"

lemma page_invI:
  "namefield p = Some f \<Longrightarrow> field_inv f \<Longrightarrow> set (pending (net p)) \<subseteq> set (issued (net p)) \<Longrightarrow>
   dom_wf (doc p) \<Longrightarrow> list_all (request_ok (entity_type p)) (issued (net p)) \<Longrightarrow> page_inv p"
  by (simp add: page_inv_def)

lemma page_invE:
  assumes "page_inv p"
  obtains f where "namefield p = Some f" "field_inv f" "set (pending (net p)) \<subseteq> set (issued (net p))"
    "dom_wf (doc p)" "list_all (request_ok (entity_type p)) (issued (net p))"
  using assms by (auto simp: page_inv_def split: option.splits)

lemma run_listener_inv:
  "(\<And>q. h p = Inr q \<Longrightarrow> page_inv q) \<Longrightarrow> page_inv p \<Longrightarrow> page_inv (run_listener h p)"
  by (auto simp: run_listener_def page_inv_def split: sum.split)

lemma commit_requests_ok:
  "list_all (request_ok (entity_type p)) (commit_requests p)"
proof -
  have "\<forall>r\<in>set (commit_requests p). req_method r = ''POST'' \<and> req_json r"
  proof (cases "namefield p")
    case (Some f)
    obtain u d sp where rt: "rename_target (entity_type p) (entity_id p) (html_escape (nf_text f))
        (usp_of_string (location_search p)) = (u, d, sp)" by (metis prod_cases3)
    show ?thesis unfolding commit_requests_def Some option.case rt prod.case by simp
  qed (simp add: commit_requests_def)
  then show ?thesis using commit_requests_typed [of p] by (auto simp: request_ok_def list_all_iff)
qed

lemma list_all_concat_replicate: "list_all P xs \<Longrightarrow> list_all P (concat (replicate k xs))"
  by (induction k) simp_all

lemma blur_field_inv: "page_inv p \<Longrightarrow> page_inv (blur_field p)"
proof -
  assume inv: "page_inv p"
  then obtain f where f: "namefield p = Some f" "field_inv f"
    by (auto simp: page_inv_def split: option.splits)
  show ?thesis
  proof (cases "nf_focused f")
    case True
    with f obtain k where k: "count_list (nf_listeners f) OnBlur = Suc k"
      by (auto simp: field_inv_def gr0_conv_Suc)
    show ?thesis
      using inv f True blur_field_eq [OF f(1) True k] commit_requests_ok [of p]
      by (auto simp: page_inv_def field_inv_def list_all_concat_replicate)
  next
    case False
    with f show ?thesis using inv by (simp add: blur_field_def field_focused_def)
  qed
qed

lemma text_update_inv:
  "page_inv p \<Longrightarrow> page_inv (update_field (\<lambda>f. f\<lparr>nf_text := t f\<rparr>) p)"
  by (auto simp: page_inv_def field_inv_def split: option.splits)

lemma set_inner_html_inv: "page_inv p \<Longrightarrow> page_inv (update_field (set_inner_html s) p)"
  by (auto simp: page_inv_def field_inv_def set_inner_html_def split: option.splits)

lemma keydown_step_inv: "page_inv q \<Longrightarrow> page_inv (run_listener (keydown_listener k) q)"
  by (rule run_listener_inv)
     (auto simp: keydown_listener_def blur_field_inv set_inner_html_inv split: option.splits if_splits)

lemma input_step_inv: "page_inv q \<Longrightarrow> page_inv (run_listener input_listener q)"
  by (elim page_invE) (auto simp: run_listener_def input_listener_eq field_inv_def intro!: page_invI)

lemma editEntity_inv: "page_inv p \<Longrightarrow> page_inv (run_listener editEntity p)"
  by (elim page_invE) (auto simp: run_listener_def editEntity_eq field_inv_def intro!: page_invI)

lemma focus_field_inv: "page_inv p \<Longrightarrow> page_inv (focus_field p)"
  by (auto simp: focus_field_def page_inv_def field_inv_def field_editable_def field_focused_def
      split: option.splits)

lemma toggle_inv: "page_inv p \<Longrightarrow> page_inv (run_listener (toggleDeleteConfirm n) p)"
  by (rule run_listener_inv)
     (auto simp: page_inv_def toggleDeleteConfirm_eq distinct_token_toggle
        intro!: dom_wf_update_class_list split: option.splits)

lemma delete_inv: "page_inv p \<Longrightarrow> page_inv (run_listener (deleteScrobble sid n) p)"
  by (rule run_listener_inv)
     (auto simp: page_inv_def deleteScrobble_eq distinct_token_add request_ok_def delete_request_typed
        intro!: dom_wf_update_class_list split: option.splits)

lemma request_fail_inv:
  assumes "page_inv p" and "complete_request i (net p) = Some (cb, n')"
  shows "page_inv (p\<lparr>net := n'\<rparr>)"
proof -
  from assms(2) have "issued n' = issued (net p)" and "set (pending n') \<subseteq> set (pending (net p))"
    by (auto dest: complete_request_issued complete_request_pending_subset)
  with assms(1) show ?thesis by (auto simp: page_inv_def)
qed

lemma run_callback_inv: "page_inv q \<Longrightarrow> page_inv (run_callback cb q)"
  by (auto simp: page_inv_def run_callback_def Let_def split: callback.split)

lemma request_done_inv:
  "page_inv p \<Longrightarrow> complete_request i (net p) = Some (cb, n') \<Longrightarrow> page_inv (run_callback cb (p\<lparr>net := n'\<rparr>))"
  by (rule run_callback_inv) (rule request_fail_inv)

lemma page_step_inv: "page_inv p \<Longrightarrow> page_inv (page_step p ev)"
proof (cases ev)
  case (KeyDown k)
  assume "page_inv p"
  then show ?thesis
    using funpow_inv [of page_inv "run_listener (keydown_listener k)"] keydown_step_inv
    by (simp add: KeyDown page_step_def dispatch_def)
next
  case (TypeText t)
  assume inv: "page_inv p"
  then have "page_inv (update_field (\<lambda>f. f\<lparr>nf_text := t\<rparr>) p)" by (rule text_update_inv)
  then show ?thesis
    using inv funpow_inv [of page_inv "run_listener input_listener"] input_step_inv
    by (simp add: TypeText page_step_def dispatch_def)
next
  case (RequestDone i)
  assume "page_inv p"
  then show ?thesis
    by (auto simp: RequestDone page_step_def request_done_inv split: option.split)
next
  case (RequestFail i)
  assume "page_inv p"
  then show ?thesis
    by (auto simp: RequestFail page_step_def request_fail_inv split: option.split)
qed (auto simp: page_step_def editEntity_inv blur_field_inv focus_field_inv toggle_inv delete_inv)

lemma init_page_inv: "dom_wf d \<Longrightarrow> page_inv (init_page ty eid name search d)"
  by (simp add: page_inv_def init_page_def field_inv_def empty_net_def)

lemma reachable_inv: "reachable p \<Longrightarrow> page_inv p"
  by (induction rule: reachable.induct) (auto intro: init_page_inv page_step_inv)

text \<open>
  C10: the page invariant. In every reachable state the listener kinds are installed
  in equal numbers, a focused field is editable and an editable field has a blur
  listener, the pending requests are among the issued ones, the document is
  well-formed, and every request is a JSON POST whose endpoint fits the page's entity
  type and whose payload has that endpoint's schema.
\<close>

theorem reachable_page_inv: "reachable p \<Longrightarrow> page_inv p"
proof (induction rule: reachable.induct)
  case (rendered d ty eid name search)
  then show ?case by (rule init_page_inv)
next
  case (step p ev)
  from step.IH show ?case by (rule page_step_inv)
qed

theorem reachable_page_inv_witness:
  "reachable (page_step (init_page ''artist'' 7 ''Radiohead'' [] row_doc) ClickEdit) \<and>
   page_inv (page_step (init_page ''artist'' 7 ''Radiohead'' [] row_doc) ClickEdit)"
proof -
  have wf: "dom_wf row_doc" by (simp add: row_doc_def dom_wf_def parent_in_def)
  have h: "reachable (page_step (init_page ''artist'' 7 ''Radiohead'' [] row_doc) ClickEdit)"
    by (rule reachable.step [OF reachable.rendered [OF wf]])
  show ?thesis using h reachable_page_inv [OF h] by simp
qed

end
