(* ===== verification/Refinement.thy ===== *)
theory Refinement
  imports Invariant
begin

text \<open>
  The spec's state machine of the name field (section 4.5): Viewing, then Editing
  after the edit trigger, then Committing after Enter, Escape or blur, then Viewing
  again when the request completes, or at once when the name did not change. The page
  refines it through \<open>phase_of\<close>: Editing while the field has focus, Committing while
  a rename request (one with the navigation callback) is pending, Viewing otherwise
  and after navigation. Every step of a reachable page is a step of the spec's
  machine, with one exception: the edit button still works while a rename is in
  flight, which takes Committing back to Editing.
\<close>

datatype phase = Viewing | Editing | Committing

inductive spec_step :: "phase \<Rightarrow> phase \<Rightarrow> bool" where
  stay: "spec_step s s"
| edit: "spec_step Viewing Editing"
| commit: "spec_step Editing Committing"
| commit_unchanged: "spec_step Editing Viewing"
| complete: "spec_step Committing Viewing"

code_pred spec_step .

inductive_cases spec_step_CommittingE: "spec_step Committing s"
inductive_cases spec_step_ViewingE: "spec_step Viewing s"

definition is_rename :: "request \<Rightarrow> bool" where
  "is_rename r = (case req_callback r of CbNavigate _ \<Rightarrow> True | CbNull \<Rightarrow> False)"

definition phase_of :: "page \<Rightarrow> phase" where
  "phase_of p =
     (if navigated p \<noteq> None then Viewing
      else if field_focused p then Editing
      else if list_ex is_rename (pending (net p)) then Committing
      else Viewing)"

lemma page_inv_focus: "page_inv p \<Longrightarrow> field_editable p \<longleftrightarrow> field_focused p"
  by (auto simp: page_inv_def field_inv_def field_editable_def field_focused_def split: option.splits)

lemma unfocused_step_field:
  assumes "page_inv p" "\<not> field_focused p" "ev \<noteq> ClickEdit"
  shows "namefield (page_step p ev) = namefield p"
proof (cases "navigated p = None")
  case True
  show ?thesis
  proof (cases ev)
    case ClickField
    with assms True show ?thesis by (simp add: page_step_def focus_field_def page_inv_focus)
  next
    case (ClickToggle n)
    with True show ?thesis
      by (simp add: page_step_def run_listener_def toggleDeleteConfirm_eq split: option.split)
  next
    case (ClickDelete sid n)
    with True show ?thesis
      by (simp add: page_step_def run_listener_def deleteScrobble_eq split: option.split)
  next
    case (RequestDone i)
    with True show ?thesis
      by (auto simp: page_step_def run_callback_def Let_def split: option.split callback.split)
  next
    case (RequestFail i)
    with True show ?thesis by (auto simp: page_step_def split: option.split)
  qed (use assms True in \<open>simp_all add: page_step_def blur_field_def\<close>)
qed (simp add: page_step_def)

lemma completion_pending_subset:
  "ev = RequestDone i \<or> ev = RequestFail i \<Longrightarrow> set (pending (net (page_step p ev))) \<subseteq> set (pending (net p))"
  by (auto simp: page_step_def run_callback_def Let_def dest!: complete_request_pending_subset
      split: option.splits callback.splits) blast+

lemma unfocused_step_renames:
  assumes "page_inv p" "\<not> field_focused p"
    and "list_ex is_rename (pending (net (page_step p ev)))"
  shows "list_ex is_rename (pending (net p))"
proof (cases "navigated p = None")
  case True
  show ?thesis
  proof (cases ev)
    case ClickEdit
    with assms True show ?thesis
      by (auto simp: page_step_def run_listener_def editEntity_def Let_def focus_field_def selectAll_def
          update_field_def split: option.splits if_splits)
  next
    case ClickField
    with assms True show ?thesis by (simp add: page_step_def focus_field_def page_inv_focus)
  next
    case (ClickToggle n)
    with assms True show ?thesis
      by (simp add: page_step_def run_listener_def toggleDeleteConfirm_eq split: option.splits)
  next
    case (ClickDelete sid n)
    with assms True show ?thesis
      by (auto simp: page_step_def run_listener_def deleteScrobble_eq is_rename_def split: option.splits)
  next
    case (RequestDone i)
    with assms(3) completion_pending_subset [of ev i p] show ?thesis by (auto simp: list_ex_iff)
  next
    case (RequestFail i)
    with assms(3) completion_pending_subset [of ev i p] show ?thesis by (auto simp: list_ex_iff)
  qed (use assms True in \<open>simp_all add: page_step_def blur_field_def\<close>)
qed (use assms in \<open>simp add: page_step_def\<close>)

lemma edit_step_focused:
  "page_inv p \<Longrightarrow> navigated p = None \<Longrightarrow> field_focused (page_step p ClickEdit)"
  by (auto simp: page_inv_def page_step_def run_listener_def editEntity_eq field_focused_def
      split: option.splits)

lemma edit_step_navigated:
  "page_inv p \<Longrightarrow> navigated p = None \<Longrightarrow> navigated (page_step p ClickEdit) = None"
  by (auto simp: page_inv_def page_step_def run_listener_def editEntity_eq split: option.splits)

lemma page_step_navigated: "navigated p \<noteq> None \<Longrightarrow> page_step p ev = p"
  by (simp add: page_step_def)

text \<open>
  C11: the page refines the spec's phase machine. From a reachable state, every event
  moves the phase along a step of the spec's machine, or it is the edit click that
  re-enters Editing while a rename is still pending.
\<close>

theorem phase_refinement:
  assumes "reachable p"
  shows "spec_step (phase_of p) (phase_of (page_step p ev)) \<or>
         (ev = ClickEdit \<and> phase_of p = Committing \<and> phase_of (page_step p ev) = Editing)"
proof -
  have inv: "page_inv p" using assms by (rule reachable_inv)
  consider (nav) "navigated p \<noteq> None" | (foc) "navigated p = None" "field_focused p"
    | (unf) "navigated p = None" "\<not> field_focused p" by blast
  then show ?thesis
  proof cases
    case nav
    then show ?thesis by (simp add: page_step_navigated spec_step.stay)
  next
    case foc
    then have "phase_of p = Editing" by (simp add: phase_of_def)
    then show ?thesis
      by (cases "phase_of (page_step p ev)") (simp_all add: spec_step.intros)
  next
    case unf
    show ?thesis
    proof (cases "ev = ClickEdit")
      case True
      then have "phase_of (page_step p ev) = Editing"
        using unf edit_step_focused [OF inv] edit_step_navigated [OF inv] by (simp add: phase_of_def)
      then show ?thesis
        using True unf by (cases "phase_of p") (simp_all add: spec_step.intros)
    next
      case False
      have "\<not> field_focused (page_step p ev)"
        using unfocused_step_field [OF inv unf(2) False] unf by (simp add: field_focused_def)
      moreover have "list_ex is_rename (pending (net (page_step p ev))) \<Longrightarrow> list_ex is_rename (pending (net p))"
        by (rule unfocused_step_renames [OF inv unf(2)])
      ultimately show ?thesis
        using unf by (auto simp: phase_of_def spec_step.intros split: if_splits)
    qed
  qed
qed

theorem phase_refinement_witness:
  "reachable (init_page ''artist'' 7 ''Radiohead'' [] []) \<and>
   (spec_step (phase_of (init_page ''artist'' 7 ''Radiohead'' [] []))
              (phase_of (page_step (init_page ''artist'' 7 ''Radiohead'' [] []) ClickEdit)) \<or>
    (ClickEdit = ClickEdit \<and> phase_of (init_page ''artist'' 7 ''Radiohead'' [] []) = Committing \<and>
     phase_of (page_step (init_page ''artist'' 7 ''Radiohead'' [] []) ClickEdit) = Editing))"
proof -
  have h: "reachable (init_page ''artist'' 7 ''Radiohead'' [] [])"
    by (rule reachable.rendered) (simp add: dom_wf_def)
  show ?thesis using h phase_refinement [OF h, of ClickEdit] by blast
qed

lemma reachable_page_run: "reachable p \<Longrightarrow> reachable (page_run p evs)"
  by (induction evs arbitrary: p) (auto intro: reachable.step)

text \<open>
  C12: the edit button re-opens the field while a rename is in flight. There is a
  reachable page in the Committing phase (a rename posted, its request pending) from
  which the edit click enters Editing, a transition the spec's machine does not have.
\<close>

theorem rename_in_flight_reedit:
  "\<exists>p. reachable p \<and> phase_of p = Committing \<and> phase_of (page_step p ClickEdit) = Editing \<and>
       \<not> spec_step Committing Editing"
proof -
  let ?start = "init_page ''artist'' 7 ''Radiohead'' [] []"
  let ?p = "page_run ?start [ClickEdit, TypeText ''X'', ClickAway]"
  have r0: "reachable ?start" by (rule reachable.rendered) (simp add: dom_wf_def)
  have r: "reachable ?p" using reachable_page_run [OF r0] by blast
  have x: "html_escape (remove1 newline ''X'') = ''X''" by (simp add: html_escape_char_def)
  have c: "phase_of ?p = Committing"
    unfolding run_edit_type_blur
    by (simp only: x) (simp add: phase_of_def field_focused_def init_page_def empty_net_def rename_target_def is_rename_def)
  have inv: "page_inv ?p" using r by (rule reachable_inv)
  have nav: "navigated ?p = None"
    unfolding run_edit_type_blur by (simp add: init_page_def)
  have e: "phase_of (page_step ?p ClickEdit) = Editing"
    using edit_step_focused [OF inv nav] edit_step_navigated [OF inv nav] by (simp add: phase_of_def)
  have "\<not> spec_step Committing Editing" by (auto elim: spec_step_CommittingE)
  with r c e show ?thesis by blast
qed

end
