(* ===== verification/Behaviour.thy ===== *)
theory Behaviour
  imports Refinement
begin

text \<open>
  Properties of whole runs of the page that the spec states in prose: the two ways of
  committing an edit (Enter and clicking away) are one, the track page renames
  through its own endpoint, a page of any other entity type posts to an undefined
  URL, and the edit button always opens the field in the same state. It also holds
  the frame of the edit session: its handlers keep what the row handlers read and
  write (\<open>row_view\<close>), so only the row handlers of the scrobble table touch the
  document.
\<close>

text \<open>The events whose handlers edit the document: the two buttons of a scrobble row.\<close>

fun row_event :: "event \<Rightarrow> bool" where
  "row_event (ClickToggle _) = True"
| "row_event (ClickDelete _ _) = True"
| "row_event _ = False"

lemma page_inv_focused_counts:
  assumes "page_inv p" "namefield p = Some f" "nf_focused f"
  shows "\<exists>j. count_list (nf_listeners f) OnKeydown = Suc j"
  using assms by (auto simp: page_inv_def field_inv_def gr0_conv_Suc)

lemma blur_field_unfocused_id: "\<not> field_focused p \<Longrightarrow> blur_field p = p"
  by (simp add: blur_field_def)

text \<open>The user's actions: every event but the completion or failure of a request.\<close>

fun user_event :: "event \<Rightarrow> bool" where
  "user_event (RequestDone _) = False"
| "user_event (RequestFail _) = False"
| "user_event _ = True"

text \<open>What the row handlers read and write: the navigation state, the document and
  the requests other than renames (those without the navigation callback).\<close>

definition row_view :: "page \<Rightarrow> string option \<times> dom \<times> request list \<times> request list" where
  "row_view p =
     (navigated p, doc p, filter (Not \<circ> is_rename) (issued (net p)), filter (Not \<circ> is_rename) (pending (net p)))"

lemma run_listener_row_view:
  "(\<And>q. h p = Inr q \<Longrightarrow> row_view q = row_view p) \<Longrightarrow> row_view (run_listener h p) = row_view p"
  by (auto simp: run_listener_def row_view_def split: sum.split)

lemma funpow_row_view:
  fixes g :: "page \<Rightarrow> page"
  assumes "\<And>q. row_view (g q) = row_view q"
  shows "row_view ((g ^^ n) p) = row_view p"
  by (induction n) (simp_all add: assms)

lemma update_field_row_view [simp]: "row_view (update_field g p) = row_view p"
  by (simp add: row_view_def)

lemma doneEditing_row_view: "doneEditing p = Inr q \<Longrightarrow> row_view q = row_view p"
  by (auto simp: doneEditing_def row_view_def Let_def xhttpreq_eq is_rename_def
      split: option.splits if_splits prod.splits)

lemma blur_field_row_view: "row_view (blur_field p) = row_view p"
  by (simp add: blur_field_def dispatch_def funpow_row_view run_listener_row_view doneEditing_row_view)

lemma keydown_row_view: "row_view (run_listener (keydown_listener k) p) = row_view p"
  by (rule run_listener_row_view)
     (auto simp: keydown_listener_def blur_field_row_view split: option.splits if_splits)

lemma input_row_view: "row_view (run_listener input_listener p) = row_view p"
  by (rule run_listener_row_view) (auto simp: input_listener_def split: option.splits if_splits)

lemma editEntity_row_view: "row_view (run_listener editEntity p) = row_view p"
  by (rule run_listener_row_view)
     (auto simp: editEntity_def Let_def focus_field_def selectAll_def row_view_def split: option.splits)

text \<open>The frame of the edit session: its handlers keep the rows' view.\<close>

lemma edit_step_row_view:
  assumes "user_event ev" "\<not> row_event ev"
  shows "row_view (page_step p ev) = row_view p"
  using assms
  by (cases ev)
     (simp_all add: page_step_def dispatch_def funpow_row_view keydown_row_view input_row_view
      editEntity_row_view blur_field_row_view focus_field_def)

lemma page_step_doc: "\<not> row_event ev \<Longrightarrow> doc (page_step p ev) = doc p"
proof (cases "user_event ev")
  case True
  assume "\<not> row_event ev"
  with True show ?thesis using edit_step_row_view [of ev p] by (simp add: row_view_def)
next
  case False
  then show ?thesis
    by (cases ev) (auto simp: page_step_def run_callback_def Let_def split: option.split callback.split)
qed

lemma reachable_rendered_page: "reachable (init_page ty eid name search [])"
  by (rule reachable.rendered) (simp add: dom_wf_def)

text \<open>
  C13: pressing Enter commits exactly as clicking away does. In every reachable state
  the Enter key's listener (\<^verbatim>\<open>nameelement.blur()\<close>) leads to the same page as a
  click outside the field: the same requests, the same field, the same errors.
\<close>

theorem enter_is_click_away:
  assumes "reachable p"
  shows "page_step p (KeyDown ''Enter'') = page_step p ClickAway"
proof -
  have inv: "page_inv p" using assms by (rule reachable_inv)
  then obtain f where f: "namefield p = Some f" by (auto simp: page_inv_def split: option.splits)
  show ?thesis
  proof (cases "navigated p = None \<and> nf_focused f")
    case True
    with page_inv_focused_counts [OF inv f] obtain j where "count_list (nf_listeners f) OnKeydown = Suc j"
      by blast
    with True f show ?thesis by (simp add: page_step_Enter) (simp add: page_step_def)
  next
    case False
    with f show ?thesis by (auto simp: page_step_def field_focused_def blur_field_def)
  qed
qed

theorem enter_is_click_away_witness:
  "reachable (page_step (init_page ''artist'' 7 ''Radiohead'' [] []) ClickEdit) \<and>
   page_step (page_step (init_page ''artist'' 7 ''Radiohead'' [] []) ClickEdit) (KeyDown ''Enter'') =
   page_step (page_step (init_page ''artist'' 7 ''Radiohead'' [] []) ClickEdit) ClickAway"
proof -
  have h: "reachable (page_step (init_page ''artist'' 7 ''Radiohead'' [] []) ClickEdit)"
    by (rule reachable.step [OF reachable_rendered_page])
  show ?thesis using h enter_is_click_away [OF h] by simp
qed

text \<open>
  C14: renaming a track. On a track page, editing the name and clicking away posts one
  request to the track-rename endpoint with payload \<open>{id, title}\<close>; when it completes
  the page navigates to the search parameters with \<open>title\<close> set to the new name.
\<close>

theorem rename_track_request:
  assumes "html_escape (remove1 newline t) \<noteq> name"
  shows "issued (net (page_run (init_page ''track'' eid name search d) [ClickEdit, TypeText t, ClickAway])) =
           [mk_request (Some track_endpoint)
              (JObj [(''id'', JNum eid), (''title'', JStr (html_escape (remove1 newline t)))]) ''POST''
              (CbNavigate (usp_set (usp_of_string search) ''title'' (html_escape (remove1 newline t)))) True] \<and>
         navigated (page_run (init_page ''track'' eid name search d)
             [ClickEdit, TypeText t, ClickAway, RequestDone 0]) =
           Some (''?'' @ usp_to_string (usp_set (usp_of_string search) ''title'' (html_escape (remove1 newline t))))"
proof -
  let ?p3 = "page_run (init_page ''track'' eid name search d) [ClickEdit, TypeText t, ClickAway]"
  have run: "page_run (init_page ''track'' eid name search d) [ClickEdit, TypeText t, ClickAway, RequestDone 0]
               = page_step ?p3 (RequestDone 0)"
    by (simp del: page_step_def)
  show ?thesis
    unfolding run unfolding run_edit_type_blur using assms
    by (simp add: rename_target_def empty_net_def init_page_def page_step_def complete_request_def
        run_callback_def Let_def)
qed

theorem rename_track_request_witness:
  "html_escape (remove1 newline ''Karma Police'') \<noteq> ''Karma police'' \<and>
   issued (net (page_run (init_page ''track'' 3 ''Karma police'' [] []) [ClickEdit, TypeText ''Karma Police'', ClickAway])) =
     [mk_request (Some track_endpoint)
        (JObj [(''id'', JNum 3), (''title'', JStr (html_escape (remove1 newline ''Karma Police'')))]) ''POST''
        (CbNavigate (usp_set (usp_of_string []) ''title'' (html_escape (remove1 newline ''Karma Police'')))) True] \<and>
   navigated (page_run (init_page ''track'' 3 ''Karma police'' [] [])
       [ClickEdit, TypeText ''Karma Police'', ClickAway, RequestDone 0]) =
     Some (''?'' @ usp_to_string (usp_set (usp_of_string []) ''title'' (html_escape (remove1 newline ''Karma Police''))))"
proof -
  have h: "html_escape (remove1 newline ''Karma Police'') \<noteq> ''Karma police''"
    by (simp add: html_escape_char_def)
  show ?thesis using h rename_track_request [OF h, of 3 "[]" "[]"] by simp
qed

text \<open>
  C15: a page of another entity type. \<^verbatim>\<open>doneEditing\<close> handles only \<open>artist\<close> and
  \<open>track\<close>; on any other page a changed name is still posted, with no URL (the
  variable \<^verbatim>\<open>endpoint\<close> stays undefined) and no payload, and its callback navigates to
  the unchanged search parameters.
\<close>

theorem unknown_type_rename_request:
  assumes "ty \<noteq> ''artist''" "ty \<noteq> ''track''" "html_escape (remove1 newline t) \<noteq> name"
  shows "issued (net (page_run (init_page ty eid name search d) [ClickEdit, TypeText t, ClickAway])) =
           [mk_request None JUndefined ''POST'' (CbNavigate (usp_of_string search)) True]"
  unfolding run_edit_type_blur using assms by (simp add: rename_target_def empty_net_def)

theorem unknown_type_rename_request_witness:
  "''album'' \<noteq> ''artist'' \<and> ''album'' \<noteq> ''track'' \<and> html_escape (remove1 newline ''OK Computer'') \<noteq> ''Ok Computer'' \<and>
   issued (net (page_run (init_page ''album'' 5 ''Ok Computer'' [] []) [ClickEdit, TypeText ''OK Computer'', ClickAway])) =
     [mk_request None JUndefined ''POST'' (CbNavigate (usp_of_string [])) True]"
proof -
  have h: "''album'' \<noteq> ''artist''" "''album'' \<noteq> ''track''"
    "html_escape (remove1 newline ''OK Computer'') \<noteq> ''Ok Computer''"
    by (simp_all add: html_escape_char_def)
  show ?thesis using h unknown_type_rename_request [OF h, of 5 "[]" "[]"] by simp
qed

text \<open>
  C16: the edit button opens the field. From any reachable page that has not navigated
  away, \<^verbatim>\<open>editEntity()\<close> makes the field plaintext-only editable and focused, selects
  its contents, keeps its text and the network untouched, and installs one more
  listener of each kind.
\<close>

theorem edit_entry_state:
  assumes "reachable p" "navigated p = None" "namefield p = Some g"
  shows "\<exists>f. namefield (page_step p ClickEdit) = Some f \<and> nf_editable f = CEPlaintextOnly \<and> nf_focused f \<and>
             nf_text f = nf_text g \<and> selection (page_step p ClickEdit) = [NodeContents name_field_id] \<and>
             net (page_step p ClickEdit) = net p \<and>
             (\<forall>l. count_list (nf_listeners f) l = Suc (count_list (nf_listeners g) l))"
proof -
  have "count_list [OnKeydown, OnInput, OnBlur] l = 1" for l by (cases l) simp_all
  then show ?thesis using assms(2,3) by (simp add: page_step_ClickEdit)
qed

theorem edit_entry_state_witness:
  "reachable (init_page ''artist'' 7 ''Radiohead'' [] []) \<and> navigated (init_page ''artist'' 7 ''Radiohead'' [] []) = None \<and>
   namefield (init_page ''artist'' 7 ''Radiohead'' [] []) =
     Some \<lparr>nf_text = ''Radiohead'', nf_editable = CEInherit, nf_focused = False, nf_listeners = []\<rparr> \<and>
   (\<exists>f. namefield (page_step (init_page ''artist'' 7 ''Radiohead'' [] []) ClickEdit) = Some f \<and>
        nf_editable f = CEPlaintextOnly \<and> nf_focused f \<and> nf_text f = ''Radiohead'' \<and>
        selection (page_step (init_page ''artist'' 7 ''Radiohead'' [] []) ClickEdit) = [NodeContents name_field_id] \<and>
        net (page_step (init_page ''artist'' 7 ''Radiohead'' [] []) ClickEdit) = net (init_page ''artist'' 7 ''Radiohead'' [] []) \<and>
        (\<forall>l. count_list (nf_listeners f) l = Suc (count_list [] l)))"
proof -
  have h: "reachable (init_page ''artist'' 7 ''Radiohead'' [] [])" by (rule reachable_rendered_page)
  have n: "navigated (init_page ''artist'' 7 ''Radiohead'' [] []) = None" by (simp add: init_page_def)
  have g: "namefield (init_page ''artist'' 7 ''Radiohead'' [] []) =
     Some \<lparr>nf_text = ''Radiohead'', nf_editable = CEInherit, nf_focused = False, nf_listeners = []\<rparr>"
    by (simp add: init_page_def)
  show ?thesis using h n g edit_entry_state [OF h n g] by simp
qed

end
