(* ===== verification/Interleaving.thy ===== *)
theory Interleaving
  imports Behaviour "HOL-Library.Multiset"
begin

text \<open>
  Interleaving of the two parts of the script. The row handlers touch the document
  and send the delete request; the name field's handlers touch the field and send
  the rename request. A delete click and the end of an edit session therefore
  commute: in either order they leave the same page, up to the order in which the
  two requests were sent.
\<close>

lemma commit_requests_frame [simp]:
  "commit_requests (p\<lparr>doc := d, net := n\<rparr>) = commit_requests p"
  "commit_requests (p\<lparr>errors := e\<rparr>) = commit_requests p"
  by (cases "namefield p"; simp add: commit_requests_def)+

lemma blur_field_cases:
  obtains (unfocused) "\<not> field_focused p"
  | (silent) f where "namefield p = Some f" "nf_focused f" "count_list (nf_listeners f) OnBlur = 0"
  | (commit) f k where "namefield p = Some f" "nf_focused f" "count_list (nf_listeners f) OnBlur = Suc k"
proof (cases "namefield p")
  case (Some f)
  show ?thesis
  proof (cases "nf_focused f")
    case True
    with Some show ?thesis using that(2,3) by (cases "count_list (nf_listeners f) OnBlur") auto
  qed (use Some that(1) in \<open>simp add: field_focused_def\<close>)
qed (use that(1) in \<open>simp add: field_focused_def\<close>)

lemma blur_field_silent:
  "namefield p = Some f \<Longrightarrow> nf_focused f \<Longrightarrow> count_list (nf_listeners f) OnBlur = 0 \<Longrightarrow>
   blur_field p = p\<lparr>namefield := Some (f\<lparr>nf_focused := False\<rparr>)\<rparr>"
  by (simp add: blur_field_def field_focused_def dispatch_def listener_count_def update_field_def)

lemma delete_step_cases:
  "run_listener (deleteScrobble sid n) p =
     (case nth_ancestor (doc p) 3 n of None \<Rightarrow> p\<lparr>errors := errors p @ [TypeError]\<rparr>
      | Some r \<Rightarrow> p\<lparr>doc := update_class_list (doc p) r (\<lambda>ts. token_add ts ''removed''),
                      net := add_requests (net p) [mk_request (Some delete_endpoint)
                               (JObj [(''timestamp'', JNum sid)]) ''POST'' CbNull True]\<rparr>)"
  by (simp add: run_listener_def deleteScrobble_eq xhttpreq_eq split: option.split)

lemma field_focused_delete [simp]:
  "field_focused (run_listener (deleteScrobble sid n) p) = field_focused p"
  by (simp add: delete_step_cases field_focused_def split: option.split)

text \<open>
  C17: a delete and the end of an edit commute. From any page that has not navigated
  away, clicking a row's delete button and then clicking outside the field leaves the
  same document, field, selection and console errors as the two clicks in the other
  order, and the same requests issued and pending, as multisets.
\<close>

theorem delete_blur_commute:
  assumes "navigated p = None"
  shows "(page_run p [ClickDelete sid n, ClickAway])\<lparr>net := empty_net\<rparr> =
           (page_run p [ClickAway, ClickDelete sid n])\<lparr>net := empty_net\<rparr> \<and>
         mset (issued (net (page_run p [ClickDelete sid n, ClickAway]))) =
           mset (issued (net (page_run p [ClickAway, ClickDelete sid n]))) \<and>
         mset (pending (net (page_run p [ClickDelete sid n, ClickAway]))) =
           mset (pending (net (page_run p [ClickAway, ClickDelete sid n])))"
proof (cases p rule: blur_field_cases)
  case unfocused
  then show ?thesis using assms
    by (simp add: page_step_def blur_field_unfocused_id)
next
  case (silent f)
  then show ?thesis using assms
    by (simp add: page_step_def delete_step_cases blur_field_silent field_focused_def split: option.split)
next
  case (commit f k)
  then show ?thesis using assms
    by (simp add: page_step_def delete_step_cases blur_field_eq field_focused_def ac_simps split: option.split)
qed

theorem delete_blur_commute_witness:
  "navigated (page_step row_page ClickEdit) = None \<and>
   (page_run (page_step row_page ClickEdit) [ClickDelete 12345 0, ClickAway])\<lparr>net := empty_net\<rparr> =
     (page_run (page_step row_page ClickEdit) [ClickAway, ClickDelete 12345 0])\<lparr>net := empty_net\<rparr> \<and>
   mset (issued (net (page_run (page_step row_page ClickEdit) [ClickDelete 12345 0, ClickAway]))) =
     mset (issued (net (page_run (page_step row_page ClickEdit) [ClickAway, ClickDelete 12345 0]))) \<and>
   mset (pending (net (page_run (page_step row_page ClickEdit) [ClickDelete 12345 0, ClickAway]))) =
     mset (pending (net (page_run (page_step row_page ClickEdit) [ClickAway, ClickDelete 12345 0])))"
proof -
  have h: "navigated (page_step row_page ClickEdit) = None"
    by (simp add: row_page_def init_page_def page_step_def run_listener_def editEntity_eq)
  show ?thesis using h delete_blur_commute [OF h] by blast
qed

end
