(* ===== verification/Composition.thy ===== *)
theory Composition
  imports Interleaving
begin

text \<open>
  The two parts of \<^verbatim>\<open>edit.js\<close> composed over whole traces. The row handlers
  (\<^verbatim>\<open>toggleDeleteConfirm\<close>, \<^verbatim>\<open>deleteScrobble\<close>, lines 5--14) and the name field's
  handlers (\<^verbatim>\<open>editEntity\<close>, its listeners and \<^verbatim>\<open>doneEditing\<close>, lines 26--92) share
  one page, but each reads only its own part of it. \<open>edit_view\<close> is what the edit
  session reads and writes: the three globals, the field, the selection, the location,
  the navigation and the rename requests (those with the navigation callback);
  \<open>row_view\<close> (defined in \<open>Behaviour\<close>) is what the rows read and write: the
  navigation state, the document and the other requests.
  For every trace of user actions, each view after the trace is the view after the
  actions of its own part alone. The views are preserved step by step: a handler of
  one part keeps the other part's view, and maps pages with equal views of its own
  part to pages with equal views (the unwinding conditions of non-interference).
  Request completions and failures are left out: they name a request by its position
  among all pending ones, so removing the other part's requests renumbers them.
\<close>

text \<open>What the edit session reads and writes (the rows' part is \<open>row_view\<close>).\<close>

definition edit_view ::
  "page \<Rightarrow> string \<times> int \<times> string \<times> name_field option \<times> sel_range list \<times> string \<times> string option \<times>
           request list \<times> request list" where
  "edit_view p =
     (entity_type p, entity_id p, entity_name p, namefield p, selection p, location_search p, navigated p,
      filter is_rename (issued (net p)), filter is_rename (pending (net p)))"

subsection \<open>The edit session's view\<close>

lemma run_listener_view_cong:
  assumes "\<And>p q. edit_view p = edit_view q \<Longrightarrow> rel_sum (\<lambda>_ _. True) (\<lambda>a b. edit_view a = edit_view b) (h p) (h q)"
    and "edit_view p = edit_view q"
  shows "edit_view (run_listener h p) = edit_view (run_listener h q)"
  using assms(1) [OF assms(2)] assms(2)
  by (cases "h p"; cases "h q") (simp_all add: run_listener_def edit_view_def)

lemma edit_view_update_field:
  "edit_view p = edit_view q \<Longrightarrow> edit_view (update_field g p) = edit_view (update_field g q)"
  by (simp add: edit_view_def)

lemma dispatch_view_cong:
  assumes "\<And>p q. edit_view p = edit_view q \<Longrightarrow> rel_sum (\<lambda>_ _. True) (\<lambda>a b. edit_view a = edit_view b) (h p) (h q)"
    and "edit_view p = edit_view q"
  shows "edit_view (dispatch l h p) = edit_view (dispatch l h q)"
proof -
  have "listener_count l p = listener_count l q" using assms(2) by (simp add: edit_view_def listener_count_def)
  then show ?thesis unfolding dispatch_def
    using funpow_view_cong [of edit_view "run_listener h", OF run_listener_view_cong [OF assms(1)] assms(2)]
    by simp
qed

lemma doneEditing_view_cong:
  "edit_view p = edit_view q \<Longrightarrow> rel_sum (\<lambda>_ _. True) (\<lambda>a b. edit_view a = edit_view b) (doneEditing p) (doneEditing q)"
  by (auto simp: doneEditing_def edit_view_def Let_def xhttpreq_eq is_rename_def split: option.split prod.split)

lemma field_focused_view: "edit_view p = edit_view q \<Longrightarrow> field_focused p = field_focused q"
  by (simp add: edit_view_def field_focused_def)

lemma blur_field_view_cong:
  assumes "edit_view p = edit_view q"
  shows "edit_view (blur_field p) = edit_view (blur_field q)"
  using assms field_focused_view [OF assms]
    dispatch_view_cong [OF doneEditing_view_cong edit_view_update_field [OF assms]]
  by (simp add: blur_field_def)

lemma keydown_view_cong:
  "edit_view p = edit_view q \<Longrightarrow>
   rel_sum (\<lambda>_ _. True) (\<lambda>a b. edit_view a = edit_view b) (keydown_listener k p) (keydown_listener k q)"
  by (auto simp: keydown_listener_def edit_view_def [of p] edit_view_def [of q]
      intro!: blur_field_view_cong edit_view_update_field split: option.split)

lemma input_view_cong:
  "edit_view p = edit_view q \<Longrightarrow>
   rel_sum (\<lambda>_ _. True) (\<lambda>a b. edit_view a = edit_view b) (input_listener p) (input_listener q)"
  by (auto simp: input_listener_def edit_view_def [of p] edit_view_def [of q]
      intro!: edit_view_update_field split: option.split)

lemma editEntity_view_cong:
  assumes that: "edit_view p = edit_view q"
  shows "rel_sum (\<lambda>_ _. True) (\<lambda>a b. edit_view a = edit_view b) (editEntity p) (editEntity q)"
proof (cases "namefield q")
  case None
  then show ?thesis using that by (simp add: editEntity_def edit_view_def)
next
  case (Some f)
  then have "namefield p = Some f" using that by (simp add: edit_view_def)
  then show ?thesis using that Some by (simp add: editEntity_eq edit_view_def)
qed

lemma focus_field_view_cong:
  "edit_view p = edit_view q \<Longrightarrow> edit_view (focus_field p) = edit_view (focus_field q)"
  by (auto simp: focus_field_def field_editable_def field_focused_def edit_view_def)

lemma edit_step_view_cong:
  assumes v: "edit_view p = edit_view q" and "user_event ev" "\<not> row_event ev"
  shows "edit_view (page_step p ev) = edit_view (page_step q ev)"
proof -
  have nav: "navigated q = navigated p" and foc: "field_focused q = field_focused p"
    and ed: "field_editable q = field_editable p"
    using v by (simp_all add: edit_view_def field_focused_def field_editable_def)
  show ?thesis
  proof (cases "navigated p = None")
    case False
    then show ?thesis using v nav by (simp add: page_step_navigated)
  next
    case True
    show ?thesis
    proof (cases ev)
      case ClickEdit
      then show ?thesis using True nav run_listener_view_cong [OF editEntity_view_cong v]
        by (simp add: page_step_def)
    next
      case (KeyDown k)
      then show ?thesis using True nav foc v dispatch_view_cong [OF keydown_view_cong v]
        by (simp add: page_step_def)
    next
      case (TypeText t)
      then show ?thesis
        using True nav foc ed v dispatch_view_cong [OF input_view_cong edit_view_update_field [OF v]]
        by (simp add: page_step_def)
    next
      case ClickAway
      then show ?thesis using True nav blur_field_view_cong [OF v] by (simp add: page_step_def)
    next
      case ClickField
      then show ?thesis using True nav focus_field_view_cong [OF v] by (simp add: page_step_def)
    qed (use assms in simp_all)
  qed
qed

lemma row_step_edit_view:
  assumes "row_event ev"
  shows "edit_view (page_step p ev) = edit_view p"
proof (cases ev)
  case (ClickToggle n)
  then show ?thesis
    by (simp add: page_step_def run_listener_def toggleDeleteConfirm_eq edit_view_def split: option.split)
next
  case (ClickDelete sid n)
  then show ?thesis
    by (simp add: page_step_def delete_step_cases edit_view_def is_rename_def split: option.split)
qed (use assms in simp_all)

lemma edit_view_run:
  assumes "edit_view p = edit_view q" "list_all user_event evs"
  shows "edit_view (page_run p evs) = edit_view (page_run q (filter (Not \<circ> row_event) evs))"
  using assms
proof (induction evs arbitrary: p q)
  case (Cons ev evs)
  show ?case
  proof (cases "row_event ev")
    case True
    have "edit_view (page_step p ev) = edit_view q"
      using row_step_edit_view [OF True, of p] Cons.prems(1) by (rule trans)
    from Cons.IH [OF this] Cons.prems(2) True show ?thesis by simp
  next
    case False
    have "user_event ev" using Cons.prems(2) by simp
    then have "edit_view (page_step p ev) = edit_view (page_step q ev)"
      using edit_step_view_cong [OF Cons.prems(1) _ False] by blast
    from Cons.IH [OF this] Cons.prems(2) False show ?thesis by simp
  qed
qed simp

subsection \<open>The rows' view\<close>

lemma row_step_row_view_cong:
  assumes v: "row_view p = row_view q" and "row_event ev"
  shows "row_view (page_step p ev) = row_view (page_step q ev)"
proof -
  have nav: "navigated q = navigated p" and d: "doc q = doc p" using v by (simp_all add: row_view_def)
  show ?thesis
  proof (cases ev)
    case (ClickToggle n)
    then show ?thesis using v nav d
      by (simp add: page_step_def run_listener_def toggleDeleteConfirm_eq row_view_def split: option.split)
  next
    case (ClickDelete sid n)
    then show ?thesis using v nav d
      by (simp add: page_step_def delete_step_cases row_view_def is_rename_def split: option.split)
  qed (use assms in simp_all)
qed

lemma row_view_run:
  assumes "row_view p = row_view q" "list_all user_event evs"
  shows "row_view (page_run p evs) = row_view (page_run q (filter row_event evs))"
  using assms
proof (induction evs arbitrary: p q)
  case (Cons ev evs)
  show ?case
  proof (cases "row_event ev")
    case True
    have "row_view (page_step p ev) = row_view (page_step q ev)"
      using row_step_row_view_cong [OF Cons.prems(1) True] .
    from Cons.IH [OF this] Cons.prems(2) True show ?thesis by simp
  next
    case False
    have "user_event ev" using Cons.prems(2) by simp
    then have "row_view (page_step p ev) = row_view q"
      using edit_step_row_view [OF _ False, of p] Cons.prems(1) by simp
    from Cons.IH [OF this] Cons.prems(2) False show ?thesis by simp
  qed
qed simp

subsection \<open>Trace separation\<close>

text \<open>
  C18: the edit session does not see the scrobble rows. For any sequence of user
  actions, the entity globals, the name field, the selection, the location, the
  navigation and the rename requests issued and pending are the same as after the same
  actions with every row click (toggle and delete) left out.
\<close>

theorem edit_session_ignores_rows:
  assumes "list_all user_event evs"
  shows "edit_view (page_run p evs) = edit_view (page_run p (filter (Not \<circ> row_event) evs))"
  using edit_view_run [OF refl assms] .

theorem edit_session_ignores_rows_witness:
  "list_all user_event [ClickEdit, ClickDelete 12345 0, TypeText ''Radiohead Live'', ClickToggle 0, ClickAway] \<and>
   edit_view (page_run row_page [ClickEdit, ClickDelete 12345 0, TypeText ''Radiohead Live'', ClickToggle 0, ClickAway]) =
   edit_view (page_run row_page [ClickEdit, TypeText ''Radiohead Live'', ClickAway])"
  using edit_session_ignores_rows [of "[ClickEdit, ClickDelete 12345 0, TypeText ''Radiohead Live'', ClickToggle 0, ClickAway]" row_page]
  by simp

text \<open>
  C19: the scrobble rows do not see the edit session. For any sequence of user
  actions, the document (every element's classes), the navigation and the requests
  other than renames (the deletes) issued and pending are the same as after the row
  clicks of the sequence alone.
\<close>

theorem rows_ignore_edit_session:
  assumes "list_all user_event evs"
  shows "row_view (page_run p evs) = row_view (page_run p (filter row_event evs))"
  using row_view_run [OF refl assms] .

theorem rows_ignore_edit_session_witness:
  "list_all user_event [ClickEdit, ClickDelete 12345 0, TypeText ''Radiohead Live'', ClickToggle 0, ClickAway] \<and>
   row_view (page_run row_page [ClickEdit, ClickDelete 12345 0, TypeText ''Radiohead Live'', ClickToggle 0, ClickAway]) =
   row_view (page_run row_page [ClickDelete 12345 0, ClickToggle 0])"
  using rows_ignore_edit_session [of "[ClickEdit, ClickDelete 12345 0, TypeText ''Radiohead Live'', ClickToggle 0, ClickAway]" row_page]
  by simp

end
