(* ===== verification/Failure.thy ===== *)
theory Failure
  imports Behaviour
begin

text \<open>
  Failed requests (spec sections 4.2, 5 and 7). \<^verbatim>\<open>edit.js\<close> passes
  \<^verbatim>\<open>neo.xhttpreq\<close> one callback per request and no error handler, so a request that
  fails leaves the pending list without running anything (the event
  \<open>RequestFail\<close> of \<open>page_step\<close>). The optimistic updates of the script are then never
  undone: a failed rename leaves the locked field showing the new name, with no
  navigation and no error.
\<close>

text \<open>
  C20: a failed rename leaves the page stuck on the new name. On a rendered page whose
  name the user changes, when the rename request fails the page does not navigate,
  keeps its location, reports no error, and shows the new text in a field that is
  locked and unfocused; nothing is pending any more, and the phase is Viewing although
  the server never accepted the name.
\<close>

theorem failed_rename_stuck:
  assumes "html_escape (remove1 newline t) \<noteq> name"
  shows "let q = page_run (init_page ty eid name search d) [ClickEdit, TypeText t, ClickAway, RequestFail 0]
         in navigated q = None \<and> location_search q = search \<and> errors q = [] \<and>
            namefield q = Some \<lparr>nf_text = remove1 newline t, nf_editable = CEFalse, nf_focused = False,
                                nf_listeners = [OnKeydown, OnInput, OnBlur]\<rparr> \<and>
            length (issued (net q)) = 1 \<and> pending (net q) = [] \<and> phase_of q = Viewing"
proof -
  let ?p3 = "page_run (init_page ty eid name search d) [ClickEdit, TypeText t, ClickAway]"
  have run: "page_run (init_page ty eid name search d) [ClickEdit, TypeText t, ClickAway, RequestFail 0]
               = page_step ?p3 (RequestFail 0)"
    by (simp del: page_step_def)
  show ?thesis
    unfolding run unfolding run_edit_type_blur using assms
    by (simp add: empty_net_def init_page_def page_step_def complete_request_def phase_of_def
        field_focused_def split: prod.split)
qed

theorem failed_rename_stuck_witness:
  "html_escape (remove1 newline ''Radiohead Remastered'') \<noteq> ''Radiohead'' \<and>
   (let q = page_run (init_page ''artist'' 7 ''Radiohead'' [] []) [ClickEdit, TypeText ''Radiohead Remastered'', ClickAway, RequestFail 0]
    in navigated q = None \<and> location_search q = [] \<and> errors q = [] \<and>
       namefield q = Some \<lparr>nf_text = remove1 newline ''Radiohead Remastered'', nf_editable = CEFalse, nf_focused = False,
                           nf_listeners = [OnKeydown, OnInput, OnBlur]\<rparr> \<and>
       length (issued (net q)) = 1 \<and> pending (net q) = [] \<and> phase_of q = Viewing)"
proof -
  have h: "html_escape (remove1 newline ''Radiohead Remastered'') \<noteq> ''Radiohead''"
    by (simp add: html_escape_char_def)
  show ?thesis using h failed_rename_stuck [OF h, of "''artist''" 7 "[]" "[]"] by blast
qed

end
