(* ===== verification/Rows.thy ===== *)
theory Rows
  imports Interleaving
begin

text \<open>
  The scrobble rows against the spec's contract (sections 4.1 and 4.2). Abstractly a
  row container carries two flags: \<^emph>\<open>armed\<close> (the class \<^verbatim>\<open>active\<close>, shown while the
  delete confirmation is open) and \<^emph>\<open>removed\<close> (the class \<^verbatim>\<open>removed\<close>).
  \<open>row_spec_step\<close> is the spec's row machine: the toggle flips the armed flag of the
  container two levels above the clicked element, the delete sets the removed flag of
  the container three levels above it, and every other event leaves the flags alone.
  \<open>row_marks\<close> reads the flags off the document. Over every run of a reachable page
  that has not navigated away, the document's flags are those of the spec's machine
  run on the same events: the page refines the abstract row machine. The tree the
  machine walks is the rendered one, since no handler moves an element.
\<close>

definition row_marks :: "dom \<Rightarrow> node \<Rightarrow> bool \<times> bool" where
  "row_marks d n = (has_class d n ''active'', has_class d n ''removed'')"

definition row_spec_step :: "dom \<Rightarrow> (node \<Rightarrow> bool \<times> bool) \<Rightarrow> event \<Rightarrow> node \<Rightarrow> bool \<times> bool" where
  "row_spec_step d m ev =
     (case ev of
        ClickToggle n \<Rightarrow>
          (case nth_ancestor d 2 n of None \<Rightarrow> m | Some g \<Rightarrow> m(g := (\<not> fst (m g), snd (m g))))
      | ClickDelete sid n \<Rightarrow>
          (case nth_ancestor d 3 n of None \<Rightarrow> m | Some r \<Rightarrow> m(r := (fst (m r), True)))
      | _ \<Rightarrow> m)"

subsection \<open>One step\<close>

lemma nth_ancestor_entry:
  assumes "dom_wf d" "nth_ancestor d (Suc k) n = Some m"
  obtains e where "map_of d m = Some e"
  using nth_ancestor_in_dom [OF assms] by (metis map_of_eq_None_iff not_None_eq set_map)

lemma has_class_Some: "map_of d n = Some e \<Longrightarrow> has_class d n t \<longleftrightarrow> t \<in> set (class_list e)"
  by (simp add: has_class_def)

lemma row_marks_toggle:
  "map_of d g = Some e \<Longrightarrow>
   row_marks (update_class_list d g (\<lambda>ts. token_toggle ts ''active'')) =
     (row_marks d)(g := (\<not> fst (row_marks d g), snd (row_marks d g)))"
  by (auto simp: row_marks_def has_class_update_class_list set_token_toggle has_class_Some fun_eq_iff)

lemma row_marks_add:
  "map_of d r = Some e \<Longrightarrow>
   row_marks (update_class_list d r (\<lambda>ts. token_add ts ''removed'')) = (row_marks d)(r := (fst (row_marks d r), True))"
  by (auto simp: row_marks_def has_class_update_class_list token_add_def has_class_Some fun_eq_iff)

lemma row_step_refines:
  assumes "dom_wf (doc p)" "navigated p = None"
  shows "row_marks (doc (page_step p ev)) = row_spec_step (doc p) (row_marks (doc p)) ev"
proof (cases ev)
  case (ClickToggle n)
  show ?thesis
  proof (cases "nth_ancestor (doc p) 2 n")
    case (Some g)
    then have "nth_ancestor (doc p) (Suc 1) n = Some g" by (simp only: numeral_2_eq_2 numeral_3_eq_3 One_nat_def)
    then obtain e where "map_of (doc p) g = Some e" using nth_ancestor_entry [OF assms(1)] by blast
    with Some ClickToggle assms(2) show ?thesis
      by (simp add: page_step_def run_listener_def toggleDeleteConfirm_eq row_spec_step_def row_marks_toggle)
  qed (use ClickToggle assms(2) in \<open>simp add: page_step_def run_listener_def toggleDeleteConfirm_eq row_spec_step_def\<close>)
next
  case (ClickDelete sid n)
  show ?thesis
  proof (cases "nth_ancestor (doc p) 3 n")
    case (Some r)
    then have "nth_ancestor (doc p) (Suc 2) n = Some r" by (simp only: numeral_2_eq_2 numeral_3_eq_3 One_nat_def)
    then obtain e where "map_of (doc p) r = Some e" using nth_ancestor_entry [OF assms(1)] by blast
    with Some ClickDelete assms(2) show ?thesis
      by (simp add: page_step_def delete_step_cases row_spec_step_def row_marks_add)
  qed (use ClickDelete assms(2) in \<open>simp add: page_step_def delete_step_cases row_spec_step_def\<close>)
qed (simp_all add: page_step_doc row_spec_step_def)

subsection \<open>Runs\<close>

lemma row_step_navigated: "row_event ev \<Longrightarrow> navigated (page_step p ev) = navigated p"
  by (cases ev) (auto simp: page_step_def run_listener_def toggleDeleteConfirm_eq deleteScrobble_eq
      split: option.split sum.split)

lemma row_run_navigated: "list_all row_event evs \<Longrightarrow> navigated (page_run p evs) = navigated p"
  by (induction evs arbitrary: p) (simp_all add: row_step_navigated)

lemma page_step_nth_ancestor [simp]: "nth_ancestor (doc (page_step p ev)) k n = nth_ancestor (doc p) k n"
proof (cases "row_event ev")
  case True
  then show ?thesis
    by (cases ev) (auto simp: page_step_def run_listener_def toggleDeleteConfirm_eq deleteScrobble_eq
        split: option.split sum.split)
qed (simp add: page_step_doc)

lemma row_spec_step_ancestors:
  "(\<And>k n. nth_ancestor d' k n = nth_ancestor d k n) \<Longrightarrow> row_spec_step d' = row_spec_step d"
  by (simp add: row_spec_step_def fun_eq_iff split: event.split)

lemma page_run_navigated_prefix:
  "navigated (page_run p (ev # evs)) = None \<Longrightarrow> navigated p = None"
proof -
  have "navigated p \<noteq> None \<Longrightarrow> page_run p evs = p" for p evs
    by (induction evs) (simp_all add: page_step_navigated)
  then show "navigated (page_run p (ev # evs)) = None \<Longrightarrow> navigated p = None"
    by (metis page_run.simps(2) page_step_navigated)
qed

lemma row_run_refines:
  assumes "page_inv p" "navigated (page_run p evs) = None"
  shows "row_marks (doc (page_run p evs)) = fold (\<lambda>ev m. row_spec_step (doc p) m ev) evs (row_marks (doc p))"
  using assms
proof (induction evs arbitrary: p)
  case (Cons ev evs)
  have nav: "navigated p = None" using page_run_navigated_prefix Cons.prems(2) .
  have wf: "dom_wf (doc p)" using Cons.prems(1) by (auto elim: page_invE)
  have "row_marks (doc (page_run (page_step p ev) evs)) =
          fold (\<lambda>e m. row_spec_step (doc (page_step p ev)) m e) evs (row_marks (doc (page_step p ev)))"
    using Cons.IH [OF page_step_inv [OF Cons.prems(1)]] Cons.prems(2) by simp
  also have "(\<lambda>ev' m. row_spec_step (doc (page_step p ev)) m ev') = (\<lambda>ev' m. row_spec_step (doc p) m ev')"
    using row_spec_step_ancestors [of "doc (page_step p ev)" "doc p"] by simp
  finally show ?case using row_step_refines [OF wf nav, of ev] by simp
qed simp

text \<open>
  C21: the rows refine the spec's row machine. For every run of a reachable page that
  ends without having navigated away, each element's pair of flags (\<^verbatim>\<open>active\<close>,
  \<^verbatim>\<open>removed\<close>) after the run is the one the abstract row machine computes from the
  rendered flags by running the same events: toggles flip the armed flag of the
  grandparent, deletes set the removed flag of the great-grandparent, clicks on
  elements without such an ancestor and all other events change nothing.
\<close>

theorem rows_refine_spec:
  assumes "reachable p" and "navigated (page_run p evs) = None"
  shows "row_marks (doc (page_run p evs)) = fold (\<lambda>ev m. row_spec_step (doc p) m ev) evs (row_marks (doc p))"
  using row_run_refines [OF reachable_inv [OF assms(1)] assms(2)] .

theorem rows_refine_spec_witness:
  "reachable row_page \<and>
   navigated (page_run row_page [ClickToggle 0, ClickDelete 12345 0, ClickToggle 0]) = None \<and>
   row_marks (doc (page_run row_page [ClickToggle 0, ClickDelete 12345 0, ClickToggle 0])) =
     fold (\<lambda>ev m. row_spec_step (doc row_page) m ev) [ClickToggle 0, ClickDelete 12345 0, ClickToggle 0]
       (row_marks (doc row_page))"
proof -
  have h1: "reachable row_page"
    unfolding row_page_def
    by (rule reachable.rendered) (simp add: row_doc_def dom_wf_def parent_in_def)
  have h2: "navigated (page_run row_page [ClickToggle 0, ClickDelete 12345 0, ClickToggle 0]) = None"
    using row_run_navigated [of "[ClickToggle 0, ClickDelete 12345 0, ClickToggle 0]" row_page]
    by (simp add: row_page_def init_page_def del: page_run.simps)
  show ?thesis using h1 h2 rows_refine_spec [OF h1 h2] by blast
qed
end
