(* ===== verification/Spec2Isabelle.thy ===== *)
theory Spec2Isabelle
  imports Json_Fuel Composition Failure Rows
begin

text \<open>
  \<^bold>\<open>A verification model of maloja's inline edit script.\<close>
  The program is \<^verbatim>\<open>src/maloja/web/static/js/edit.js\<close>, the browser script of
  maloja's web interface that deletes scrobbles and renames artists and tracks. Its
  parts, in the order of the file:
  \<^item> \<^verbatim>\<open>toggleDeleteConfirm(element)\<close> (lines 5--7) flips the class \<^verbatim>\<open>active\<close> on the
    element's grandparent;
  \<^item> \<^verbatim>\<open>deleteScrobble(id, element)\<close> (lines 9--14) adds \<^verbatim>\<open>removed\<close> to the
    great-grandparent, then posts \<^verbatim>\<open>{timestamp: id}\<close> through \<^verbatim>\<open>neo.xhttpreq\<close>;
  \<^item> \<^verbatim>\<open>selectAll(e)\<close> (lines 17--24) selects the contents of an element;
  \<^item> \<^verbatim>\<open>editEntity()\<close> (lines 26--61) makes \<^verbatim>\<open>#main_entity_name\<close> editable and installs
    a keydown listener (Enter ends editing, Escape reverts then ends editing), an input
    listener (strips the first newline of the field's HTML) and a blur listener (calls
    \<^verbatim>\<open>doneEditing\<close>), then focuses the field and selects it;
  \<^item> \<^verbatim>\<open>doneEditing()\<close> (lines 63--92) locks the field and, when its HTML differs from
    the global \<^verbatim>\<open>entity_name\<close>, posts the rename to the artist or track endpoint and
    navigates to the updated query string once the request completes.
  The script talks to its environment through shared state and callbacks: the globals
  \<^verbatim>\<open>entity_type\<close>, \<^verbatim>\<open>entity_id\<close>, \<^verbatim>\<open>entity_name\<close> of the page, the document (parent
  pointers, class lists, the field's \<^verbatim>\<open>innerHTML\<close>, focus, selection), the request
  helper \<^verbatim>\<open>neo.xhttpreq\<close> whose callback runs when a request completes, and
  \<^verbatim>\<open>URLSearchParams\<close> and \<^verbatim>\<open>window.location\<close>.

  \<^bold>\<open>Theories.\<close>
  \<^item> \<open>Prelude\<close>: shared rule collections, the JavaScript string primitives
    (\<open>js_includes\<close>, \<open>js_replace_first\<close>, with \<open>js_replace_first [c] [] = remove1 c\<close>),
    exceptions as \<open>js_error + 'a\<close> sequenced by \<open>sum_bind\<close>, generic lemmas on
    iterated functions.
  \<^item> \<open>Html_Text\<close>: \<^verbatim>\<open>innerHTML\<close> of a text-only field: the getter is \<open>html_escape\<close>,
    the setter \<open>html_unescape\<close>; their round trip, a sanity lemma of the model.
  \<^item> \<open>Url_Params\<close>: \<^verbatim>\<open>URLSearchParams\<close> from the WHATWG URL standard: percent-encoding,
    the urlencoded parser and serializer, \<open>usp_set\<close>, \<open>usp_get\<close>; their laws, used by
    the navigation claims.
  \<^item> \<open>Dom\<close>: the element store (association list of elements with parent and class
    list), \<^verbatim>\<open>.parentElement\<close> chains that throw on null, DOMTokenList toggle and add,
    the store's well-formedness \<open>dom_wf\<close>.
  \<^item> \<open>Xhr\<close>: \<^verbatim>\<open>neo.xhttpreq\<close> as a record of issued and pending requests and the
    completion of a pending request, which hands its callback back (the page runs
    it when the request succeeds and drops it when the request fails).
  \<^item> \<open>Page\<close>: the page state \<open>page\<close> (globals, field, selection, document, requests,
    location, console errors), the rendered page \<open>init_page\<close>, and the browser
    operations on the field: \<open>inner_html\<close>, \<open>focus_field\<close>, \<open>selectAll\<close>, event
    dispatch \<open>dispatch\<close> (every listener of the type, in order, an exception reported
    and the dispatch continued).
  \<^item> \<open>Delete\<close>: \<open>toggleDeleteConfirm\<close>, \<open>deleteScrobble\<close>; claims C8--C9.
  \<^item> \<open>Edit\<close>: \<open>rename_target\<close> (lines 71--80), \<open>doneEditing\<close>, \<open>blur_field\<close>
    (\<^verbatim>\<open>namefield.blur()\<close> with the blur listeners), \<open>keydown_listener\<close>,
    \<open>input_listener\<close>, \<open>editEntity\<close>; \<open>commit_requests\<close>, the requests one commit
    posts; the closed forms of each handler and of \<open>k\<close> copies of a listener.
  \<^item> \<open>Events\<close>: the page as an event machine, \<open>page_step\<close> and \<open>page_run\<close> over the
    events \<open>ClickEdit\<close>, \<open>KeyDown\<close>, \<open>TypeText\<close>, \<open>ClickAway\<close>, \<open>ClickField\<close>,
    \<open>ClickToggle\<close>, \<open>ClickDelete\<close>, \<open>RequestDone\<close>, \<open>RequestFail\<close>; one-step
    lemmas and runs from the rendered page.
  \<^item> \<open>Json\<close>, \<open>Json_Fuel\<close>: \<^verbatim>\<open>JSON.stringify\<close> on the payloads
    (\<open>json_stringify\<close>, with \<open>json_quote\<close> and \<open>json_int\<close>), a reference JSON decoder
    \<open>json_parse\<close> with fuel, their round trip and the adequacy of the fuel: the
    wire format of the requests, as library lemmas.
  \<^item> \<open>Schema\<close>: JSON types (\<open>jtype\<close>, \<open>has_jtype\<close>), the body schema of each
    server endpoint (\<open>endpoint_schema\<close>, spec section 6) and \<open>request_typed\<close>.
  \<^item> \<open>Invariant\<close>: the reachable pages (inductive \<open>reachable\<close>) and the invariant
    \<open>page_inv\<close> proved by rule induction, one preservation lemma per handler; it
    includes that every request is a JSON POST fitting its endpoint's schema (C10).
  \<^item> \<open>Refinement\<close>: the spec's phase machine \<open>spec_step\<close> (Viewing, Editing,
    Committing) and the abstraction \<open>phase_of\<close>; the simulation C11 and the extra
    transition C12.
  \<^item> \<open>Behaviour\<close>: properties of whole runs: Enter and click-away are the same
    commit (C13), the track rename (C14), other entity types (C15), the state the edit
    button enters (C16); the rows' view \<open>row_view\<close> and the frame lemmas showing
    that the edit session's handlers keep it.
  \<^item> \<open>Interleaving\<close>: a delete click and the end of an edit session commute, up to
    the order of the requests (C17).
  \<^item> \<open>Composition\<close>: the two parts of the script over whole traces of user actions:
    the edit session's view (\<open>edit_view\<close>) and the rows' view (\<open>row_view\<close>) each
    depend only on the actions of their own part (C18, C19), proved by unwinding:
    each handler keeps the other part's view and respects equality of its own.
  \<^item> \<open>Failure\<close>: a failed rename leaves the field on the new name with no
    navigation (C20).
  \<^item> \<open>Rows\<close>: the spec's abstract row machine (\<open>row_spec_step\<close>: an armed and a
    removed flag per container) and the abstraction \<open>row_marks\<close> of the document; the
    page refines it over every run (C21).
  \<^item> this theory: the end-to-end properties of the rename flow, C1--C7.

  \<^bold>\<open>What the claims show.\<close>
  C1--C2: a rename of an artist posts one request with the right endpoint and payload and
  then navigates to a query whose \<open>artist\<close> is the new name. C3, C5, C6: an unchanged
  commit and Escape post nothing for plain names; typing strips the first newline. C4
  and C7 are findings: names with \<open>&\<close>, \<open><\<close> or \<open>>\<close> are renamed to their escaped
  form on an unchanged commit, and listeners accumulate so that a later session posts
  its rename once per earlier session. C8--C9: the delete toggle is an involution on
  class sets, and a delete marks the row and posts \<open>{timestamp: id}\<close>. C10: the
  invariant of all reachable pages. C11--C12: refinement of the spec's state machine,
  and the transition (re-editing while a rename is in flight) that the spec does not
  have. C13: in every reachable page Enter leads to the same page as a click outside
  the field. C14: the track rename posts \<open>{id, title}\<close> to the track endpoint and
  navigates with \<open>title\<close> set. C15: on a page of any other type a changed name is
  posted with no URL and no payload. C16: the edit button opens a focused, selected,
  plaintext-only field and adds one listener of each kind. C17: a delete click and a
  click outside the field commute up to the order of the requests. C18--C19: for
  every trace of user actions, the field, selection, location, navigation and rename
  requests are those of the trace without its row clicks, and the document and delete
  requests those of its row clicks alone. C20: a failed rename leaves the locked field
  showing the new name, in Viewing, with no navigation and no error: the displayed and
  committed names then differ outside an edit session, against the spec's data
  model. C21: over every run that stays on the page, the classes \<^verbatim>\<open>active\<close> and
  \<^verbatim>\<open>removed\<close> of every element are those of the spec's row machine.

  \<^bold>\<open>Modelling conventions.\<close> A thrown exception is a value \<open>Inl e\<close> that discards
  what the handler did so far; this is exact for \<^verbatim>\<open>edit.js\<close>, whose handlers can
  only throw before their first effect (the \<^verbatim>\<open>parentElement\<close> chains of lines 6
  and 10, and the assignments of lines 29 and 65 to the result of
  \<^verbatim>\<open>getElementById\<close>). A click on a button or outside the
  field is the event of its handler alone: when the field has focus, the blur that a
  browser dispatches before the click is the separate event \<open>ClickAway\<close>, so a click
  on a row while editing is the trace \<open>[ClickAway, ClickDelete sid n]\<close>; a
  \<open>ClickDelete\<close> or \<open>ClickEdit\<close> while the field has focus stands for an activation
  that does not move the focus. C17 shows that the two orders of a row click and the
  blur give the same page, and C18--C19 hold for every interleaving. A failed request
  drops its callback, following spec sections 5 and 7; \<^verbatim>\<open>neo.js\<close>, which decides
  this, is outside \<^verbatim>\<open>src/\<close>.

  \<^bold>\<open>Bounds and fuel.\<close> The script has no loop. Every recursive definition of the
  model is structural (string scanners, list folds, \<open>page_run\<close> over the event
  list) or, for \<open>dec_digits\<close>, terminates on \<open>n div 10\<close>; event dispatch is the
  \<open>n\<close>-fold iteration of a listener, \<open>n\<close> the number of listeners registered when
  the dispatch starts. The JSON decoder \<open>parse_value\<close> takes fuel, one unit per
  nested value or further member; \<open>json_parse\<close> gives it the length of the text,
  which \<open>need_le_length\<close> shows is enough for every text \<open>json_stringify\<close> makes.

  \<^bold>\<open>Not modelled.\<close> The server endpoints beyond the schema of their request bodies,
  and the page templates (only their output is assumed: the field shows \<^verbatim>\<open>entity_name\<close> and the globals are defined); the HTTP
  exchange inside \<^verbatim>\<open>neo.xhttpreq\<close> (requests are kept as values, their bodies are
  the JSON texts of \<open>Json\<close>); JSON numbers other than integers and
  \<^verbatim>\<open>\uXXXX\<close> escapes above 127, which the byte model of strings does not carry; markup and character references other than
  \<open>&amp; &lt; &gt; &quot;\<close> in strings assigned to \<^verbatim>\<open>innerHTML\<close>, and U+00A0,
  which is outside the byte model of strings; the implicit globals that the call
  syntax \<^verbatim>\<open>data=..., method=...\<close> and \<^verbatim>\<open>newname = ...\<close> create, which no code of
  the file reads back (only \<^verbatim>\<open>neo.js\<close>, outside \<^verbatim>\<open>src/\<close>, could observe them);
  browsers without \<^verbatim>\<open>plaintext-only\<close> support, where the assignment of line 29
  throws; numbers beyond \<open>2^53\<close>, which JavaScript rounds and prints in exponent
  form (\<open>json_int\<close> prints every integer exactly; ids and timestamps are far below).
  Request completions and failures are left out of the trace separation of C18--C19,
  since they name a request by its position among all pending ones.
\<close>

section \<open>Renaming an entity\<close>

text \<open>
  C1: renaming an artist. On the rendered page of an artist, clicking the edit button,
  typing a text and clicking away posts exactly one request: to the artist-rename
  endpoint, with payload \<open>{id, name}\<close> where the name is the field's HTML (the typed
  text with its first newline stripped by the input listener, then HTML-escaped),
  whenever that name differs from \<^verbatim>\<open>entity_name\<close>; its callback navigates to the
  current search parameters with \<open>artist\<close> set to the new name.
\<close>

theorem rename_artist_request:
  assumes "html_escape (remove1 newline t) \<noteq> name"
  shows "issued (net (page_run (init_page ''artist'' eid name search d) [ClickEdit, TypeText t, ClickAway])) =
           [mk_request (Some artist_endpoint)
              (JObj [(''id'', JNum eid), (''name'', JStr (html_escape (remove1 newline t)))]) ''POST''
              (CbNavigate (usp_set (usp_of_string search) ''artist'' (html_escape (remove1 newline t)))) True]"
  unfolding run_edit_type_blur using assms by (simp add: rename_target_def empty_net_def)

theorem rename_artist_request_witness:
  "html_escape (remove1 newline ''Radiohead Remastered'') \<noteq> ''Radiohead'' \<and>
   issued (net (page_run (init_page ''artist'' 7 ''Radiohead'' [] [])
     [ClickEdit, TypeText ''Radiohead Remastered'', ClickAway])) =
   [mk_request (Some artist_endpoint)
      (JObj [(''id'', JNum 7), (''name'', JStr (html_escape (remove1 newline ''Radiohead Remastered'')))])
      ''POST''
      (CbNavigate (usp_set (usp_of_string []) ''artist'' (html_escape (remove1 newline ''Radiohead Remastered''))))
      True]"
proof -
  have h: "html_escape (remove1 newline ''Radiohead Remastered'') \<noteq> ''Radiohead''"
    by (simp add: html_escape_char_def)
  show ?thesis using h rename_artist_request [OF h, of 7 "[]" "[]"] by simp
qed

text \<open>
  C2: the artist rename navigates to the renamed artist. When that request completes,
  the page navigates to a query string whose \<open>artist\<close> parameter is the new name and
  whose other parameters are those of the page's search string.
\<close>

theorem rename_artist_navigation:
  assumes "html_escape (remove1 newline t) \<noteq> name"
  shows "navigated (page_run (init_page ''artist'' eid name search d)
             [ClickEdit, TypeText t, ClickAway, RequestDone 0]) \<noteq> None \<and>
         usp_get (usp_of_string (location_search (page_run (init_page ''artist'' eid name search d)
             [ClickEdit, TypeText t, ClickAway, RequestDone 0]))) k =
           (if k = ''artist'' then Some (html_escape (remove1 newline t)) else usp_get (usp_of_string search) k)"
proof -
  let ?n = "html_escape (remove1 newline t)"
  let ?sp = "usp_set (usp_of_string search) ''artist'' ?n"
  let ?p3 = "page_run (init_page ''artist'' eid name search d) [ClickEdit, TypeText t, ClickAway]"
  have run: "page_run (init_page ''artist'' eid name search d) [ClickEdit, TypeText t, ClickAway, RequestDone 0]
               = page_step ?p3 (RequestDone 0)"
    by (simp del: page_step_def)
  have "navigated ?p3 = None" and "pending (net ?p3) =
      [mk_request (Some artist_endpoint) (JObj [(''id'', JNum eid), (''name'', JStr ?n)]) ''POST'' (CbNavigate ?sp) True]"
    unfolding run_edit_type_blur using assms by (simp_all add: rename_target_def empty_net_def init_page_def)
  then have "page_step ?p3 (RequestDone 0) = run_callback (CbNavigate ?sp) (?p3\<lparr>net := (net ?p3)\<lparr>pending := []\<rparr>\<rparr>)"
    by (simp add: page_step_def complete_request_def)
  then show ?thesis
    by (simp add: run run_callback_def Let_def usp_of_string_navigate usp_get_set_same usp_get_set_other)
qed

theorem rename_artist_navigation_witness:
  "html_escape (remove1 newline ''Radiohead Remastered'') \<noteq> ''Radiohead'' \<and>
   navigated (page_run (init_page ''artist'' 7 ''Radiohead'' ''?artist=Radiohead'' [])
     [ClickEdit, TypeText ''Radiohead Remastered'', ClickAway, RequestDone 0]) \<noteq> None \<and>
   usp_get (usp_of_string (location_search (page_run (init_page ''artist'' 7 ''Radiohead'' ''?artist=Radiohead'' [])
     [ClickEdit, TypeText ''Radiohead Remastered'', ClickAway, RequestDone 0]))) ''artist'' =
     Some (html_escape (remove1 newline ''Radiohead Remastered''))"
proof -
  have h: "html_escape (remove1 newline ''Radiohead Remastered'') \<noteq> ''Radiohead''"
    by (simp add: html_escape_char_def)
  show ?thesis using h rename_artist_navigation [OF h, of 7 "''?artist=Radiohead''" "[]" "''artist''"] by simp
qed

text \<open>
  C3: a commit without change is silent for names without markup characters. Clicking
  edit and then away posts nothing when the name contains none of \<open>&\<close>, \<open><\<close>, \<open>>\<close>;
  the field is left locked with the name shown.
\<close>

theorem unchanged_name_no_request:
  assumes "\<not> list_ex html_special name"
  shows "issued (net (page_run (init_page ty eid name search d) [ClickEdit, ClickAway])) = [] \<and>
         namefield (page_run (init_page ty eid name search d) [ClickEdit, ClickAway]) =
           Some \<lparr>nf_text = name, nf_editable = CEFalse, nf_focused = False,
                 nf_listeners = [OnKeydown, OnInput, OnBlur]\<rparr>"
  unfolding run_edit_blur using assms by (simp add: html_escape_id_iff empty_net_def)

theorem unchanged_name_no_request_witness:
  "\<not> list_ex html_special ''Radiohead'' \<and>
   issued (net (page_run (init_page ''artist'' 7 ''Radiohead'' [] []) [ClickEdit, ClickAway])) = []"
proof -
  have h: "\<not> list_ex html_special ''Radiohead''" by (simp add: html_special_def)
  show ?thesis using h unchanged_name_no_request [OF h, of "''artist''" 7 "[]" "[]"] by simp
qed

text \<open>
  C4: a commit without change renames names with markup characters. When the name
  contains \<open>&\<close>, \<open><\<close> or \<open>>\<close>, clicking edit and then away posts a rename to the
  HTML-escaped name (\<^verbatim>\<open>doneEditing\<close> compares \<^verbatim>\<open>innerHTML\<close>, not the text, with
  \<^verbatim>\<open>entity_name\<close>), against the spec's "no network call" for an unchanged name.
\<close>

theorem special_name_spurious_rename:
  assumes "list_ex html_special name"
  shows "html_escape name \<noteq> name \<and>
         issued (net (page_run (init_page ''artist'' eid name search d) [ClickEdit, ClickAway])) =
           [mk_request (Some artist_endpoint) (JObj [(''id'', JNum eid), (''name'', JStr (html_escape name))])
              ''POST'' (CbNavigate (usp_set (usp_of_string search) ''artist'' (html_escape name))) True]"
  unfolding run_edit_blur using assms by (simp add: html_escape_id_iff empty_net_def rename_target_def)

theorem special_name_spurious_rename_witness:
  "list_ex html_special ''A & B'' \<and>
   issued (net (page_run (init_page ''artist'' 7 ''A & B'' [] []) [ClickEdit, ClickAway])) =
     [mk_request (Some artist_endpoint) (JObj [(''id'', JNum 7), (''name'', JStr ''A &amp; B'')])
        ''POST'' (CbNavigate (usp_set (usp_of_string []) ''artist'' ''A &amp; B'')) True]"
proof -
  have h: "list_ex html_special ''A & B''" by (simp add: html_special_def)
  have e: "html_escape ''A & B'' = ''A &amp; B''" by (simp add: html_escape_char_def)
  show ?thesis using h special_name_spurious_rename [OF h, of 7 "[]" "[]"] by (simp only: e)
qed

text \<open>
  C5: Escape reverts. Typing any text and pressing Escape shows the original name again,
  locks the field and posts nothing, for a name without markup characters.
\<close>

theorem escape_reverts_without_request:
  assumes "\<not> list_ex html_special name"
  shows "issued (net (page_run (init_page ty eid name search d) [ClickEdit, TypeText t, KeyDown ''Escape''])) = [] \<and>
         namefield (page_run (init_page ty eid name search d) [ClickEdit, TypeText t, KeyDown ''Escape'']) =
           Some \<lparr>nf_text = name, nf_editable = CEFalse, nf_focused = False,
                 nf_listeners = [OnKeydown, OnInput, OnBlur]\<rparr>"
proof -
  let ?f2 = "\<lparr>nf_text = remove1 newline t, nf_editable = CEPlaintextOnly, nf_focused = True,
              nf_listeners = [OnKeydown, OnInput, OnBlur]\<rparr>"
  let ?p2 = "(init_page ty eid name search d)\<lparr>namefield := Some ?f2, selection := [NodeContents name_field_id]\<rparr>"
  have run2: "page_run (init_page ty eid name search d) [ClickEdit, TypeText t] = ?p2"
    using page_step_TypeText [of "page_step (init_page ty eid name search d) ClickEdit"]
    by (simp add: page_step_ClickEdit init_page_def)
  have amp: "CHR ''&'' \<notin> set name" using assms by (auto simp: html_special_def list_ex_iff)
  have "page_step ?p2 (KeyDown ''Escape'') =
          ?p2\<lparr>namefield := Some (?f2\<lparr>nf_text := html_unescape name, nf_focused := False,
                             nf_editable := CEFalse\<rparr>),
               net := add_requests (net ?p2) (concat (replicate 1
                 (commit_requests (?p2\<lparr>namefield := Some (?f2\<lparr>nf_text := html_unescape name\<rparr>)\<rparr>))))\<rparr>"
    using page_step_Escape [of ?p2 ?f2 0 0] by (simp add: init_page_def)
  moreover have "page_run (init_page ty eid name search d) [ClickEdit, TypeText t, KeyDown ''Escape''] =
                   page_step ?p2 (KeyDown ''Escape'')"
    using run2 by (simp add: page_run_append [of _ "[ClickEdit, TypeText t]" "[KeyDown ''Escape'']", simplified])
  ultimately show ?thesis
    using assms amp by (simp add: html_unescape_no_amp commit_requests_def html_escape_id_iff init_page_def empty_net_def)
qed

theorem escape_reverts_without_request_witness:
  "\<not> list_ex html_special ''Radiohead'' \<and>
   issued (net (page_run (init_page ''artist'' 7 ''Radiohead'' [] [])
     [ClickEdit, TypeText ''New Title'', KeyDown ''Escape''])) = []"
proof -
  have h: "\<not> list_ex html_special ''Radiohead''" by (simp add: html_special_def)
  show ?thesis using h escape_reverts_without_request [OF h, of "''artist''" 7 "[]" "[]" "''New Title''"] by simp
qed

text \<open>
  C6: the input listener strips the first newline. After the edit click, typing a text
  leaves it in the field with its first newline removed and nothing else changed.
\<close>

theorem typing_strips_first_newline:
  "namefield (page_run (init_page ty eid name search d) [ClickEdit, TypeText t]) =
     Some \<lparr>nf_text = remove1 newline t, nf_editable = CEPlaintextOnly, nf_focused = True,
           nf_listeners = [OnKeydown, OnInput, OnBlur]\<rparr>"
  using page_step_TypeText [of "page_step (init_page ty eid name search d) ClickEdit"]
  by (simp add: page_step_ClickEdit init_page_def)

text \<open>
  C7: listeners accumulate across edit sessions. After \<open>k\<close> edit sessions that changed
  nothing, the next edit posts the rename \<open>k + 1\<close> times (one blur listener per
  \<^verbatim>\<open>editEntity\<close> call), and each input event strips \<open>k + 1\<close> newlines.
\<close>

theorem repeated_sessions_duplicate_requests:
  assumes "\<not> list_ex html_special name" and "html_escape ((remove1 newline ^^ Suc k) t) \<noteq> name"
  shows "issued (net (page_run (init_page ''artist'' eid name search d)
            (concat (replicate k [ClickEdit, ClickAway]) @ [ClickEdit, TypeText t, ClickAway]))) =
         replicate (Suc k)
           (mk_request (Some artist_endpoint)
              (JObj [(''id'', JNum eid), (''name'', JStr (html_escape ((remove1 newline ^^ Suc k) t)))]) ''POST''
              (CbNavigate (usp_set (usp_of_string search) ''artist'' (html_escape ((remove1 newline ^^ Suc k) t))))
              True)"
proof -
  let ?L = "concat (replicate k [OnKeydown, OnInput, OnBlur]) @ [OnKeydown, OnInput, OnBlur]"
  let ?pk = "after_sessions ''artist'' eid name search d k"
  let ?f = "\<lparr>nf_text = name, nf_editable = (if k = 0 then CEInherit else CEFalse), nf_focused = False,
             nf_listeners = concat (replicate k [OnKeydown, OnInput, OnBlur])\<rparr>"
  let ?f1 = "\<lparr>nf_text = name, nf_editable = CEPlaintextOnly, nf_focused = True, nf_listeners = ?L\<rparr>"
  let ?p1 = "?pk\<lparr>namefield := Some ?f1, selection := [NodeContents name_field_id]\<rparr>"
  let ?f2 = "?f1\<lparr>nf_text := (remove1 newline ^^ Suc k) t\<rparr>"
  let ?p2 = "?p1\<lparr>namefield := Some ?f2\<rparr>"
  have pk: "navigated ?pk = None" "namefield ?pk = Some ?f"
    by (simp_all add: after_sessions_def init_page_def)
  have s1: "page_step ?pk ClickEdit = ?p1"
    using page_step_ClickEdit [OF pk] by simp
  have s2: "page_step ?p1 (TypeText t) = ?p2"
    using page_step_TypeText [of ?p1 ?f1 t] by (simp add: after_sessions_def init_page_def)
  have s3: "page_step ?p2 ClickAway =
              ?p2\<lparr>namefield := Some (?f2\<lparr>nf_focused := False, nf_editable := CEFalse\<rparr>),
                   net := add_requests (net ?p2) (concat (replicate (Suc k) (commit_requests ?p2)))\<rparr>"
    by (rule page_step_ClickAway) (simp_all add: after_sessions_def init_page_def)
  have cr: "commit_requests ?p2 =
      [mk_request (Some artist_endpoint)
         (JObj [(''id'', JNum eid), (''name'', JStr (html_escape ((remove1 newline ^^ Suc k) t)))]) ''POST''
         (CbNavigate (usp_set (usp_of_string search) ''artist'' (html_escape ((remove1 newline ^^ Suc k) t))))
         True]"
    using assms(2) by (simp add: commit_requests_def after_sessions_def init_page_def rename_target_def
        del: funpow.simps)
  have "page_run (init_page ''artist'' eid name search d)
          (concat (replicate k [ClickEdit, ClickAway]) @ [ClickEdit, TypeText t, ClickAway]) =
        page_step (page_step (page_step ?pk ClickEdit) (TypeText t)) ClickAway"
    using run_noop_sessions [OF assms(1)] by (simp add: page_run_append)
  also have "\<dots> = page_step ?p2 ClickAway" using s1 s2 by simp
  finally show ?thesis
    using s3 cr by (simp add: after_sessions_def init_page_def empty_net_def concat_replicate_single
        del: funpow.simps replicate.simps)
qed

theorem repeated_sessions_duplicate_requests_witness:
  "\<not> list_ex html_special ''Radiohead'' \<and> html_escape ((remove1 newline ^^ Suc 1) ''X'') \<noteq> ''Radiohead'' \<and>
   issued (net (page_run (init_page ''artist'' 7 ''Radiohead'' [] [])
     [ClickEdit, ClickAway, ClickEdit, TypeText ''X'', ClickAway])) =
   replicate 2 (mk_request (Some artist_endpoint) (JObj [(''id'', JNum 7), (''name'', JStr ''X'')]) ''POST''
                  (CbNavigate (usp_set (usp_of_string []) ''artist'' ''X'')) True)"
proof -
  have h1: "\<not> list_ex html_special ''Radiohead''" by (simp add: html_special_def)
  have x: "html_escape ((remove1 newline ^^ Suc 1) ''X'') = ''X''" by (simp add: html_escape_char_def)
  have h2: "html_escape ((remove1 newline ^^ Suc 1) ''X'') \<noteq> ''Radiohead''" by (simp only: x) simp
  have "issued (net (page_run (init_page ''artist'' 7 ''Radiohead'' [] [])
          (concat (replicate 1 [ClickEdit, ClickAway]) @ [ClickEdit, TypeText ''X'', ClickAway]))) =
        replicate (Suc 1) (mk_request (Some artist_endpoint)
          (JObj [(''id'', JNum 7), (''name'', JStr (html_escape ((remove1 newline ^^ Suc 1) ''X'')))]) ''POST''
          (CbNavigate (usp_set (usp_of_string []) ''artist'' (html_escape ((remove1 newline ^^ Suc 1) ''X'')))) True)"
    by (rule repeated_sessions_duplicate_requests [OF h1 h2])
  then show ?thesis using h1 h2 by (simp only: x) (simp add: numeral_2_eq_2)
qed

end
